(* ===== verification/Geas_Abi.thy ===== *)
theory Geas_Abi
  imports Geas_Prelude
begin

text \<open>
  The data model of \<^verbatim>\<open>runtime/include/geas/geas_abi.h\<close>: type tags, values, statuses, lifecycle
  states and the descriptor tables a compiled module hands to the runtime.  A \<^verbatim>\<open>GeasValue\<close> is
  the tagged union of the header, so it is a datatype with one constructor per union arm; the
  \<^verbatim>\<open>ty\<close> word is a function of the constructor.  Pointers inside a value are modelled by what
  they address: a non NULL \<^verbatim>\<open>data\<close> or \<^verbatim>\<open>ptr\<close> addresses exactly the live elements or bytes
  (the header's own contract), and NULL is a constructor of its own, with the length field it
  carries, because the code tests for it.
\<close>

section \<open>Type tags\<close>

datatype GeasTypeTag =
    GEAS_TY_UNIT | GEAS_TY_INT | GEAS_TY_UINT | GEAS_TY_FLOAT | GEAS_TY_BOOL | GEAS_TY_BYTE
  | GEAS_TY_CHAR | GEAS_TY_STRING | GEAS_TY_LIST | GEAS_TY_MAP | GEAS_TY_TUPLE
  | GEAS_TY_OPTION | GEAS_TY_RESULT | GEAS_TY_RECORD | GEAS_TY_PLEDGE_REF | GEAS_TY_SUM
  | GEAS_TY_INSTANCE

text \<open>The number the enumeration gives each tag, and the cast \<^verbatim>\<open>(GeasTypeTag)ty\<close> a switch makes;
  a word past the enumeration takes the \<^verbatim>\<open>default\<close> branch.\<close>

fun ty_num :: "GeasTypeTag \<Rightarrow> u32" where
  "ty_num GEAS_TY_UNIT = 0"
| "ty_num GEAS_TY_INT = 1"
| "ty_num GEAS_TY_UINT = 2"
| "ty_num GEAS_TY_FLOAT = 3"
| "ty_num GEAS_TY_BOOL = 4"
| "ty_num GEAS_TY_BYTE = 5"
| "ty_num GEAS_TY_CHAR = 6"
| "ty_num GEAS_TY_STRING = 7"
| "ty_num GEAS_TY_LIST = 8"
| "ty_num GEAS_TY_MAP = 9"
| "ty_num GEAS_TY_TUPLE = 10"
| "ty_num GEAS_TY_OPTION = 11"
| "ty_num GEAS_TY_RESULT = 12"
| "ty_num GEAS_TY_RECORD = 13"
| "ty_num GEAS_TY_PLEDGE_REF = 14"
| "ty_num GEAS_TY_SUM = 15"
| "ty_num GEAS_TY_INSTANCE = 16"

definition tag_list :: "GeasTypeTag list" where
  "tag_list = [GEAS_TY_UNIT, GEAS_TY_INT, GEAS_TY_UINT, GEAS_TY_FLOAT, GEAS_TY_BOOL,
     GEAS_TY_BYTE, GEAS_TY_CHAR, GEAS_TY_STRING, GEAS_TY_LIST, GEAS_TY_MAP, GEAS_TY_TUPLE,
     GEAS_TY_OPTION, GEAS_TY_RESULT, GEAS_TY_RECORD, GEAS_TY_PLEDGE_REF, GEAS_TY_SUM,
     GEAS_TY_INSTANCE]"

definition ty_cast :: "u32 \<Rightarrow> GeasTypeTag option" where
  "ty_cast w = find (\<lambda>t. ty_num t = w) tag_list"

section \<open>Values\<close>

text \<open>\<^verbatim>\<open>GeasString\<close>: NULL with a length field, or the bytes.\<close>

datatype GeasString = SNull u64 | SBytes bytes

text \<open>\<^verbatim>\<open>GeasList\<close>: \<open>LNull len cap elem_ty\<close> for a NULL data pointer, \<open>LData xs cap elem_ty\<close>
  for a pointer to the live elements \<open>xs\<close>, whose number is the length field.\<close>

datatype 'v GeasList = LNull u64 u64 u32 | LData "'v list" u64 u32

text \<open>The five types that ride the list arm and the two that ride the box.\<close>

datatype ArrKind = KList | KMap | KTuple | KRecord | KSum

datatype BoxKind = KOption | KResult

datatype GeasValue =
    VUnit u32
  | VInt u32 u64
  | VUInt u32 u64
  | VFloat u32 u64
  | VBool u32 u8
  | VByte u32 u8
  | VChar u32 u32
  | VString u32 GeasString
  | VArr ArrKind u32 "GeasValue GeasList"
  | VBox BoxKind u32 "GeasValue option"
  | VPledgeRef u32 nat
  | VInstance u32 nat
  | VOther u32 u32

fun arr_ty :: "ArrKind \<Rightarrow> GeasTypeTag" where
  "arr_ty KList = GEAS_TY_LIST"
| "arr_ty KMap = GEAS_TY_MAP"
| "arr_ty KTuple = GEAS_TY_TUPLE"
| "arr_ty KRecord = GEAS_TY_RECORD"
| "arr_ty KSum = GEAS_TY_SUM"

fun box_ty :: "BoxKind \<Rightarrow> GeasTypeTag" where
  "box_ty KOption = GEAS_TY_OPTION"
| "box_ty KResult = GEAS_TY_RESULT"

text \<open>The \<^verbatim>\<open>ty\<close> and \<^verbatim>\<open>tag\<close> words of a value.  \<open>VOther t g\<close> is a value whose \<^verbatim>\<open>ty\<close> word names
  no type tag.\<close>

fun gv_ty :: "GeasValue \<Rightarrow> u32" where
  "gv_ty (VUnit g) = ty_num GEAS_TY_UNIT"
| "gv_ty (VInt g w) = ty_num GEAS_TY_INT"
| "gv_ty (VUInt g w) = ty_num GEAS_TY_UINT"
| "gv_ty (VFloat g w) = ty_num GEAS_TY_FLOAT"
| "gv_ty (VBool g b) = ty_num GEAS_TY_BOOL"
| "gv_ty (VByte g b) = ty_num GEAS_TY_BYTE"
| "gv_ty (VChar g c) = ty_num GEAS_TY_CHAR"
| "gv_ty (VString g s) = ty_num GEAS_TY_STRING"
| "gv_ty (VArr k g l) = ty_num (arr_ty k)"
| "gv_ty (VBox k g b) = ty_num (box_ty k)"
| "gv_ty (VPledgeRef g p) = ty_num GEAS_TY_PLEDGE_REF"
| "gv_ty (VInstance g i) = ty_num GEAS_TY_INSTANCE"
| "gv_ty (VOther t g) = t"

fun gv_tag :: "GeasValue \<Rightarrow> u32" where
  "gv_tag (VUnit g) = g"
| "gv_tag (VInt g w) = g"
| "gv_tag (VUInt g w) = g"
| "gv_tag (VFloat g w) = g"
| "gv_tag (VBool g b) = g"
| "gv_tag (VByte g b) = g"
| "gv_tag (VChar g c) = g"
| "gv_tag (VString g s) = g"
| "gv_tag (VArr k g l) = g"
| "gv_tag (VBox k g b) = g"
| "gv_tag (VPledgeRef g p) = g"
| "gv_tag (VInstance g i) = g"
| "gv_tag (VOther t g) = g"

text \<open>The value \<^verbatim>\<open>memset(v, 0, sizeof *v)\<close> leaves.\<close>

definition gv_zero :: GeasValue where
  "gv_zero = VUnit 0"

fun str_len :: "GeasString \<Rightarrow> u64" where
  "str_len (SNull n) = n"
| "str_len (SBytes bs) = of_nat (length bs)"

fun str_bytes :: "GeasString \<Rightarrow> bytes" where
  "str_bytes (SNull n) = []"
| "str_bytes (SBytes bs) = bs"

fun list_len :: "'v GeasList \<Rightarrow> u64" where
  "list_len (LNull n c e) = n"
| "list_len (LData xs c e) = of_nat (length xs)"

fun list_cap :: "'v GeasList \<Rightarrow> u64" where
  "list_cap (LNull n c e) = c"
| "list_cap (LData xs c e) = c"

fun list_elem_ty :: "'v GeasList \<Rightarrow> u32" where
  "list_elem_ty (LNull n c e) = e"
| "list_elem_ty (LData xs c e) = e"

fun list_elems :: "'v GeasList \<Rightarrow> 'v list" where
  "list_elems (LNull n c e) = []"
| "list_elems (LData xs c e) = xs"

section \<open>Statuses and lifecycle states\<close>

datatype GeasStatus =
    GEAS_OK | GEAS_ERR_STATE | GEAS_ERR_TYPE | GEAS_ERR_VERSION | GEAS_ERR_UNBOUND
  | GEAS_ERR_NAME | GEAS_ERR_DEADLOCK | GEAS_ERR_OOM | GEAS_ERR_LOAD | GEAS_ERR_NET
  | GEAS_ERR_STORE

datatype GeasContractState =
    GEAS_UNSIGNED | GEAS_SIGNED | GEAS_FULFILLED | GEAS_PARTIAL | GEAS_BROKEN

section \<open>Basic facts\<close>

lemma ty_cast_num [simp]: "ty_cast (ty_num t) = Some t"
  by (cases t) (simp_all add: ty_cast_def tag_list_def)

lemma ty_num_inj [simp]: "ty_num a = ty_num b \<longleftrightarrow> a = b"
  by (metis option.inject ty_cast_num)

lemma ty_cast_Some_iff: "ty_cast w = Some t \<longleftrightarrow> w = ty_num t"
  by (auto simp: ty_cast_def find_Some_iff dest: sym) (metis find_Some_iff ty_cast_def ty_cast_num)+

lemma ty_num_le: "ty_num t \<le> 16"
  by (cases t) simp_all

lemma size_elem_list [termination_simp]:
  "x \<in> set (list_elems l) \<Longrightarrow> size x < Suc (size_GeasList size l)"
  by (cases l) (auto dest: size_list_estimation' [of _ _ "size x" size])

end
