(* ===== verification/Geas_Values.thy ===== *)
theory Geas_Values
  imports Geas_Abi
begin

text \<open>
  The value helpers of \<^verbatim>\<open>runtime/src/runtime.c\<close>: the instance heap and its allocator, strings,
  lists, maps, tuples, structural equality and the deep copy.  The instance heap is the block
  list of \<^verbatim>\<open>GeasContract.owned\<close> (here the size of every block, newest first).  Whether the
  i-th \<^verbatim>\<open>malloc\<close> of a run succeeds is a parameter \<open>M\<close>, so every theorem covers every pattern
  of allocation failures.  An argument pointer that the code requires to be non NULL is passed as
  the object it addresses; the \<^verbatim>\<open>if (!p) return GEAS_ERR_TYPE\<close> guards are discharged by that
  typing.  A NULL array with a nonzero length is a fault in C for these helpers; \<open>wf_value\<close>
  excludes it.
\<close>

section \<open>The instance heap\<close>

record heap =
  owned :: "u64 list"
  mcalls :: nat

type_synonym malloc = "nat \<Rightarrow> bool"

definition SIZEOF_VALUE :: u64 where
  "SIZEOF_VALUE = 40"

text \<open>\<^verbatim>\<open>malloc(sizeof(GeasBlock) + n)\<close>: the sum is computed in 64 bits and can wrap.\<close>

definition geas_bytes :: "malloc \<Rightarrow> u64 \<Rightarrow> heap \<Rightarrow> bool \<times> heap" where
  "geas_bytes M n h =
     (if M (mcalls h)
      then (True, h\<lparr>owned := (8 + n) # owned h, mcalls := Suc (mcalls h)\<rparr>)
      else (False, h\<lparr>mcalls := Suc (mcalls h)\<rparr>))"

definition geas_box :: "malloc \<Rightarrow> heap \<Rightarrow> bool \<times> heap" where
  "geas_box M h = geas_bytes M SIZEOF_VALUE h"

section \<open>Strings\<close>

definition geas_string_copy :: "malloc \<Rightarrow> bytes \<Rightarrow> heap \<Rightarrow> GeasValue \<times> heap" where
  "geas_string_copy M utf8 h =
     (case geas_bytes M (of_nat (length utf8)) h of
        (True, h') \<Rightarrow> (VString 0 (SBytes utf8), h')
      | (False, h') \<Rightarrow> (VString 0 (SNull 0), h'))"

definition geas_string_concat ::
    "malloc \<Rightarrow> GeasValue \<Rightarrow> GeasValue \<Rightarrow> heap \<Rightarrow> (GeasStatus + GeasValue) \<times> heap" where
  "geas_string_concat M a b h =
     (case (a, b) of
        (VString _ s, VString _ t) \<Rightarrow>
          (case geas_bytes M (str_len s + str_len t) h of
             (True, h') \<Rightarrow> (Inr (VString 0 (SBytes (str_bytes s @ str_bytes t))), h')
           | (False, h') \<Rightarrow> (Inl GEAS_ERR_OOM, h'))
      | _ \<Rightarrow> (Inl GEAS_ERR_TYPE, h))"

definition geas_string_eq :: "GeasValue \<Rightarrow> GeasValue \<Rightarrow> bool" where
  "geas_string_eq a b =
     (case (a, b) of
        (VString _ s, VString _ t) \<Rightarrow>
          if str_len s \<noteq> str_len t then False
          else if str_len s = 0 then True
          else str_bytes s = str_bytes t
      | _ \<Rightarrow> False)"

section \<open>Lists\<close>

definition geas_list_new ::
    "malloc \<Rightarrow> u32 \<Rightarrow> u64 \<Rightarrow> heap \<Rightarrow> (GeasStatus + GeasValue) \<times> heap" where
  "geas_list_new M elem_ty cap h =
     (if cap = 0 then (Inr (VArr KList 0 (LNull 0 0 elem_ty)), h)
      else (case geas_bytes M (cap * SIZEOF_VALUE) h of
              (True, h') \<Rightarrow> (Inr (VArr KList 0 (LData [] cap elem_ty)), h')
            | (False, h') \<Rightarrow> (Inl GEAS_ERR_OOM, h')))"

definition geas_list_push ::
    "malloc \<Rightarrow> GeasValue \<Rightarrow> GeasValue \<Rightarrow> heap \<Rightarrow> (GeasStatus + GeasValue) \<times> heap" where
  "geas_list_push M list elem h =
     (case list of
        VArr KList g l \<Rightarrow>
          if gv_ty elem \<noteq> list_elem_ty l then (Inl GEAS_ERR_TYPE, h)
          else if list_len l = list_cap l then
            (let cap = (if list_cap l \<noteq> 0 then list_cap l * 2 else 4)
             in case geas_bytes M (cap * SIZEOF_VALUE) h of
                  (True, h') \<Rightarrow>
                    (Inr (VArr KList g (LData (list_elems l @ [elem]) cap (list_elem_ty l))), h')
                | (False, h') \<Rightarrow> (Inl GEAS_ERR_OOM, h'))
          else (Inr (VArr KList g (LData (list_elems l @ [elem]) (list_cap l) (list_elem_ty l))), h)
      | _ \<Rightarrow> (Inl GEAS_ERR_TYPE, h))"

definition geas_list_get :: "GeasValue \<Rightarrow> u64 \<Rightarrow> GeasValue option" where
  "geas_list_get v idx =
     (case v of
        VArr k g l \<Rightarrow>
          if k \<noteq> KList \<and> k \<noteq> KTuple then None
          else if list_len l \<le> idx then None
          else Some (list_elems l ! unat idx)
      | _ \<Rightarrow> None)"

definition geas_list_set :: "GeasValue \<Rightarrow> u64 \<Rightarrow> GeasValue \<Rightarrow> GeasStatus + GeasValue" where
  "geas_list_set list idx elem =
     (case list of
        VArr KList g l \<Rightarrow>
          if gv_ty elem \<noteq> list_elem_ty l then Inl GEAS_ERR_TYPE
          else if list_len l \<le> idx then Inl GEAS_ERR_TYPE
          else Inr (VArr KList g (LData ((list_elems l)[unat idx := elem])
                      (list_cap l) (list_elem_ty l)))
      | _ \<Rightarrow> Inl GEAS_ERR_TYPE)"

definition geas_tuple_new :: "malloc \<Rightarrow> u64 \<Rightarrow> heap \<Rightarrow> (GeasStatus + GeasValue) \<times> heap" where
  "geas_tuple_new M count h =
     (if count = 0 then (Inr (VArr KTuple 0 (LNull 0 0 0)), h)
      else (case geas_bytes M (count * SIZEOF_VALUE) h of
              (True, h') \<Rightarrow>
                (Inr (VArr KTuple 0 (LData (replicate (unat count) gv_zero) count 0)), h')
            | (False, h') \<Rightarrow> (Inl GEAS_ERR_OOM, h')))"

section \<open>Structural equality\<close>

text \<open>\<^verbatim>\<open>a->as.f == b->as.f\<close> on the bit patterns of two IEEE doubles: a NaN equals nothing, and
  the two zeros equal each other.\<close>

definition f64_nan :: "u64 \<Rightarrow> bool" where
  "f64_nan w = (0x7FF0000000000000 < w AND 0x7FFFFFFFFFFFFFFF)"

definition f64_is_zero :: "u64 \<Rightarrow> bool" where
  "f64_is_zero w = (w AND 0x7FFFFFFFFFFFFFFF = 0)"

definition f64_eq :: "u64 \<Rightarrow> u64 \<Rightarrow> bool" where
  "f64_eq a b =
     (\<not> f64_nan a \<and> \<not> f64_nan b \<and> (a = b \<or> (f64_is_zero a \<and> f64_is_zero b)))"

lemma size_list_elems [termination_simp]:
  "size_list size (list_elems l) < Suc (size_GeasList size l)"
  by (cases l) simp_all

fun geas_value_eq :: "GeasValue \<Rightarrow> GeasValue \<Rightarrow> bool"
  and eq_elems :: "GeasValue list \<Rightarrow> GeasValue list \<Rightarrow> bool" where
  "geas_value_eq (VUnit _) b = (case b of VUnit _ \<Rightarrow> True | _ \<Rightarrow> False)"
| "geas_value_eq (VInt _ x) b = (case b of VInt _ y \<Rightarrow> x = y | _ \<Rightarrow> False)"
| "geas_value_eq (VUInt _ x) b = (case b of VUInt _ y \<Rightarrow> x = y | _ \<Rightarrow> False)"
| "geas_value_eq (VFloat _ x) b = (case b of VFloat _ y \<Rightarrow> f64_eq x y | _ \<Rightarrow> False)"
| "geas_value_eq (VBool _ x) b = (case b of VBool _ y \<Rightarrow> x = y | _ \<Rightarrow> False)"
| "geas_value_eq (VByte _ x) b = (case b of VByte _ y \<Rightarrow> x = y | _ \<Rightarrow> False)"
| "geas_value_eq (VChar _ x) b = (case b of VChar _ y \<Rightarrow> x = y | _ \<Rightarrow> False)"
| "geas_value_eq (VString g s) b = geas_string_eq (VString g s) b"
| "geas_value_eq (VArr k g l) b =
     (case b of
        VArr k' g' l' \<Rightarrow>
          k = k' \<and> g = g' \<and> list_len l = list_len l' \<and> eq_elems (list_elems l) (list_elems l')
      | _ \<Rightarrow> False)"
| "geas_value_eq (VBox k g x) b =
     (case b of
        VBox k' g' y \<Rightarrow>
          k = k' \<and> g = g' \<and>
          (case x of
             None \<Rightarrow> y = None
           | Some p \<Rightarrow> (case y of None \<Rightarrow> False | Some q \<Rightarrow> geas_value_eq p q))
      | _ \<Rightarrow> False)"
| "geas_value_eq (VInstance _ i) b = (case b of VInstance _ j \<Rightarrow> i = j | _ \<Rightarrow> False)"
| "geas_value_eq (VPledgeRef _ _) b = False"
| "geas_value_eq (VOther _ _) b = False"
| "eq_elems [] ys = (ys = [])"
| "eq_elems (x # xs) ys =
     (case ys of [] \<Rightarrow> False | y # ys' \<Rightarrow> geas_value_eq x y \<and> eq_elems xs ys')"

section \<open>The deep copy\<close>

fun geas_value_deep_copy :: "malloc \<Rightarrow> GeasValue \<Rightarrow> heap \<Rightarrow> (GeasStatus + GeasValue) \<times> heap"
  and deep_copy_elems ::
    "malloc \<Rightarrow> GeasValue list \<Rightarrow> heap \<Rightarrow> (GeasStatus + GeasValue list) \<times> heap" where
  "geas_value_deep_copy M (VString g s) h =
     (case geas_string_copy M (str_bytes s) h of
        (v, h') \<Rightarrow> if str_len s \<noteq> 0 \<and> v = VString 0 (SNull 0) then (Inl GEAS_ERR_OOM, h')
                   else (Inr v, h'))"
| "geas_value_deep_copy M (VArr k g l) h =
     (if list_len l = 0 then (Inr (VArr k g (LNull 0 0 (list_elem_ty l))), h)
      else (case geas_bytes M (list_len l * SIZEOF_VALUE) h of
              (False, h') \<Rightarrow> (Inl GEAS_ERR_OOM, h')
            | (True, h') \<Rightarrow>
                (case deep_copy_elems M (list_elems l) h' of
                   (Inl st, h'') \<Rightarrow> (Inl st, h'')
                 | (Inr ys, h'') \<Rightarrow>
                     (Inr (VArr k g (LData ys (list_len l) (list_elem_ty l))), h''))))"
| "geas_value_deep_copy M (VBox k g b) h =
     (case b of
        None \<Rightarrow> (Inr (VBox k g None), h)
      | Some v \<Rightarrow>
          (case geas_box M h of
             (False, h') \<Rightarrow> (Inl GEAS_ERR_OOM, h')
           | (True, h') \<Rightarrow>
               (case geas_value_deep_copy M v h' of
                  (Inl st, h'') \<Rightarrow> (Inl st, h'')
                | (Inr w, h'') \<Rightarrow> (Inr (VBox k g (Some w)), h''))))"
| "geas_value_deep_copy M (VOther t g) h = (Inl GEAS_ERR_TYPE, h)"
| "geas_value_deep_copy M v h = (Inr v, h)"
| "deep_copy_elems M [] h = (Inr [], h)"
| "deep_copy_elems M (x # xs) h =
     (case geas_value_deep_copy M x h of
        (Inl st, h') \<Rightarrow> (Inl st, h')
      | (Inr y, h') \<Rightarrow>
          (case deep_copy_elems M xs h' of
             (Inl st, h'') \<Rightarrow> (Inl st, h'')
           | (Inr ys, h'') \<Rightarrow> (Inr (y # ys), h'')))"

section \<open>Maps\<close>

definition geas_map_new :: "u32 \<Rightarrow> GeasValue" where
  "geas_map_new key_ty = VArr KMap 0 (LNull 0 0 key_ty)"

text \<open>The scan of \<^verbatim>\<open>map_find\<close> from slot \<open>i\<close>: the slot of the value, \<open>None\<close> for \<^verbatim>\<open>-1\<close>.\<close>

fun map_find_from :: "nat \<Rightarrow> GeasValue list \<Rightarrow> GeasValue \<Rightarrow> nat option" where
  "map_find_from i (x # y # es) k =
     (if geas_value_eq x k then Some (i + 1) else map_find_from (i + 2) es k)"
| "map_find_from i es k = None"

definition map_find :: "GeasValue GeasList \<Rightarrow> GeasValue \<Rightarrow> nat option" where
  "map_find l k = map_find_from 0 (list_elems l) k"

definition geas_map_set ::
    "malloc \<Rightarrow> GeasValue \<Rightarrow> GeasValue \<Rightarrow> GeasValue \<Rightarrow> heap \<Rightarrow> (GeasStatus + GeasValue) \<times> heap"
where
  "geas_map_set M m k v h =
     (case m of
        VArr KMap g l \<Rightarrow>
          if gv_ty k \<noteq> list_elem_ty l then (Inl GEAS_ERR_TYPE, h)
          else (case geas_value_deep_copy M v h of
              (Inl st, h1) \<Rightarrow> (Inl st, h1)
            | (Inr vc, h1) \<Rightarrow>
              (case map_find l k of
                 Some hit \<Rightarrow>
                   (Inr (VArr KMap g (LData ((list_elems l)[hit := vc])
                           (list_cap l) (list_elem_ty l))), h1)
               | None \<Rightarrow>
                 (case geas_value_deep_copy M k h1 of
                    (Inl st, h2) \<Rightarrow> (Inl st, h2)
                  | (Inr kc, h2) \<Rightarrow>
                    if list_cap l < list_len l + 2 then
                      (let cap = (if list_cap l \<noteq> 0 then list_cap l * 2 else 8)
                       in case geas_bytes M (cap * SIZEOF_VALUE) h2 of
                            (False, h3) \<Rightarrow> (Inl GEAS_ERR_OOM, h3)
                          | (True, h3) \<Rightarrow>
                            (Inr (VArr KMap g (LData (list_elems l @ [kc, vc])
                                    cap (list_elem_ty l))), h3))
                    else (Inr (VArr KMap g (LData (list_elems l @ [kc, vc])
                                  (list_cap l) (list_elem_ty l))), h2))))
      | _ \<Rightarrow> (Inl GEAS_ERR_TYPE, h))"

definition geas_map_get :: "GeasValue \<Rightarrow> GeasValue \<Rightarrow> GeasValue option" where
  "geas_map_get m k =
     (case m of
        VArr KMap g l \<Rightarrow>
          if gv_ty k \<noteq> list_elem_ty l then None
          else (case map_find l k of None \<Rightarrow> None | Some hit \<Rightarrow> Some (list_elems l ! hit))
      | _ \<Rightarrow> None)"

section \<open>Well-formed values\<close>

text \<open>The invariant every value the runtime builds satisfies: no NULL pointer behind a nonzero
  length, every array small enough for its byte size to be a \<^verbatim>\<open>size_t\<close>, live elements within the
  capacity, and an unnamed type word only past the enumeration.\<close>

fun wf_value :: "GeasValue \<Rightarrow> bool" where
  "wf_value (VString g s) =
     (case s of SNull n \<Rightarrow> n = 0 | SBytes bs \<Rightarrow> length bs < 2 ^ 63)"
| "wf_value (VArr k g l) =
     ((case l of LNull n c e \<Rightarrow> n = 0 \<and> c = 0
       | LData xs c e \<Rightarrow> length xs * 40 < 2 ^ 63 \<and> length xs \<le> unat c) \<and>
      (\<forall>x \<in> set (list_elems l). wf_value x))"
| "wf_value (VBox k g b) = (case b of None \<Rightarrow> True | Some v \<Rightarrow> wf_value v)"
| "wf_value (VOther t g) = (16 < t)"
| "wf_value v = True"

text \<open>What a deep copy of a value looks like: fresh bytes, capacity cut to the length.\<close>

fun norm_value :: "GeasValue \<Rightarrow> GeasValue" where
  "norm_value (VString g s) = VString 0 (SBytes (str_bytes s))"
| "norm_value (VArr k g l) =
     VArr k g (if list_len l = 0 then LNull 0 0 (list_elem_ty l)
               else LData (map norm_value (list_elems l)) (list_len l) (list_elem_ty l))"
| "norm_value (VBox k g b) =
     VBox k g (case b of None \<Rightarrow> None | Some v \<Rightarrow> Some (norm_value v))"
| "norm_value v = v"

text \<open>A value on which structural equality is defined everywhere: no NaN, no pledge reference and
  no unnamed type inside.\<close>

fun comparable :: "GeasValue \<Rightarrow> bool" where
  "comparable (VFloat g w) = (\<not> f64_nan w)"
| "comparable (VArr k g l) = (\<forall>x \<in> set (list_elems l). comparable x)"
| "comparable (VBox k g b) = (case b of None \<Rightarrow> True | Some v \<Rightarrow> comparable v)"
| "comparable (VPledgeRef g p) = False"
| "comparable (VOther t g) = False"
| "comparable v = True"

text \<open>No unnamed type word anywhere: what the deep copy accepts.\<close>

fun copyable :: "GeasValue \<Rightarrow> bool" where
  "copyable (VArr k g l) = (list_len l = 0 \<or> (\<forall>x \<in> set (list_elems l). copyable x))"
| "copyable (VBox k g b) = (case b of None \<Rightarrow> True | Some v \<Rightarrow> copyable v)"
| "copyable (VOther t g) = False"
| "copyable v = True"

end
