(* ===== verification/Geas_Value_Facts.thy ===== *)
theory Geas_Value_Facts
  imports Geas_Values
begin

text \<open>Facts of the value helpers: the deep copy, structural equality, lists and maps.\<close>

section \<open>The heap only grows\<close>

definition heap_grows :: "heap \<Rightarrow> heap \<Rightarrow> bool" where
  "heap_grows h h' \<longleftrightarrow> (\<exists>new. owned h' = new @ owned h) \<and> mcalls h \<le> mcalls h'"

definition alloc_failed :: "malloc \<Rightarrow> heap \<Rightarrow> heap \<Rightarrow> bool" where
  "alloc_failed M h h' \<longleftrightarrow> (\<exists>i. mcalls h \<le> i \<and> i < mcalls h' \<and> \<not> M i)"

lemma heap_grows_refl [simp]: "heap_grows h h"
  by (simp add: heap_grows_def)

lemma heap_grows_trans [trans]: "heap_grows a b \<Longrightarrow> heap_grows b c \<Longrightarrow> heap_grows a c"
  by (auto simp: heap_grows_def)

lemma alloc_failed_mono:
  "alloc_failed M b c \<Longrightarrow> heap_grows a b \<Longrightarrow> heap_grows c d \<Longrightarrow> alloc_failed M a d"
  by (auto simp: alloc_failed_def heap_grows_def intro: order_trans less_le_trans)

lemma alloc_failed_all [simp]: "(\<And>i. M i) \<Longrightarrow> \<not> alloc_failed M h h'"
  by (simp add: alloc_failed_def)

lemma geas_bytes_cases:
  obtains h' where "geas_bytes M n h = (True, h')" "heap_grows h h'" "M (mcalls h)"
  | h' where "geas_bytes M n h = (False, h')" "heap_grows h h'" "alloc_failed M h h'"
  by (cases "M (mcalls h)") (auto simp: geas_bytes_def heap_grows_def alloc_failed_def)

lemma geas_bytes_all [simp]: "M (mcalls h) \<Longrightarrow> \<exists>h'. geas_bytes M n h = (True, h')"
  by (simp add: geas_bytes_def)

lemma geas_bytes_ext: "geas_bytes M n h = (ok, h') \<Longrightarrow> heap_grows h h' \<and> (\<not> ok \<longrightarrow> alloc_failed M h h')"
  by (cases "M (mcalls h)") (auto simp: geas_bytes_def heap_grows_def alloc_failed_def)

section \<open>The deep copy\<close>

definition copy_outcome :: "malloc \<Rightarrow> bool \<Rightarrow> heap \<Rightarrow> (GeasStatus + 'a) \<times> heap \<Rightarrow> bool" where
  "copy_outcome M ok h r \<longleftrightarrow> heap_grows h (snd r) \<and>
     (case fst r of
        Inl st \<Rightarrow> st = GEAS_ERR_OOM \<and> alloc_failed M h (snd r) \<or> st = GEAS_ERR_TYPE \<and> \<not> ok
      | Inr _ \<Rightarrow> ok)"

lemma string_copy_outcome:
  "geas_string_copy M bs h = (v, h') \<Longrightarrow>
     heap_grows h h' \<and> (v = VString 0 (SBytes bs) \<or> v = VString 0 (SNull 0) \<and> alloc_failed M h h')"
  by (cases rule: geas_bytes_cases [of M "of_nat (length bs)" h])
     (auto simp: geas_string_copy_def)

lemma copy_outcome_bind:
  assumes "copy_outcome M ok1 h r" and "r = (x, h1)"
    and "\<And>y. x = Inr y \<Longrightarrow> copy_outcome M ok2 h1 (f y h1)"
  shows "copy_outcome M (ok1 \<and> ok2) h (case x of Inl st \<Rightarrow> (Inl st, h1) | Inr y \<Rightarrow> f y h1)"
  using assms
  by (auto simp: copy_outcome_def split: sum.splits
      intro: heap_grows_trans alloc_failed_mono [OF _ _ heap_grows_refl])

lemma copy_outcome_prefix:
  assumes "heap_grows h h1" and "copy_outcome M ok h1 r"
  shows "copy_outcome M ok h r"
  using assms
  by (auto simp: copy_outcome_def split: sum.splits
      intro: heap_grows_trans alloc_failed_mono [OF _ _ heap_grows_refl])

lemma copy_outcome_map:
  assumes "copy_outcome M ok h r"
  shows "copy_outcome M ok h (case r of (Inl st, h') \<Rightarrow> (Inl st, h') | (Inr y, h') \<Rightarrow> (Inr (g y), h'))"
  using assms by (auto simp: copy_outcome_def split: sum.splits prod.splits)

lemma deep_copy_outcome:
  "copy_outcome M (copyable v) h (geas_value_deep_copy M v h)"
  "copy_outcome M (\<forall>x \<in> set xs. copyable x) h (deep_copy_elems M xs h)"
proof (induction M v h and M xs h rule: geas_value_deep_copy_deep_copy_elems.induct)
  case (1 M g s h)
  then show ?case
    by (auto simp: copy_outcome_def split: prod.splits dest!: string_copy_outcome)
next
  case (2 M k g l h)
  show ?case
  proof (cases rule: geas_bytes_cases [of M "list_len l * SIZEOF_VALUE" h])
    case (1 h1)
    then have "list_len l \<noteq> 0 \<Longrightarrow>
        copy_outcome M (\<forall>x \<in> set (list_elems l). copyable x) h1 (deep_copy_elems M (list_elems l) h1)"
      using 2 by simp
    with 1 show ?thesis
      by (cases "list_len l = 0")
        (simp add: copy_outcome_def, auto intro: copy_outcome_prefix copy_outcome_map)
  next
    case (2 h1)
    then show ?thesis by (auto simp: copy_outcome_def)
  qed
next
  case (3 M k g b h)
  show ?case
  proof (cases b)
    case None
    then show ?thesis by (simp add: copy_outcome_def)
  next
    case (Some v)
    show ?thesis
    proof (cases rule: geas_bytes_cases [of M SIZEOF_VALUE h])
      case (1 h1)
      then have "copy_outcome M (copyable v) h1 (geas_value_deep_copy M v h1)"
        using 3 [OF Some] by (simp add: geas_box_def)
      with 1 Some show ?thesis
        by (auto intro: copy_outcome_prefix copy_outcome_map simp: geas_box_def)
    next
      case (2 h1)
      with Some show ?thesis by (auto simp: copy_outcome_def geas_box_def)
    qed
  qed
next
  case (7 M x xs h)
  obtain r h1 where r: "geas_value_deep_copy M x h = (r, h1)" by fastforce
  have "copy_outcome M (copyable x \<and> (\<forall>y \<in> set xs. copyable y)) h
     (case r of Inl st \<Rightarrow> (Inl st, h1)
      | Inr y \<Rightarrow> (case deep_copy_elems M xs h1 of (Inl st, h') \<Rightarrow> (Inl st, h')
                  | (Inr ys, h') \<Rightarrow> (Inr (y # ys), h')))"
    using 7 r by (intro copy_outcome_bind [OF _ r]) (auto intro: copy_outcome_map)
  with r show ?case by simp
qed (auto simp: copy_outcome_def)

lemma wf_list_elems:
  assumes "wf_value (VArr k g l)"
  shows "list_len l = of_nat (length (list_elems l))" and "length (list_elems l) * 40 < 2 ^ 63"
    and "list_len l = 0 \<longleftrightarrow> list_elems l = []"
proof -
  show 1: "list_len l = of_nat (length (list_elems l))" and 2: "length (list_elems l) * 40 < 2 ^ 63"
    using assms by (cases l; simp)+
  show "list_len l = 0 \<longleftrightarrow> list_elems l = []"
    using 1 2 of_nat64_eq_0_iff [of "length (list_elems l)"] by auto
qed

lemma wf_str_bytes:
  assumes "wf_value (VString g s)"
  shows "str_len s = of_nat (length (str_bytes s))" and "length (str_bytes s) < 2 ^ 63"
    and "str_len s = 0 \<longleftrightarrow> str_bytes s = []"
proof -
  show 1: "str_len s = of_nat (length (str_bytes s))" and 2: "length (str_bytes s) < 2 ^ 63"
    using assms by (cases s; simp)+
  show "str_len s = 0 \<longleftrightarrow> str_bytes s = []"
    using 1 2 of_nat64_eq_0_iff [of "length (str_bytes s)"] by auto
qed

text \<open>The copy has the shape of the source: both normalise to the same value, and the copy is
  well formed.\<close>

lemma deep_copy_same:
  "geas_value_deep_copy M v h = (Inr w, h') \<Longrightarrow> wf_value v \<Longrightarrow>
     norm_value w = norm_value v \<and> wf_value w \<and> gv_ty w = gv_ty v"
  "deep_copy_elems M xs h = (Inr ys, h') \<Longrightarrow> \<forall>x \<in> set xs. wf_value x \<Longrightarrow>
     map norm_value ys = map norm_value xs \<and> length ys = length xs \<and> (\<forall>y \<in> set ys. wf_value y)"
proof (induction M v h and M xs h arbitrary: w h' and ys h'
    rule: geas_value_deep_copy_deep_copy_elems.induct)
  case (1 M g s h)
  then show ?case
    using wf_str_bytes [of g s]
    by (cases s) (auto split: prod.splits if_splits dest!: string_copy_outcome)
next
  case (2 M k g l h)
  note L = wf_list_elems [OF "2.prems"(2)]
  show ?case
  proof (cases "list_len l = 0")
    case True
    with "2.prems" show ?thesis by auto
  next
    case False
    with "2.prems"(1) obtain h1 ys where b: "geas_bytes M (list_len l * SIZEOF_VALUE) h = (True, h1)"
      and ys: "deep_copy_elems M (list_elems l) h1 = (Inr ys, h')"
      and w: "w = VArr k g (LData ys (list_len l) (list_elem_ty l))"
      by (auto split: prod.splits sum.splits bool.splits)
    have IH: "map norm_value ys = map norm_value (list_elems l)" "length ys = length (list_elems l)"
      "\<forall>y \<in> set ys. wf_value y"
      using "2.IH" [OF False b [symmetric] _ ys] "2.prems"(2) by auto
    have "unat (list_len l) = length ys"
      using L IH(2) by (simp add: unat_of_nat64)
    with IH L w False show ?thesis by simp
  qed
next
  case (3 M k g b h)
  then show ?case
    by (auto split: option.splits prod.splits sum.splits bool.splits)
next
  case (7 M x xs h)
  then show ?case by (auto split: prod.splits sum.splits)
qed auto

lemma deep_copy_norm:
  "\<forall>i. M i \<Longrightarrow> wf_value v \<Longrightarrow> copyable v \<Longrightarrow>
     \<exists>h'. geas_value_deep_copy M v h = (Inr (norm_value v), h')"
  "\<forall>i. M i \<Longrightarrow> \<forall>x \<in> set xs. wf_value x \<and> copyable x \<Longrightarrow>
     \<exists>h'. deep_copy_elems M xs h = (Inr (map norm_value xs), h')"
proof (induction M v h and M xs h rule: geas_value_deep_copy_deep_copy_elems.induct)
  case (1 M g s h)
  then show ?case by (simp add: geas_string_copy_def geas_bytes_def)
next
  case (2 M k g l h)
  note L = wf_list_elems [OF "2.prems"(2)]
  show ?case
  proof (cases "list_len l = 0")
    case True
    then show ?thesis by simp
  next
    case False
    obtain h1 where b: "geas_bytes M (list_len l * SIZEOF_VALUE) h = (True, h1)"
      using "2.prems"(1) by (simp add: geas_bytes_def)
    have "\<forall>x \<in> set (list_elems l). wf_value x \<and> copyable x"
      using "2.prems" False by auto
    then obtain h' where "deep_copy_elems M (list_elems l) h1 = (Inr (map norm_value (list_elems l)), h')"
      using "2.IH" [OF False b [symmetric]] "2.prems"(1) by blast
    with b False show ?thesis by simp
  qed
next
  case (3 M k g b h)
  show ?case
  proof (cases b)
    case None
    then show ?thesis by simp
  next
    case (Some v)
    obtain h1 where b: "geas_box M h = (True, h1)"
      using "3.prems"(1) by (simp add: geas_box_def geas_bytes_def)
    then obtain h' where "geas_value_deep_copy M v h1 = (Inr (norm_value v), h')"
      using "3.IH" [OF Some b [symmetric]] "3.prems" Some by (metis copyable.simps(2) option.simps(5) wf_value.simps(3))
    with b Some show ?thesis by simp
  qed
next
  case (7 M x xs h)
  then obtain h1 where h1: "geas_value_deep_copy M x h = (Inr (norm_value x), h1)"
    by fastforce
  with 7 obtain h2 where "deep_copy_elems M xs h1 = (Inr (map norm_value xs), h2)"
    by fastforce
  with h1 show ?case by simp
qed simp_all

section \<open>Structural equality\<close>

lemma f64_eq_sym: "f64_eq a b = f64_eq b a"
  by (auto simp: f64_eq_def)

lemma f64_eq_refl: "\<not> f64_nan a \<Longrightarrow> f64_eq a a"
  by (simp add: f64_eq_def)

lemma f64_eq_trans: "f64_eq a b \<Longrightarrow> f64_eq b c \<Longrightarrow> f64_eq a c"
  by (auto simp: f64_eq_def)

lemma string_eq_sym: "geas_string_eq a b = geas_string_eq b a"
  by (cases a; cases b) (auto simp: geas_string_eq_def)

lemma value_eq_unsupported [simp]:
  "\<not> geas_value_eq a (VPledgeRef g p)" "\<not> geas_value_eq a (VOther t g)"
  by (cases a; simp add: geas_string_eq_def)+

lemma eq_elems_Nil_right [simp]: "eq_elems xs [] = (xs = [])"
  by (cases xs) simp_all

lemma string_eq_iff:
  assumes "wf_value (VString g s)" and "wf_value (VString g' t)"
  shows "geas_string_eq (VString g s) (VString g' t) \<longleftrightarrow> str_bytes s = str_bytes t"
  using wf_str_bytes [OF assms(1)] wf_str_bytes [OF assms(2)]
  by (auto simp: geas_string_eq_def)

lemma value_eq_sym:
  "geas_value_eq a b = geas_value_eq b a"
  "eq_elems xs ys = eq_elems ys xs"
proof (induction a b and xs ys rule: geas_value_eq_eq_elems.induct)
  case (8 g s b)
  then show ?case
    by (cases b) (auto simp: geas_string_eq_def)
next
  case (9 k g l b)
  then show ?case by (cases b) (auto simp: geas_string_eq_def)
next
  case (10 k g x b)
  then show ?case by (cases b; cases x) (auto simp: geas_string_eq_def split: option.splits)
next
  case (15 x xs ys)
  then show ?case by (cases ys) auto
qed (auto simp: f64_eq_sym geas_string_eq_def split: GeasValue.splits list.splits)

lemma value_eq_refl:
  "comparable v \<Longrightarrow> geas_value_eq v v"
proof (induction v rule: comparable.induct)
  case (2 k g l)
  have "(\<forall>x \<in> set xs. geas_value_eq x x) \<Longrightarrow> eq_elems xs xs" for xs
    by (induction xs) auto
  with 2 show ?case by auto
qed (auto simp: f64_eq_refl geas_string_eq_def split: option.splits)

lemma value_eq_trans:
  "geas_value_eq a b \<Longrightarrow> geas_value_eq b c \<Longrightarrow> geas_value_eq a c"
  "eq_elems xs ys \<Longrightarrow> eq_elems ys zs \<Longrightarrow> eq_elems xs zs"
proof (induction a b and xs ys arbitrary: c and zs rule: geas_value_eq_eq_elems.induct)
  case (8 g s b)
  then obtain g' t where b: "b = VString g' t"
    by (cases b) (auto simp: geas_string_eq_def)
  with 8 obtain g'' u where "c = VString g'' u"
    by (cases c) (auto simp: geas_string_eq_def)
  with 8 b show ?case by (auto simp: geas_string_eq_def split: if_splits)
next
  case (9 k g l b)
  then obtain l' where b: "b = VArr k g l'" by (cases b) auto
  with 9 obtain l'' where c: "c = VArr k g l''" by (cases c) auto
  from "9.prems" b c have "eq_elems (list_elems l) (list_elems l')"
    and "eq_elems (list_elems l') (list_elems l'')" by simp_all
  then have "eq_elems (list_elems l) (list_elems l'')" by (rule "9.IH" [OF b])
  with "9.prems" b c show ?case by simp
next
  case (10 k g x b)
  then obtain y where b: "b = VBox k g y" by (cases b) auto
  with 10 obtain z where c: "c = VBox k g z" by (cases c) auto
  show ?case
  proof (cases x)
    case None
    with "10.prems" b c show ?thesis by simp
  next
    case (Some p)
    with "10.prems"(1) b obtain q where y: "y = Some q" and pq: "geas_value_eq p q"
      by (cases y) auto
    with "10.prems"(2) b c obtain r where z: "z = Some r" and qr: "geas_value_eq q r"
      by (cases z) auto
    have "geas_value_eq p r" by (rule "10.IH" [OF b Some y pq qr])
    with b c Some y z "10.prems" show ?thesis by simp
  qed
next
  case (15 x xs ys)
  then show ?case by (cases ys; cases zs) auto
qed (auto dest: f64_eq_trans split: GeasValue.split_asm list.split_asm)

text \<open>Equality does not see what the deep copy changes.\<close>

lemma value_eq_norm_left:
  "wf_value v \<Longrightarrow> geas_value_eq (norm_value v) x = geas_value_eq v x"
proof (induction v arbitrary: x rule: norm_value.induct)
  case (1 g s)
  then show ?case
    using wf_str_bytes [OF 1]
    by (cases x) (auto simp: geas_string_eq_def)
next
  case (2 k g l)
  have *: "(\<And>x y. x \<in> set xs \<Longrightarrow> geas_value_eq (norm_value x) y = geas_value_eq x y) \<Longrightarrow>
      eq_elems (map norm_value xs) ys = eq_elems xs ys" for xs ys
    by (induction xs arbitrary: ys) (auto split: list.splits)
  from wf_list_elems [OF "2.prems"] have "list_len l = 0 \<longleftrightarrow> list_elems l = []" by simp
  moreover have "list_len l = of_nat (length (list_elems l))"
    by (rule wf_list_elems [OF "2.prems"])
  moreover have "list_len l \<noteq> 0 \<Longrightarrow> eq_elems (map norm_value (list_elems l)) ys = eq_elems (list_elems l) ys" for ys
    using 2 by (intro *) auto
  ultimately show ?case by (cases x) auto
next
  case (3 k g b)
  then show ?case by (cases b; cases x) (auto split: option.splits)
qed simp_all

end
