(* ===== verification/Geas_Maps.thy ===== *)
theory Geas_Maps
  imports Geas_Value_Facts
begin

text \<open>
  Lists and maps as containers: the growable list against a plain list, and the insertion ordered
  map of \<^verbatim>\<open>geas_map_set\<close>/\<^verbatim>\<open>geas_map_get\<close> against an association list keyed by structural
  equality.  The contract a client of a map relies on is the locale \<open>dictionary\<close>; the interleaved
  key/value array of the runtime is its instance.
\<close>

section \<open>Lists\<close>

lemma list_push_inv:
  assumes "geas_list_push M v e h = (Inr v', h')"
  obtains g l c where "v = VArr KList g l" and "gv_ty e = list_elem_ty l"
    and "v' = VArr KList g (LData (list_elems l @ [e]) c (list_elem_ty l))"
    and "list_len l \<noteq> list_cap l \<Longrightarrow> c = list_cap l \<and> h' = h"
    and "list_len l = list_cap l \<Longrightarrow> c = (if list_cap l \<noteq> 0 then list_cap l * 2 else 4)"
  using assms
  by (auto simp: geas_list_push_def Let_def
      split: GeasValue.splits ArrKind.splits if_splits prod.splits bool.splits)

lemma list_push_wf:
  assumes "geas_list_push M (VArr KList g l) e h = (Inr v', h')"
    and "wf_value (VArr KList g l)" and "wf_value e" and "(length (list_elems l) + 1) * 40 < 2 ^ 63"
  shows "wf_value v'"
proof -
  obtain c where v': "v' = VArr KList g (LData (list_elems l @ [e]) c (list_elem_ty l))"
    and same: "list_len l \<noteq> list_cap l \<Longrightarrow> c = list_cap l"
    and grow: "list_len l = list_cap l \<Longrightarrow> c = (if list_cap l \<noteq> 0 then list_cap l * 2 else 4)"
    using assms(1) by (auto elim!: list_push_inv)
  note L = wf_list_elems [OF assms(2)]
  have le: "unat (list_len l) = length (list_elems l)"
    using L(1,2) by (simp add: unat_of_nat64)
  have cap: "length (list_elems l) \<le> unat (list_cap l)"
    using assms(2) by (cases l) auto
  have "Suc (length (list_elems l)) \<le> unat c"
  proof (cases "list_len l = list_cap l")
    case True
    have "unat (list_cap l * 2) = unat (list_cap l) * 2"
      using True le assms(4) by (simp add: unat_word_ariths)
    moreover have "list_cap l \<noteq> 0 \<Longrightarrow> 0 < unat (list_cap l)"
      by (simp add: unat_gt_0)
    ultimately show ?thesis using True grow le by (cases "list_cap l = 0") (auto simp: Suc_le_eq)
  next
    case False
    with cap le have "length (list_elems l) < unat (list_cap l)"
      by (metis le_neq_implies_less word_unat_eq_iff)
    with False same show ?thesis by simp
  qed
  with v' assms(2,3,4) show ?thesis by auto
qed

lemma list_get_push:
  assumes "geas_list_push M (VArr KList g l) e h = (Inr v', h')"
    and "wf_value (VArr KList g l)" and "(length (list_elems l) + 1) * 40 < 2 ^ 63"
  shows "geas_list_get v' i =
    (if i = list_len l then Some e else geas_list_get (VArr KList g l) i)"
proof -
  obtain c where v': "v' = VArr KList g (LData (list_elems l @ [e]) c (list_elem_ty l))"
    using assms(1) by (auto elim!: list_push_inv)
  note L = wf_list_elems [OF assms(2)]
  have le: "unat (list_len l) = length (list_elems l)"
    using L(1,2) by (simp add: unat_of_nat64)
  have len': "unat (of_nat (Suc (length (list_elems l))) :: u64) = Suc (length (list_elems l))"
    using assms(3) by (intro unat_of_nat64) simp
  then show ?thesis
    using v' le
    by (auto simp: geas_list_get_def nth_append word_le_nat_alt word_unat_eq_iff simp del: of_nat_Suc)
qed

section \<open>Maps as association lists\<close>

fun pairs :: "'a list \<Rightarrow> ('a \<times> 'a) list" where
  "pairs (x # y # es) = (x, y) # pairs es"
| "pairs es = []"

fun assoc_get :: "(GeasValue \<times> GeasValue) list \<Rightarrow> GeasValue \<Rightarrow> GeasValue option" where
  "assoc_get [] k = None"
| "assoc_get ((x, y) # ps) k = (if geas_value_eq x k then Some y else assoc_get ps k)"

fun assoc_put ::
    "GeasValue \<Rightarrow> GeasValue \<Rightarrow> GeasValue \<Rightarrow> (GeasValue \<times> GeasValue) list \<Rightarrow> (GeasValue \<times> GeasValue) list"
where
  "assoc_put k kc v [] = [(kc, v)]"
| "assoc_put k kc v ((x, y) # ps) =
     (if geas_value_eq x k then (x, v) # ps else (x, y) # assoc_put k kc v ps)"

lemma map_find_shift: "map_find_from (Suc i) es k = map_option Suc (map_find_from i es k)"
  by (induction i es k rule: map_find_from.induct) auto

lemma map_find_shift2: "map_find_from (i + 2) es k = map_option (\<lambda>j. j + 2) (map_find_from i es k)"
  by (simp add: map_find_shift option.map_comp comp_def)

lemma map_find_Some:
  "map_find_from 0 es k = Some j \<Longrightarrow>
     j < length es \<and> assoc_get (pairs es) k = Some (es ! j) \<and>
     pairs (es[j := v]) = assoc_put k kc v (pairs es)"
proof (induction es arbitrary: j rule: pairs.induct)
  case (1 x y es)
  show ?case
  proof (cases "geas_value_eq x k")
    case True
    with 1 show ?thesis by auto
  next
    case False
    with "1.prems" obtain j' where "map_find_from 0 es k = Some j'" and "j = Suc (Suc j')"
      using map_find_shift2 [of 0 es k] by (auto dest!: sym [of "Some j"])
    with "1.IH" False show ?thesis by auto
  qed
qed simp_all

lemma map_find_None:
  "map_find_from 0 es k = None \<Longrightarrow> even (length es) \<Longrightarrow>
     assoc_get (pairs es) k = None \<and> pairs (es @ [kc, v]) = assoc_put k kc v (pairs es)"
proof (induction es rule: pairs.induct)
  case (1 x y es)
  then show ?case
    using map_find_shift2 [of 0 es k] by (auto split: if_splits)
qed simp_all

lemma length_pairs: "length (pairs es) = length es div 2"
  by (induction es rule: pairs.induct) auto

text \<open>The laws of the association list: what is read after a write.\<close>

lemma value_eq_cong_right: "geas_value_eq k k' \<Longrightarrow> geas_value_eq a k = geas_value_eq a k'"
  by (metis value_eq_sym(1) value_eq_trans(1))

lemma assoc_get_put_same:
  assumes "geas_value_eq kc k" and "geas_value_eq k k'"
  shows "assoc_get (assoc_put k kc v ps) k' = Some v"
  using assms(1) value_eq_cong_right [OF assms(2)]
  by (induction ps) auto

lemma assoc_get_put_other:
  assumes "geas_value_eq kc k" and "\<not> geas_value_eq k k'"
  shows "assoc_get (assoc_put k kc v ps) k' = assoc_get ps k'"
  using assms
proof (induction ps)
  case Nil
  then show ?case
    by simp (metis value_eq_sym(1) value_eq_trans(1))
next
  case (Cons p ps)
  then show ?case
    by (cases p) (auto, metis value_eq_sym(1) value_eq_trans(1))
qed

definition distinct_keys :: "(GeasValue \<times> GeasValue) list \<Rightarrow> bool" where
  "distinct_keys ps = sorted_wrt (\<lambda>p q. \<not> geas_value_eq (fst p) (fst q)) ps"

lemma assoc_put_keys:
  assumes "geas_value_eq kc k"
  shows "set (map fst (assoc_put k kc v ps)) \<subseteq> insert kc (set (map fst ps))"
    and "distinct_keys ps \<Longrightarrow> distinct_keys (assoc_put k kc v ps)"
proof -
  show keys: "set (map fst (assoc_put k kc v ps)) \<subseteq> insert kc (set (map fst ps))" for ps
    by (induction ps) (force split: if_splits)+
  show "distinct_keys ps \<Longrightarrow> distinct_keys (assoc_put k kc v ps)"
  proof (induction ps)
    case Nil
    then show ?case by (simp add: distinct_keys_def)
  next
    case (Cons p ps)
    obtain x y where p: "p = (x, y)" by fastforce
    have "\<not> geas_value_eq x k \<Longrightarrow> \<not> geas_value_eq x kc"
      using assms by (metis value_eq_trans(1))
    with Cons p keys [of ps] show ?case
      by (fastforce simp: distinct_keys_def)
  qed
qed

section \<open>The runtime's map refines the association list\<close>

fun map_pairs :: "GeasValue \<Rightarrow> (GeasValue \<times> GeasValue) list" where
  "map_pairs (VArr KMap g l) = pairs (list_elems l)"
| "map_pairs v = []"

fun map_ok :: "GeasValue \<Rightarrow> bool" where
  "map_ok (VArr KMap g l) =
     (even (length (list_elems l)) \<and> distinct_keys (pairs (list_elems l)))"
| "map_ok v = False"

fun map_key_ty :: "GeasValue \<Rightarrow> u32" where
  "map_key_ty (VArr k g l) = list_elem_ty l"
| "map_key_ty v = 0"

lemma map_ok_cases:
  assumes "map_ok m"
  obtains g l where "m = VArr KMap g l" "even (length (list_elems l))"
    "distinct_keys (pairs (list_elems l))"
  using assms by (cases m rule: map_ok.cases) auto

lemma map_get_refines:
  assumes "map_ok m" and "gv_ty k = map_key_ty m"
  shows "geas_map_get m k = assoc_get (map_pairs m) k"
proof -
  obtain g l where m: "m = VArr KMap g l" and ev: "even (length (list_elems l))"
    using assms(1) by (rule map_ok_cases)
  show ?thesis
  proof (cases "map_find_from 0 (list_elems l) k")
    case None
    with m ev assms(2) show ?thesis
      by (simp add: geas_map_get_def map_find_def map_find_None)
  next
    case (Some j)
    with m assms(2) show ?thesis
      by (simp add: geas_map_get_def map_find_def map_find_Some)
  qed
qed

text \<open>Whatever the allocator does, a write that succeeds is the association list update with the
  copies of the key and the value, and a write that fails is reported.\<close>

lemma map_set_refines:
  assumes ok: "map_ok m" and res: "geas_map_set M m k v h = (Inr m', h')"
    and wf: "wf_value k" "wf_value v"
  shows "\<exists>kc vc. norm_value kc = norm_value k \<and> wf_value kc \<and> norm_value vc = norm_value v \<and>
           wf_value vc \<and> map_pairs m' = assoc_put k kc vc (map_pairs m) \<and>
           map_key_ty m' = map_key_ty m \<and> even (length (list_elems (case m' of VArr _ _ l \<Rightarrow> l)))
           \<and> (\<exists>g l. m' = VArr KMap g l)"
proof -
  obtain g l where m: "m = VArr KMap g l" and ev: "even (length (list_elems l))"
    using ok by (rule map_ok_cases)
  from res m obtain vc h1 where vc: "geas_value_deep_copy M v h = (Inr vc, h1)"
    by (auto simp: geas_map_set_def split: if_splits prod.splits sum.splits)
  note VC = deep_copy_same(1) [OF vc wf(2)]
  show ?thesis
  proof (cases "map_find_from 0 (list_elems l) k")
    case (Some j)
    with res m vc have m': "m' = VArr KMap g (LData ((list_elems l)[j := vc]) (list_cap l) (list_elem_ty l))"
      by (auto simp: geas_map_set_def map_find_def split: if_splits)
    show ?thesis
      using VC wf(1) m m' ev map_find_Some [OF Some, of vc k] by (intro exI [of _ k] exI [of _ vc]) auto
  next
    case None
    with res m vc obtain kc h2 c where kc: "geas_value_deep_copy M k h1 = (Inr kc, h2)"
      and m': "m' = VArr KMap g (LData (list_elems l @ [kc, vc]) c (list_elem_ty l))"
      by (auto simp: geas_map_set_def map_find_def Let_def
          split: if_splits prod.splits sum.splits bool.splits)
    note KC = deep_copy_same(1) [OF kc wf(1)]
    show ?thesis
      using VC KC m m' ev map_find_None [OF None ev, of kc vc]
      by (intro exI [of _ kc] exI [of _ vc]) auto
  qed
qed

lemma norm_eq_value_eq:
  assumes "norm_value a = norm_value b" and "wf_value a" "wf_value b" and "comparable b"
  shows "geas_value_eq a b"
  using assms value_eq_norm_left value_eq_refl by metis

lemma map_set_ok:
  assumes "map_ok m" and "geas_map_set M m k v h = (Inr m', h')"
    and "wf_value k" "wf_value v" "comparable k"
  shows "map_ok m'" and "map_key_ty m' = map_key_ty m"
proof -
  obtain kc vc g l where "norm_value kc = norm_value k" "wf_value kc"
    "map_pairs m' = assoc_put k kc vc (map_pairs m)" and kt: "map_key_ty m' = map_key_ty m"
    and m': "m' = VArr KMap g l" and "even (length (list_elems l))"
    using map_set_refines [OF assms(1,2,3,4)] by auto
  moreover from calculation have "geas_value_eq kc k"
    using norm_eq_value_eq assms(3,5) by blast
  moreover have "distinct_keys (map_pairs m)"
    using assms(1) by (rule map_ok_cases) simp
  ultimately show "map_ok m'" and "map_key_ty m' = map_key_ty m"
    using assoc_put_keys(2) [of kc k "map_pairs m" vc] by (simp_all add: kt)
qed

section \<open>The interface a client of a map sees\<close>

locale dictionary =
  fixes get :: "'m \<Rightarrow> 'k \<Rightarrow> 'v option"
    and put :: "'m \<Rightarrow> 'k \<Rightarrow> 'v \<Rightarrow> 'm"
    and invar :: "'m \<Rightarrow> bool"
    and key_ok :: "'m \<Rightarrow> 'k \<Rightarrow> bool"
    and val_ok :: "'v \<Rightarrow> bool"
    and same :: "'k \<Rightarrow> 'k \<Rightarrow> bool"
    and image :: "'v \<Rightarrow> 'v"
  assumes get_put_same: "\<lbrakk>invar m; key_ok m k; key_ok m k'; val_ok v; same k k'\<rbrakk> \<Longrightarrow>
      get (put m k v) k' = Some (image v)"
    and get_put_other: "\<lbrakk>invar m; key_ok m k; key_ok m k'; val_ok v; \<not> same k k'\<rbrakk> \<Longrightarrow>
      get (put m k v) k' = get m k'"
    and invar_put: "\<lbrakk>invar m; key_ok m k; val_ok v\<rbrakk> \<Longrightarrow> invar (put m k v)"
    and key_ok_put: "\<lbrakk>invar m; key_ok m k; val_ok v\<rbrakk> \<Longrightarrow> key_ok (put m k v) k' = key_ok m k'"
begin

lemma last_write_wins:
  assumes "invar m" "key_ok m k" "val_ok v" "val_ok w" "same k k"
  shows "get (put (put m k v) k w) k = Some (image w)"
  using assms by (simp add: get_put_same invar_put key_ok_put)

lemma writes_elsewhere_keep:
  assumes "invar m" and "key_ok m k"
    and "\<forall>(k', v) \<in> set kvs. key_ok m k' \<and> val_ok v \<and> \<not> same k' k"
  shows "get (foldl (\<lambda>m (k', v). put m k' v) m kvs) k = get m k"
  using assms
proof (induction kvs arbitrary: m)
  case Nil
  then show ?case by simp
next
  case (Cons p kvs)
  obtain k' v where p: "p = (k', v)" by fastforce
  with Cons.prems have ok: "key_ok m k'" "val_ok v" "\<not> same k' k" by auto
  have "get (foldl (\<lambda>m (k', v). put m k' v) (put m k' v) kvs) k = get (put m k' v) k"
    using Cons.prems ok by (intro Cons.IH) (auto simp: invar_put key_ok_put)
  with p Cons.prems ok show ?case by (simp add: get_put_other)
qed

end

text \<open>A write under an allocator that does not fail.\<close>

definition map_put :: "GeasValue \<Rightarrow> GeasValue \<Rightarrow> GeasValue \<Rightarrow> GeasValue" where
  "map_put m k v =
     (case geas_map_set (\<lambda>_. True) m k v \<lparr>owned = [], mcalls = 0\<rparr> of
        (Inr m', _) \<Rightarrow> m' | (Inl _, _) \<Rightarrow> m)"

definition map_key_ok :: "GeasValue \<Rightarrow> GeasValue \<Rightarrow> bool" where
  "map_key_ok m k \<longleftrightarrow> gv_ty k = map_key_ty m \<and> wf_value k \<and> comparable k \<and> copyable k"

definition map_val_ok :: "GeasValue \<Rightarrow> bool" where
  "map_val_ok v \<longleftrightarrow> wf_value v \<and> copyable v"

lemma map_set_succeeds:
  assumes "map_ok m" "map_key_ok m k" "map_val_ok v" and "\<forall>i. M i"
  shows "\<exists>m' h'. geas_map_set M m k v h = (Inr m', h') \<and>
           map_pairs m' = assoc_put k (norm_value k) (norm_value v) (map_pairs m)"
proof -
  obtain g l where m: "m = VArr KMap g l" and ev: "even (length (list_elems l))"
    using assms(1) by (rule map_ok_cases)
  obtain h1 where v: "geas_value_deep_copy M v h = (Inr (norm_value v), h1)"
    using deep_copy_norm(1) assms(3,4) unfolding map_val_ok_def by blast
  obtain h2 where k: "geas_value_deep_copy M k h1 = (Inr (norm_value k), h2)"
    using deep_copy_norm(1) assms(2,4) unfolding map_key_ok_def by blast
  have ty: "gv_ty k = list_elem_ty l" using assms(2) m by (simp add: map_key_ok_def)
  show ?thesis
  proof (cases "map_find_from 0 (list_elems l) k")
    case (Some j)
    with m v ty show ?thesis
      by (simp add: geas_map_set_def map_find_def map_find_Some [where kc = "norm_value k"])
  next
    case None
    with m v k ty assms(4) map_find_None [OF None ev, of "norm_value k" "norm_value v"]
    show ?thesis by (simp add: geas_map_set_def map_find_def Let_def geas_bytes_def)
  qed
qed

lemma map_put_pairs:
  assumes "map_ok m" "map_key_ok m k" "map_val_ok v"
  shows "map_pairs (map_put m k v) = assoc_put k (norm_value k) (norm_value v) (map_pairs m)"
    and "map_ok (map_put m k v)" and "map_key_ty (map_put m k v) = map_key_ty m"
proof -
  obtain m' h' where set: "geas_map_set (\<lambda>_. True) m k v \<lparr>owned = [], mcalls = 0\<rparr> = (Inr m', h')"
    and ps: "map_pairs m' = assoc_put k (norm_value k) (norm_value v) (map_pairs m)"
    using map_set_succeeds [OF assms, of "\<lambda>_. True"] by blast
  from set have m': "map_put m k v = m'" by (simp add: map_put_def)
  with ps show "map_pairs (map_put m k v) = assoc_put k (norm_value k) (norm_value v) (map_pairs m)"
    by simp
  show "map_ok (map_put m k v)" and "map_key_ty (map_put m k v) = map_key_ty m"
    using map_set_ok [OF assms(1) set] assms(2,3) m' by (auto simp: map_key_ok_def map_val_ok_def)
qed

interpretation gm: dictionary geas_map_get map_put map_ok map_key_ok map_val_ok geas_value_eq norm_value
proof (unfold_locales, goal_cases)
  case (1 m k k' v)
  have "geas_value_eq (norm_value k) k"
    using 1(2) by (simp add: map_key_ok_def value_eq_norm_left value_eq_refl)
  with 1 show ?case
    by (simp add: map_get_refines map_put_pairs map_key_ok_def assoc_get_put_same
        map_put_pairs [unfolded map_key_ok_def])
next
  case (2 m k k' v)
  have "geas_value_eq (norm_value k) k"
    using 2(2) by (simp add: map_key_ok_def value_eq_norm_left value_eq_refl)
  with 2 show ?case
    by (simp add: map_get_refines map_key_ok_def assoc_get_put_other
        map_put_pairs [unfolded map_key_ok_def])
next
  case (3 m k v)
  then show ?case by (rule map_put_pairs)
next
  case (4 m k v k')
  then show ?case by (simp add: map_key_ok_def map_put_pairs(3) [unfolded map_key_ok_def])
qed

end
