(* ===== verification/Geas_Wire.thy ===== *)
theory Geas_Wire
  imports Geas_Maps
begin

text \<open>
  The canonical wire codec of \<^verbatim>\<open>runtime/src/wire.c\<close>: little endian primitives, the frame header,
  the sizing and the write pass of the encoder, and the decoder with its cursor.  Byte buffers are
  lists, the cursor \<^verbatim>\<open>WireCur\<close> is the list of bytes that remain.
\<close>

section \<open>Little endian primitives\<close>

definition put_u32 :: "u32 \<Rightarrow> bytes" where
  "put_u32 v = [ucast v, ucast (drop_bit 8 v), ucast (drop_bit 16 v), ucast (drop_bit 24 v)]"

definition put_u64 :: "u64 \<Rightarrow> bytes" where
  "put_u64 v = put_u32 (ucast v) @ put_u32 (ucast (drop_bit 32 v))"

definition get_u32 :: "bytes \<Rightarrow> u32" where
  "get_u32 p = ucast (p ! 0) OR push_bit 8 (ucast (p ! 1)) OR push_bit 16 (ucast (p ! 2)) OR
               push_bit 24 (ucast (p ! 3))"

definition get_u64 :: "bytes \<Rightarrow> u64" where
  "get_u64 p = ucast (get_u32 p) OR push_bit 32 (ucast (get_u32 (drop 4 p)))"

section \<open>The frame header\<close>

definition GEAS_WIRE_MAGIC :: bytes where
  "GEAS_WIRE_MAGIC = [0x41, 0x53, 0x48, 0x57]"

definition GEAS_WIRE_MAX_PAYLOAD :: u32 where
  "GEAS_WIRE_MAX_PAYLOAD = 64 * 1024 * 1024"

definition GEAS_WIRE_MAX_DEPTH :: nat where
  "GEAS_WIRE_MAX_DEPTH = 64"

text \<open>\<^verbatim>\<open>GeasWireKind\<close>: the first and the last of the thirteen message kinds.\<close>

definition GEAS_WIRE_HELLO :: u32 where
  "GEAS_WIRE_HELLO = 1"

definition GEAS_WIRE_ERROR :: u32 where
  "GEAS_WIRE_ERROR = 13"

record GeasWireFrame =
  wf_kind :: u32
  wf_request_id :: u64
  wf_payload_len :: u32

definition geas_wire_frame_write :: "u32 \<Rightarrow> u64 \<Rightarrow> u32 \<Rightarrow> GeasStatus + bytes" where
  "geas_wire_frame_write kind request_id payload_len =
     (if kind < GEAS_WIRE_HELLO \<or> GEAS_WIRE_ERROR < kind then Inl GEAS_ERR_TYPE
      else if GEAS_WIRE_MAX_PAYLOAD < payload_len then Inl GEAS_ERR_OOM
      else Inr (GEAS_WIRE_MAGIC @ put_u32 kind @ put_u64 request_id @ put_u32 payload_len))"

definition geas_wire_frame_read :: "bytes \<Rightarrow> GeasStatus + GeasWireFrame" where
  "geas_wire_frame_read inp =
     (if take 4 inp \<noteq> GEAS_WIRE_MAGIC then Inl GEAS_ERR_TYPE
      else let kind = get_u32 (drop 4 inp) in
        if kind < GEAS_WIRE_HELLO \<or> GEAS_WIRE_ERROR < kind then Inl GEAS_ERR_TYPE
        else let payload_len = get_u32 (drop 16 inp) in
          if GEAS_WIRE_MAX_PAYLOAD < payload_len then Inl GEAS_ERR_OOM
          else Inr \<lparr>wf_kind = kind, wf_request_id = get_u64 (drop 8 inp),
                    wf_payload_len = payload_len\<rparr>)"

section \<open>Tag rules\<close>

definition tag_crosses :: "u32 \<Rightarrow> bool" where
  "tag_crosses ty = (ty \<le> ty_num GEAS_TY_SUM \<and> ty \<noteq> ty_num GEAS_TY_PLEDGE_REF)"

definition tag_keyable :: "u32 \<Rightarrow> bool" where
  "tag_keyable ty =
     (case ty_cast ty of
        Some t \<Rightarrow> t \<in> {GEAS_TY_INT, GEAS_TY_UINT, GEAS_TY_BOOL, GEAS_TY_BYTE, GEAS_TY_CHAR,
                       GEAS_TY_STRING}
      | None \<Rightarrow> False)"

section \<open>Encoding: the sizing pass\<close>

definition size_add :: "u64 \<Rightarrow> u64 \<Rightarrow> GeasStatus + u64" where
  "size_add tot n = (if - 1 - tot < n then Inl GEAS_ERR_OOM else Inr (tot + n))"

text \<open>The depth check and the eight byte header every value starts with.\<close>

definition size_hdr :: "nat \<Rightarrow> u64 \<Rightarrow> GeasStatus + u64" where
  "size_hdr depth tot =
     (if GEAS_WIRE_MAX_DEPTH < depth then Inl GEAS_ERR_TYPE else size_add tot 8)"

definition scalar_char :: "u32 \<Rightarrow> bool" where
  "scalar_char ch = (ch \<le> 0x10FFFF \<and> \<not> (0xD800 \<le> ch \<and> ch \<le> 0xDFFF))"

fun list_null :: "'v GeasList \<Rightarrow> bool" where
  "list_null (LNull n c e) = True"
| "list_null (LData xs c e) = False"

fun str_null :: "GeasString \<Rightarrow> bool" where
  "str_null (SNull n) = True"
| "str_null (SBytes bs) = False"

text \<open>What the sizing pass checks of an array before it walks the elements, and the bytes of the
  count and element type fields.\<close>

fun arr_head_ok :: "ArrKind \<Rightarrow> u32 \<Rightarrow> 'v GeasList \<Rightarrow> bool" where
  "arr_head_ok KList g l =
     (g = 0 \<and> tag_crosses (list_elem_ty l) \<and> \<not> (list_len l \<noteq> 0 \<and> list_null l))"
| "arr_head_ok KMap g l =
     (g = 0 \<and> tag_keyable (list_elem_ty l) \<and> list_len l mod 2 = 0 \<and>
      \<not> (list_len l \<noteq> 0 \<and> list_null l))"
| "arr_head_ok KSum g l = (\<not> (list_len l \<noteq> 0 \<and> list_null l))"
| "arr_head_ok k g l = (g = 0 \<and> \<not> (list_len l \<noteq> 0 \<and> list_null l))"

fun arr_head_size :: "ArrKind \<Rightarrow> u64" where
  "arr_head_size KList = 12"
| "arr_head_size KMap = 12"
| "arr_head_size k = 8"

definition elem_ty_checked :: "ArrKind \<Rightarrow> nat \<Rightarrow> bool" where
  "elem_ty_checked k i = (k = KList \<or> (k = KMap \<and> even i))"

fun encode_size :: "GeasValue \<Rightarrow> nat \<Rightarrow> u64 \<Rightarrow> GeasStatus + u64"
  and size_elems :: "ArrKind \<Rightarrow> u32 \<Rightarrow> nat \<Rightarrow> GeasValue list \<Rightarrow> nat \<Rightarrow> u64 \<Rightarrow> GeasStatus + u64" where
  "encode_size (VUnit g) depth tot =
     (case size_hdr depth tot of Inl st \<Rightarrow> Inl st
      | Inr t \<Rightarrow> if g = 0 then Inr t else Inl GEAS_ERR_TYPE)"
| "encode_size (VInt g w) depth tot =
     (case size_hdr depth tot of Inl st \<Rightarrow> Inl st
      | Inr t \<Rightarrow> if g = 0 then size_add t 8 else Inl GEAS_ERR_TYPE)"
| "encode_size (VUInt g w) depth tot =
     (case size_hdr depth tot of Inl st \<Rightarrow> Inl st
      | Inr t \<Rightarrow> if g = 0 then size_add t 8 else Inl GEAS_ERR_TYPE)"
| "encode_size (VFloat g w) depth tot =
     (case size_hdr depth tot of Inl st \<Rightarrow> Inl st
      | Inr t \<Rightarrow> if g = 0 then size_add t 8 else Inl GEAS_ERR_TYPE)"
| "encode_size (VBool g b) depth tot =
     (case size_hdr depth tot of Inl st \<Rightarrow> Inl st
      | Inr t \<Rightarrow> if g \<noteq> 0 \<or> 1 < b then Inl GEAS_ERR_TYPE else size_add t 1)"
| "encode_size (VByte g b) depth tot =
     (case size_hdr depth tot of Inl st \<Rightarrow> Inl st
      | Inr t \<Rightarrow> if g = 0 then size_add t 1 else Inl GEAS_ERR_TYPE)"
| "encode_size (VChar g c) depth tot =
     (case size_hdr depth tot of Inl st \<Rightarrow> Inl st
      | Inr t \<Rightarrow> if g \<noteq> 0 \<or> \<not> scalar_char c then Inl GEAS_ERR_TYPE else size_add t 4)"
| "encode_size (VString g s) depth tot =
     (case size_hdr depth tot of Inl st \<Rightarrow> Inl st
      | Inr t \<Rightarrow>
          if g \<noteq> 0 then Inl GEAS_ERR_TYPE
          else if str_len s \<noteq> 0 \<and> str_null s then Inl GEAS_ERR_TYPE
          else (case size_add t 8 of Inl st \<Rightarrow> Inl st | Inr t' \<Rightarrow> size_add t' (str_len s)))"
| "encode_size (VArr k g l) depth tot =
     (case size_hdr depth tot of Inl st \<Rightarrow> Inl st
      | Inr t \<Rightarrow>
          if \<not> arr_head_ok k g l then Inl GEAS_ERR_TYPE
          else (case size_add t (arr_head_size k) of Inl st \<Rightarrow> Inl st
                | Inr t' \<Rightarrow> size_elems k (list_elem_ty l) 0 (list_elems l) (depth + 1) t'))"
| "encode_size (VBox KOption g b) depth tot =
     (case size_hdr depth tot of Inl st \<Rightarrow> Inl st
      | Inr t \<Rightarrow>
          if 1 < g then Inl GEAS_ERR_TYPE
          else if g = 0 then (if b \<noteq> None then Inl GEAS_ERR_TYPE else Inr t)
          else (case b of None \<Rightarrow> Inl GEAS_ERR_TYPE | Some v \<Rightarrow> encode_size v (depth + 1) t))"
| "encode_size (VBox KResult g b) depth tot =
     (case size_hdr depth tot of Inl st \<Rightarrow> Inl st
      | Inr t \<Rightarrow>
          if 1 < g then Inl GEAS_ERR_TYPE
          else (case b of None \<Rightarrow> Inl GEAS_ERR_TYPE | Some v \<Rightarrow> encode_size v (depth + 1) t))"
| "encode_size (VPledgeRef g p) depth tot =
     (case size_hdr depth tot of Inl st \<Rightarrow> Inl st | Inr t \<Rightarrow> Inl GEAS_ERR_TYPE)"
| "encode_size (VInstance g i) depth tot =
     (case size_hdr depth tot of Inl st \<Rightarrow> Inl st | Inr t \<Rightarrow> Inl GEAS_ERR_TYPE)"
| "encode_size (VOther ty g) depth tot =
     (case size_hdr depth tot of Inl st \<Rightarrow> Inl st | Inr t \<Rightarrow> Inl GEAS_ERR_TYPE)"
| "size_elems k e i [] depth tot = Inr tot"
| "size_elems k e i (x # xs) depth tot =
     (if elem_ty_checked k i \<and> gv_ty x \<noteq> e then Inl GEAS_ERR_TYPE
      else (case encode_size x depth tot of Inl st \<Rightarrow> Inl st
            | Inr t \<Rightarrow> size_elems k e (Suc i) xs depth t))"

section \<open>Encoding: the write pass\<close>

fun encode_write :: "GeasValue \<Rightarrow> bytes" where
  "encode_write (VUnit g) = put_u32 (ty_num GEAS_TY_UNIT) @ put_u32 g"
| "encode_write (VInt g w) = put_u32 (ty_num GEAS_TY_INT) @ put_u32 g @ put_u64 w"
| "encode_write (VUInt g w) = put_u32 (ty_num GEAS_TY_UINT) @ put_u32 g @ put_u64 w"
| "encode_write (VFloat g w) = put_u32 (ty_num GEAS_TY_FLOAT) @ put_u32 g @ put_u64 w"
| "encode_write (VBool g b) = put_u32 (ty_num GEAS_TY_BOOL) @ put_u32 g @ [b]"
| "encode_write (VByte g b) = put_u32 (ty_num GEAS_TY_BYTE) @ put_u32 g @ [b]"
| "encode_write (VChar g c) = put_u32 (ty_num GEAS_TY_CHAR) @ put_u32 g @ put_u32 c"
| "encode_write (VString g s) =
     put_u32 (ty_num GEAS_TY_STRING) @ put_u32 g @ put_u64 (str_len s) @ str_bytes s"
| "encode_write (VArr k g l) =
     put_u32 (ty_num (arr_ty k)) @ put_u32 g @ put_u64 (list_len l) @
     (if k = KList \<or> k = KMap then put_u32 (list_elem_ty l) else []) @
     concat (map encode_write (list_elems l))"
| "encode_write (VBox k g b) =
     put_u32 (ty_num (box_ty k)) @ put_u32 g @
     (if k = KOption \<and> g \<noteq> 1 then [] else (case b of None \<Rightarrow> [] | Some v \<Rightarrow> encode_write v))"
| "encode_write (VPledgeRef g p) = put_u32 (ty_num GEAS_TY_PLEDGE_REF) @ put_u32 g"
| "encode_write (VInstance g i) = put_u32 (ty_num GEAS_TY_INSTANCE) @ put_u32 g"
| "encode_write (VOther t g) = put_u32 t @ put_u32 g"

text \<open>The result: the status, the \<^verbatim>\<open>need\<close> out parameter when it is set, and the bytes written to
  the buffer when they are.  \<open>buf\<close> says whether a buffer was passed at all.\<close>

definition geas_wire_encode_value ::
    "GeasValue option \<Rightarrow> bool \<Rightarrow> u64 \<Rightarrow> GeasStatus \<times> u64 option \<times> bytes option" where
  "geas_wire_encode_value v buf cap =
     (case v of None \<Rightarrow> (GEAS_ERR_TYPE, None, None)
      | Some v \<Rightarrow>
          (case encode_size v 1 0 of
             Inl st \<Rightarrow> (st, None, None)
           | Inr tot \<Rightarrow>
               if \<not> buf \<or> cap < tot then (GEAS_ERR_OOM, Some tot, None)
               else (GEAS_OK, Some tot, Some (encode_write v))))"

section \<open>Decoding\<close>

text \<open>\<^verbatim>\<open>take\<close>: the one gate every read goes through.\<close>

definition wtake :: "nat \<Rightarrow> bytes \<Rightarrow> (bytes \<times> bytes) option" where
  "wtake n c = (if length c < n then None else Some (take n c, drop n c))"

definition count_plausible :: "bytes \<Rightarrow> u64 \<Rightarrow> bool" where
  "count_plausible c count = (unat count \<le> length c div 8)"

text \<open>The scalar cases of the switch in \<^verbatim>\<open>decode_rec\<close>; the other tags never reach it.\<close>

definition decode_scalar ::
    "malloc \<Rightarrow> GeasTypeTag \<Rightarrow> u32 \<Rightarrow> bytes \<Rightarrow> heap \<Rightarrow> (GeasStatus + GeasValue \<times> bytes) \<times> heap" where
  "decode_scalar M ty tag c h =
     (if tag \<noteq> 0 then (Inl GEAS_ERR_TYPE, h)
      else case ty of
        GEAS_TY_UNIT \<Rightarrow> (Inr (VUnit tag, c), h)
      | GEAS_TY_INT \<Rightarrow>
          (case wtake 8 c of None \<Rightarrow> (Inl GEAS_ERR_TYPE, h)
           | Some (p, c') \<Rightarrow> (Inr (VInt tag (get_u64 p), c'), h))
      | GEAS_TY_UINT \<Rightarrow>
          (case wtake 8 c of None \<Rightarrow> (Inl GEAS_ERR_TYPE, h)
           | Some (p, c') \<Rightarrow> (Inr (VUInt tag (get_u64 p), c'), h))
      | GEAS_TY_FLOAT \<Rightarrow>
          (case wtake 8 c of None \<Rightarrow> (Inl GEAS_ERR_TYPE, h)
           | Some (p, c') \<Rightarrow> (Inr (VFloat tag (get_u64 p), c'), h))
      | GEAS_TY_BOOL \<Rightarrow>
          (case wtake 1 c of None \<Rightarrow> (Inl GEAS_ERR_TYPE, h)
           | Some (p, c') \<Rightarrow>
               if 1 < p ! 0 then (Inl GEAS_ERR_TYPE, h) else (Inr (VBool tag (p ! 0), c'), h))
      | GEAS_TY_BYTE \<Rightarrow>
          (case wtake 1 c of None \<Rightarrow> (Inl GEAS_ERR_TYPE, h)
           | Some (p, c') \<Rightarrow> (Inr (VByte tag (p ! 0), c'), h))
      | GEAS_TY_CHAR \<Rightarrow>
          (case wtake 4 c of None \<Rightarrow> (Inl GEAS_ERR_TYPE, h)
           | Some (p, c') \<Rightarrow>
               if \<not> scalar_char (get_u32 p) then (Inl GEAS_ERR_TYPE, h)
               else (Inr (VChar tag (get_u32 p), c'), h))
      | GEAS_TY_STRING \<Rightarrow>
          (case wtake 8 c of None \<Rightarrow> (Inl GEAS_ERR_TYPE, h)
           | Some (p, c1) \<Rightarrow>
               (case wtake (unat (get_u64 p)) c1 of None \<Rightarrow> (Inl GEAS_ERR_TYPE, h)
                | Some (bs, c2) \<Rightarrow>
                    (case geas_string_copy M bs h of
                       (v, h') \<Rightarrow>
                         if get_u64 p \<noteq> 0 \<and> v = VString 0 (SNull 0) then (Inl GEAS_ERR_OOM, h')
                         else (Inr (v, c2), h'))))
      | _ \<Rightarrow> (Inl GEAS_ERR_TYPE, h))"

text \<open>Writing the decoded elements into the slots an array value already has.\<close>

fun fill_slots :: "GeasValue \<Rightarrow> GeasValue list \<Rightarrow> GeasValue" where
  "fill_slots (VArr k g (LData _ c e)) xs = VArr k g (LData xs c e)"
| "fill_slots v xs = v"

text \<open>The zeroed slot array of a record, a sum or a map: \<^verbatim>\<open>geas_bytes\<close> and \<^verbatim>\<open>memset\<close>, or NULL when
  there is no element.\<close>

definition slots_new ::
    "malloc \<Rightarrow> ArrKind \<Rightarrow> u32 \<Rightarrow> u64 \<Rightarrow> u32 \<Rightarrow> heap \<Rightarrow> (GeasStatus + GeasValue) \<times> heap" where
  "slots_new M k tag count e h =
     (if count = 0 then (Inr (VArr k tag (LNull 0 0 e)), h)
      else (case geas_bytes M (count * SIZEOF_VALUE) h of
              (False, h') \<Rightarrow> (Inl GEAS_ERR_OOM, h')
            | (True, h') \<Rightarrow>
                (Inr (VArr k tag (LData (replicate (unat count) gv_zero) count e)), h')))"

function decode_rec :: "malloc \<Rightarrow> nat \<Rightarrow> bytes \<Rightarrow> heap \<Rightarrow> (GeasStatus + GeasValue \<times> bytes) \<times> heap"
  and decode_list :: "malloc \<Rightarrow> nat \<Rightarrow> u32 \<Rightarrow> GeasValue \<Rightarrow> nat \<Rightarrow> bytes \<Rightarrow> heap \<Rightarrow>
     (GeasStatus + GeasValue \<times> bytes) \<times> heap"
  and decode_slots :: "malloc \<Rightarrow> nat \<Rightarrow> nat \<Rightarrow> bytes \<Rightarrow> heap \<Rightarrow>
     (GeasStatus + GeasValue list \<times> bytes) \<times> heap"
  and decode_map :: "malloc \<Rightarrow> nat \<Rightarrow> u32 \<Rightarrow> GeasValue list \<Rightarrow> nat \<Rightarrow> bytes \<Rightarrow> heap \<Rightarrow>
     (GeasStatus + GeasValue list \<times> bytes) \<times> heap" where
  "decode_rec M depth c h =
     (if GEAS_WIRE_MAX_DEPTH < depth then (Inl GEAS_ERR_TYPE, h)
      else case wtake 8 c of None \<Rightarrow> (Inl GEAS_ERR_TYPE, h)
      | Some (hb, c) \<Rightarrow>
        let tag = get_u32 (drop 4 hb) in
        case ty_cast (get_u32 hb) of
          Some GEAS_TY_LIST \<Rightarrow>
            if tag \<noteq> 0 then (Inl GEAS_ERR_TYPE, h)
            else (case wtake 12 c of None \<Rightarrow> (Inl GEAS_ERR_TYPE, h)
              | Some (p, c) \<Rightarrow>
                let count = get_u64 p; elem_ty = get_u32 (drop 8 p) in
                if \<not> tag_crosses elem_ty then (Inl GEAS_ERR_TYPE, h)
                else if \<not> count_plausible c count then (Inl GEAS_ERR_TYPE, h)
                else (case geas_list_new M elem_ty count h of
                   (Inl st, h) \<Rightarrow> (Inl st, h)
                 | (Inr out, h) \<Rightarrow> decode_list M (unat count) elem_ty out (Suc depth) c h))
        | Some GEAS_TY_TUPLE \<Rightarrow>
            if tag \<noteq> 0 then (Inl GEAS_ERR_TYPE, h)
            else (case wtake 8 c of None \<Rightarrow> (Inl GEAS_ERR_TYPE, h)
              | Some (p, c) \<Rightarrow>
                let arity = get_u64 p in
                if \<not> count_plausible c arity then (Inl GEAS_ERR_TYPE, h)
                else (case geas_tuple_new M arity h of
                   (Inl st, h) \<Rightarrow> (Inl st, h)
                 | (Inr out, h) \<Rightarrow>
                    (case decode_slots M (unat arity) (Suc depth) c h of
                       (Inl st, h) \<Rightarrow> (Inl st, h)
                     | (Inr (xs, c), h) \<Rightarrow> (Inr (fill_slots out xs, c), h))))
        | Some GEAS_TY_RECORD \<Rightarrow>
            if tag \<noteq> 0 then (Inl GEAS_ERR_TYPE, h)
            else (case wtake 8 c of None \<Rightarrow> (Inl GEAS_ERR_TYPE, h)
              | Some (p, c) \<Rightarrow>
                let count = get_u64 p in
                if \<not> count_plausible c count then (Inl GEAS_ERR_TYPE, h)
                else (case slots_new M KRecord tag count 0 h of
                   (Inl st, h) \<Rightarrow> (Inl st, h)
                 | (Inr out, h) \<Rightarrow>
                    (case decode_slots M (unat count) (Suc depth) c h of
                       (Inl st, h) \<Rightarrow> (Inl st, h)
                     | (Inr (xs, c), h) \<Rightarrow> (Inr (fill_slots out xs, c), h))))
        | Some GEAS_TY_SUM \<Rightarrow>
            (case wtake 8 c of None \<Rightarrow> (Inl GEAS_ERR_TYPE, h)
              | Some (p, c) \<Rightarrow>
                let count = get_u64 p in
                if \<not> count_plausible c count then (Inl GEAS_ERR_TYPE, h)
                else (case slots_new M KSum tag count 0 h of
                   (Inl st, h) \<Rightarrow> (Inl st, h)
                 | (Inr out, h) \<Rightarrow>
                    (case decode_slots M (unat count) (Suc depth) c h of
                       (Inl st, h) \<Rightarrow> (Inl st, h)
                     | (Inr (xs, c), h) \<Rightarrow> (Inr (fill_slots out xs, c), h))))
        | Some GEAS_TY_MAP \<Rightarrow>
            if tag \<noteq> 0 then (Inl GEAS_ERR_TYPE, h)
            else (case wtake 12 c of None \<Rightarrow> (Inl GEAS_ERR_TYPE, h)
              | Some (p, c) \<Rightarrow>
                let slots = get_u64 p; key_ty = get_u32 (drop 8 p) in
                if slots mod 2 \<noteq> 0 then (Inl GEAS_ERR_TYPE, h)
                else if \<not> tag_keyable key_ty then (Inl GEAS_ERR_TYPE, h)
                else if \<not> count_plausible c slots then (Inl GEAS_ERR_TYPE, h)
                else (case slots_new M KMap tag slots key_ty h of
                   (Inl st, h) \<Rightarrow> (Inl st, h)
                 | (Inr out, h) \<Rightarrow>
                    (case decode_map M (unat slots) key_ty [] (Suc depth) c h of
                       (Inl st, h) \<Rightarrow> (Inl st, h)
                     | (Inr (xs, c), h) \<Rightarrow> (Inr (fill_slots out xs, c), h))))
        | Some GEAS_TY_OPTION \<Rightarrow>
            if 1 < tag then (Inl GEAS_ERR_TYPE, h)
            else if tag = 0 then (Inr (VBox KOption tag None, c), h)
            else (case geas_box M h of
                (False, h) \<Rightarrow> (Inl GEAS_ERR_OOM, h)
              | (True, h) \<Rightarrow>
                 (case decode_rec M (Suc depth) c h of
                    (Inl st, h) \<Rightarrow> (Inl st, h)
                  | (Inr (v, c), h) \<Rightarrow> (Inr (VBox KOption tag (Some v), c), h)))
        | Some GEAS_TY_RESULT \<Rightarrow>
            if 1 < tag then (Inl GEAS_ERR_TYPE, h)
            else (case geas_box M h of
                (False, h) \<Rightarrow> (Inl GEAS_ERR_OOM, h)
              | (True, h) \<Rightarrow>
                 (case decode_rec M (Suc depth) c h of
                    (Inl st, h) \<Rightarrow> (Inl st, h)
                  | (Inr (v, c), h) \<Rightarrow> (Inr (VBox KResult tag (Some v), c), h)))
        | Some ty \<Rightarrow> decode_scalar M ty tag c h
        | None \<Rightarrow> (Inl GEAS_ERR_TYPE, h))"
| "decode_list M 0 elem_ty out depth c h = (Inr (out, c), h)"
| "decode_list M (Suc n) elem_ty out depth c h =
     (case decode_rec M depth c h of
        (Inl st, h) \<Rightarrow> (Inl st, h)
      | (Inr (elem, c), h) \<Rightarrow>
          if gv_ty elem \<noteq> elem_ty then (Inl GEAS_ERR_TYPE, h)
          else (case geas_list_push M out elem h of
                  (Inl st, h) \<Rightarrow> (Inl st, h)
                | (Inr out, h) \<Rightarrow> decode_list M n elem_ty out depth c h))"
| "decode_slots M 0 depth c h = (Inr ([], c), h)"
| "decode_slots M (Suc n) depth c h =
     (case decode_rec M depth c h of
        (Inl st, h) \<Rightarrow> (Inl st, h)
      | (Inr (v, c), h) \<Rightarrow>
          (case decode_slots M n depth c h of
             (Inl st, h) \<Rightarrow> (Inl st, h)
           | (Inr (vs, c), h) \<Rightarrow> (Inr (v # vs, c), h)))"
| "decode_map M 0 key_ty data depth c h = (Inr (data, c), h)"
| "decode_map M (Suc n) key_ty data depth c h =
     (case decode_rec M depth c h of
        (Inl st, h) \<Rightarrow> (Inl st, h)
      | (Inr (v, c), h) \<Rightarrow>
          if even (length data) \<and> gv_ty v \<noteq> key_ty then (Inl GEAS_ERR_TYPE, h)
          else if even (length data) \<and> list_ex (\<lambda>(k, _). geas_value_eq k v) (pairs data)
          then (Inl GEAS_ERR_TYPE, h)
          else decode_map M n key_ty (data @ [v]) depth c h)"
  by pat_completeness auto
termination
  by (relation "measures [
      (\<lambda>x. case x of Inl (Inl (M, d, c, h)) \<Rightarrow> 65 - d
                   | Inl (Inr (M, n, e, v, d, c, h)) \<Rightarrow> 65 - d
                   | Inr (Inl (M, n, d, c, h)) \<Rightarrow> 65 - d
                   | Inr (Inr (M, n, e, v, d, c, h)) \<Rightarrow> 65 - d),
      (\<lambda>x. case x of Inl (Inl _) \<Rightarrow> 0 | _ \<Rightarrow> 1),
      (\<lambda>x. case x of Inl (Inl (M, d, c, h)) \<Rightarrow> 0
                   | Inl (Inr (M, n, e, v, d, c, h)) \<Rightarrow> n
                   | Inr (Inl (M, n, d, c, h)) \<Rightarrow> n
                   | Inr (Inr (M, n, e, v, d, c, h)) \<Rightarrow> n)]")
     (auto simp: GEAS_WIRE_MAX_DEPTH_def)

definition geas_wire_decode_value ::
    "malloc \<Rightarrow> bytes option \<Rightarrow> heap \<Rightarrow> (GeasStatus + GeasValue \<times> nat) \<times> heap" where
  "geas_wire_decode_value M buf h =
     (case buf of None \<Rightarrow> (Inl GEAS_ERR_TYPE, h)
      | Some bs \<Rightarrow>
          (case decode_rec M 1 bs h of
             (Inl st, h') \<Rightarrow> (Inl st, h')
           | (Inr (v, rest), h') \<Rightarrow> (Inr (v, length bs - length rest), h')))"

declare decode_rec.simps [simp del]

end
