(* ===== verification/Geas_Wire_Facts.thy ===== *)
theory Geas_Wire_Facts
  imports Geas_Wire
begin

text \<open>Facts of the wire codec: fields, frames, the two encoder passes and the decoder.\<close>

section \<open>Fixed width fields\<close>

lemma length_put [simp]: "length (put_u32 w) = 4" "length (put_u64 x) = 8"
  by (simp_all add: put_u32_def put_u64_def)

lemma get_put_u32 [simp]: "get_u32 (put_u32 w @ r) = w"
proof (rule bit_word_eqI)
  fix n assume "n < LENGTH(32)"
  then have "n < 8 \<or> (8 \<le> n \<and> n < 16) \<or> (16 \<le> n \<and> n < 24) \<or> (24 \<le> n \<and> n < 32)"
    by auto
  then show "bit (get_u32 (put_u32 w @ r)) n = bit w n"
    by (auto simp: get_u32_def put_u32_def bit_simps)
qed

lemma get_put_u32_all [simp]: "get_u32 (put_u32 w) = w"
  using get_put_u32 [of w "[]"] by simp

lemma get_put_u64 [simp]: "get_u64 (put_u64 w @ r) = w"
proof (rule bit_word_eqI)
  fix n assume "n < LENGTH(64)"
  then show "bit (get_u64 (put_u64 w @ r)) n = bit w n"
    by (cases "n < 32") (auto simp: get_u64_def put_u64_def bit_simps)
qed

lemma get_put_u64_all [simp]: "get_u64 (put_u64 w) = w"
  using get_put_u64 [of w "[]"] by simp

lemma length4_cases:
  assumes "length p = 4"
  obtains a b c d where "p = [a, b, c, d]"
  using assms by (auto simp: numeral_eq_Suc length_Suc_conv)

lemma put_get_u32 [simp]:
  assumes "length p = 4"
  shows "put_u32 (get_u32 p) = p"
proof -
  obtain a b c d where p: "p = [a, b, c, d]" using assms by (rule length4_cases)
  have "ucast (get_u32 p) = a" "ucast (drop_bit 8 (get_u32 p)) = b"
    "ucast (drop_bit 16 (get_u32 p)) = c" "ucast (drop_bit 24 (get_u32 p)) = d"
    by (rule bit_word_eqI; auto simp: p get_u32_def bit_simps dest: bit_imp_le_length)+
  then show ?thesis by (simp add: put_u32_def p)
qed

lemma put_get_u64 [simp]:
  assumes "length p = 8"
  shows "put_u64 (get_u64 p) = p"
proof -
  have "ucast (get_u64 p) = get_u32 p" "ucast (drop_bit 32 (get_u64 p)) = get_u32 (drop 4 p)"
    by (rule bit_word_eqI; auto simp: get_u64_def bit_simps dest: bit_imp_le_length)+
  moreover have "get_u32 p = get_u32 (take 4 p)" using assms by (simp add: get_u32_def)
  moreover have "put_u32 (get_u32 (take 4 p)) = take 4 p" "put_u32 (get_u32 (drop 4 p)) = drop 4 p"
    using assms by simp_all
  ultimately show ?thesis by (simp add: put_u64_def)
qed

lemma wtake_append [simp]: "length p = n \<Longrightarrow> wtake n (p @ r) = Some (p, r)"
  by (simp add: wtake_def)

lemma wtake_SomeD: "wtake n c = Some (p, r) \<Longrightarrow> c = p @ r \<and> length p = n"
  by (auto simp: wtake_def split: if_splits)

lemma get_u32_take: "4 \<le> n \<Longrightarrow> get_u32 (take n p) = get_u32 p"
  by (simp add: get_u32_def)

lemma get_u64_take: "8 \<le> n \<Longrightarrow> get_u64 (take n p) = get_u64 p"
  by (simp add: get_u64_def get_u32_take drop_take)

section \<open>Frames\<close>

lemma frame_write_read:
  assumes "geas_wire_frame_write kind rid len = Inr out"
  shows "length out = 20"
    and "geas_wire_frame_read (out @ rest) =
           Inr \<lparr>wf_kind = kind, wf_request_id = rid, wf_payload_len = len\<rparr>"
proof -
  have out: "out = GEAS_WIRE_MAGIC @ put_u32 kind @ put_u64 rid @ put_u32 len"
    and ok: "\<not> (kind < GEAS_WIRE_HELLO \<or> GEAS_WIRE_ERROR < kind)" "\<not> GEAS_WIRE_MAX_PAYLOAD < len"
    using assms by (auto simp: geas_wire_frame_write_def split: if_splits)
  show "length out = 20" by (simp add: out GEAS_WIRE_MAGIC_def)
  have "drop 16 (out @ rest) = put_u32 len @ rest" "drop 8 (out @ rest) = put_u64 rid @ put_u32 len @ rest"
    "drop 4 (out @ rest) = put_u32 kind @ put_u64 rid @ put_u32 len @ rest"
    "take 4 (out @ rest) = GEAS_WIRE_MAGIC"
    by (simp_all add: out GEAS_WIRE_MAGIC_def put_u32_def put_u64_def)
  with ok show "geas_wire_frame_read (out @ rest) =
      Inr \<lparr>wf_kind = kind, wf_request_id = rid, wf_payload_len = len\<rparr>"
    by (simp add: geas_wire_frame_read_def Let_def)
qed

lemma frame_read_write:
  assumes "geas_wire_frame_read inp = Inr f" and "length inp = 20"
  shows "geas_wire_frame_write (wf_kind f) (wf_request_id f) (wf_payload_len f) = Inr inp"
proof -
  have f: "wf_kind f = get_u32 (drop 4 inp)" "wf_request_id f = get_u64 (drop 8 inp)"
      "wf_payload_len f = get_u32 (drop 16 inp)"
    and magic: "take 4 inp = GEAS_WIRE_MAGIC"
    and ok: "\<not> (wf_kind f < GEAS_WIRE_HELLO \<or> GEAS_WIRE_ERROR < wf_kind f)"
      "\<not> GEAS_WIRE_MAX_PAYLOAD < wf_payload_len f"
    using assms(1) by (auto simp: geas_wire_frame_read_def Let_def split: if_splits)
  have "put_u32 (wf_kind f) = take 4 (drop 4 inp)"
    using assms(2) f put_get_u32 [of "take 4 (drop 4 inp)"] by (simp add: get_u32_take)
  moreover have "put_u64 (wf_request_id f) = take 8 (drop 8 inp)"
    using assms(2) f put_get_u64 [of "take 8 (drop 8 inp)"] by (simp add: get_u64_take)
  moreover have "put_u32 (wf_payload_len f) = drop 16 inp"
    using assms(2) f by simp
  moreover have "inp = take 4 inp @ take 4 (drop 4 inp) @ take 8 (drop 8 inp) @ drop 16 inp"
    using append_take_drop_id [of 4 inp] append_take_drop_id [of 4 "drop 4 inp"]
      append_take_drop_id [of 8 "drop 8 inp"] by simp
  ultimately show ?thesis
    using magic ok by (simp add: geas_wire_frame_write_def)
qed

section \<open>What the encoder accepts, and how many bytes it writes\<close>

fun elems_typed :: "ArrKind \<Rightarrow> u32 \<Rightarrow> nat \<Rightarrow> GeasValue list \<Rightarrow> bool" where
  "elems_typed k e i [] = True"
| "elems_typed k e i (x # xs) =
     ((elem_ty_checked k i \<longrightarrow> gv_ty x = e) \<and> elems_typed k e (Suc i) xs)"

text \<open>The values that cross: the specification of the sizing pass without its byte count.\<close>

fun wire_ok :: "nat \<Rightarrow> GeasValue \<Rightarrow> bool" where
  "wire_ok d (VBool g b) = (d \<le> 64 \<and> g = 0 \<and> b \<le> 1)"
| "wire_ok d (VChar g c) = (d \<le> 64 \<and> g = 0 \<and> scalar_char c)"
| "wire_ok d (VString g s) = (d \<le> 64 \<and> g = 0 \<and> \<not> (str_len s \<noteq> 0 \<and> str_null s))"
| "wire_ok d (VArr k g l) =
     (d \<le> 64 \<and> arr_head_ok k g l \<and> elems_typed k (list_elem_ty l) 0 (list_elems l) \<and>
      (\<forall>x \<in> set (list_elems l). wire_ok (Suc d) x))"
| "wire_ok d (VBox k g b) =
     (d \<le> 64 \<and> g \<le> 1 \<and>
      (case b of None \<Rightarrow> k = KOption \<and> g = 0
       | Some v \<Rightarrow> \<not> (k = KOption \<and> g = 0) \<and> wire_ok (Suc d) v))"
| "wire_ok d (VPledgeRef g p) = False"
| "wire_ok d (VInstance g i) = False"
| "wire_ok d (VOther t g) = False"
| "wire_ok d v = (d \<le> 64 \<and> gv_tag v = 0)"

lemma case_Inr_iff:
  "(case r of Inl st \<Rightarrow> Inl st | Inr x \<Rightarrow> f x) = Inr y \<longleftrightarrow> (\<exists>x. r = Inr x \<and> f x = Inr y)"
  by (cases r) auto

lemma size_add_iff: "size_add t n = Inr t' \<longleftrightarrow> unat t' = unat t + unat n"
proof -
  have "- 1 - t < n \<longleftrightarrow> 2 ^ 64 \<le> unat t + unat n"
  proof -
    have "t \<le> - 1" by simp
    then have "unat (- 1 - t) = 2 ^ 64 - 1 - unat t"
      by (simp add: unat_sub unsigned_minus_1_eq_mask mask_eq_exp_minus_1)
    then show ?thesis using unat_lt64 [of t] by (simp add: word_less_nat_alt) linarith
  qed
  moreover have "unat t + unat n < 2 ^ 64 \<Longrightarrow> unat (t + n) = unat t + unat n"
    by (simp add: unat_word_ariths)
  ultimately show ?thesis
    using unat_lt64 [of t'] by (auto simp: size_add_def word_unat_eq_iff)
qed

lemma ex_unat_le:
  assumes "a \<le> unat (t' :: u64)"
  obtains t :: u64 where "unat t = a"
proof -
  have "a < 2 ^ 64" using assms unat_lt64 [of t'] by linarith
  then have "unat (of_nat a :: u64) = a" by (rule unat_of_nat64)
  then show thesis by (rule that)
qed

lemma ex_unat_sum:
  "(\<exists>t. unat (t :: u64) = a \<and> unat (t' :: u64) = unat t + b) \<longleftrightarrow> unat t' = a + b"
  by (metis ex_unat_le le_add1)

lemma size_hdr_iff: "size_hdr d t = Inr t' \<longleftrightarrow> d \<le> 64 \<and> unat t' = unat t + 8"
  by (simp add: size_hdr_def size_add_iff GEAS_WIRE_MAX_DEPTH_def)

lemmas size_iffs = case_Inr_iff size_hdr_iff size_add_iff

lemma word_le_1_iff: "(g :: u32) \<le> 1 \<longleftrightarrow> g = 0 \<or> g = 1"
  by (auto simp: word_le_nat_alt word_unat_eq_iff)

lemma size_hdr_bind:
  fixes F :: "u64 \<Rightarrow> GeasStatus + u64"
  assumes "\<And>t1. unat t1 = unat t + 8 \<Longrightarrow> F t1 = Inr t' \<longleftrightarrow> Q \<and> unat t' = unat t1 + n"
  shows "(case size_hdr d t of Inl st \<Rightarrow> Inl st | Inr t1 \<Rightarrow> F t1) = Inr t' \<longleftrightarrow>
     d \<le> 64 \<and> Q \<and> unat t' = unat t + 8 + n"
proof -
  have "(case size_hdr d t of Inl st \<Rightarrow> Inl st | Inr t1 \<Rightarrow> F t1) = Inr t' \<longleftrightarrow>
      (\<exists>t1. (d \<le> 64 \<and> unat (t1 :: u64) = unat t + 8) \<and> Q \<and> unat t' = unat t1 + n)"
    unfolding case_Inr_iff size_hdr_iff using assms by blast
  also have "\<dots> \<longleftrightarrow> d \<le> 64 \<and> Q \<and> (\<exists>t1. unat (t1 :: u64) = unat t + 8 \<and> unat t' = unat t1 + n)"
    by auto
  finally show ?thesis by (simp add: ex_unat_sum)
qed

lemma encode_size_iff:
  "wf_value v \<Longrightarrow>
     encode_size v d t = Inr t' \<longleftrightarrow> wire_ok d v \<and> unat t' = unat t + length (encode_write v)"
  "\<forall>x \<in> set xs. wf_value x \<Longrightarrow>
     size_elems k e i xs d t = Inr t' \<longleftrightarrow>
       elems_typed k e i xs \<and> (\<forall>x \<in> set xs. wire_ok d x) \<and>
       unat t' = unat t + length (concat (map encode_write xs))"
proof (induction v d t and k e i xs d t arbitrary: t' and t' rule: encode_size_size_elems.induct)
  case (8 g s d t)
  have len: "unat (str_len s) = length (str_bytes s)"
    using wf_str_bytes [OF 8] by (simp add: unat_of_nat64)
  show ?case
    by (cases "g = 0 \<and> \<not> (str_len s \<noteq> 0 \<and> str_null s)")
       (auto simp: size_iffs ex_unat_sum len add.assoc)
next
  case (9 k g l d t)
  show ?case
  proof (cases "arr_head_ok k g l")
    case True
    have hs: "length (put_u64 (list_len l) @ (if k = KList \<or> k = KMap then put_u32 (list_elem_ty l) else []))
        = unat (arr_head_size k)"
      by (cases k) simp_all
    have IH: "\<And>t1 t2. size_hdr d t = Inr t1 \<Longrightarrow> size_add t1 (arr_head_size k) = Inr t2 \<Longrightarrow>
        size_elems k (list_elem_ty l) 0 (list_elems l) (d + 1) t2 = Inr t' \<longleftrightarrow>
        elems_typed k (list_elem_ty l) 0 (list_elems l) \<and> (\<forall>x \<in> set (list_elems l). wire_ok (d + 1) x) \<and>
        unat t' = unat t2 + length (concat (map encode_write (list_elems l)))"
      using "9.IH" True "9.prems" by auto
    have "encode_size (VArr k g l) d t = Inr t' \<longleftrightarrow>
        (\<exists>t1. size_hdr d t = Inr t1 \<and> (\<exists>t2. size_add t1 (arr_head_size k) = Inr t2 \<and>
           size_elems k (list_elem_ty l) 0 (list_elems l) (d + 1) t2 = Inr t'))"
      using True by (simp add: case_Inr_iff)
    also have "\<dots> \<longleftrightarrow> (\<exists>t1. size_hdr d t = Inr t1 \<and> (\<exists>t2. size_add t1 (arr_head_size k) = Inr t2 \<and>
           elems_typed k (list_elem_ty l) 0 (list_elems l) \<and> (\<forall>x \<in> set (list_elems l). wire_ok (d + 1) x) \<and>
           unat t' = unat t2 + length (concat (map encode_write (list_elems l)))))"
      by (intro ex_cong1 conj_cong refl) (rule IH)
    also have "\<dots> \<longleftrightarrow> d \<le> 64 \<and> elems_typed k (list_elem_ty l) 0 (list_elems l) \<and>
        (\<forall>x \<in> set (list_elems l). wire_ok (d + 1) x) \<and>
        unat t' = unat t + 8 + unat (arr_head_size k) + length (concat (map encode_write (list_elems l)))"
      (is "?L \<longleftrightarrow> ?R")
    proof
      assume R: ?R
      then have "unat t + 8 \<le> unat t'" by simp
      then obtain t1 :: u64 where t1: "unat t1 = unat t + 8" by (rule ex_unat_le)
      with R have "unat t1 + unat (arr_head_size k) \<le> unat t'" by simp
      then obtain t2 :: u64 where "unat t2 = unat t1 + unat (arr_head_size k)" by (rule ex_unat_le)
      with R t1 show ?L by (intro exI [of _ t1] exI [of _ t2] conjI) (simp_all add: size_iffs)
    qed (auto simp: size_iffs)
    finally show ?thesis
      using True hs by (auto simp: add.assoc)
  next
    case False
    then show ?thesis by (auto simp: case_Inr_iff)
  qed
next
  case (10 g b d t)
  show ?case
  proof (cases b)
    case None
    then show ?thesis by (auto simp: size_iffs word_le_1_iff not_less)
  next
    case (Some v)
    have IH: "encode_size v (Suc d) t1 = Inr t' \<longleftrightarrow> wire_ok (Suc d) v \<and> unat t' = unat t1 + length (encode_write v)"
      if "unat t1 = unat t + 8" "g = 1" "d \<le> 64" for t1
      using 10 Some that by (simp add: size_hdr_iff)
    show ?thesis
    proof (cases "g = 1 \<and> d \<le> 64")
      case True
      then have "encode_size (VBox KOption g b) d t =
          (case size_hdr d t of Inl st \<Rightarrow> Inl st | Inr t1 \<Rightarrow> encode_size v (Suc d) t1)"
        using Some by (simp split: sum.split)
      then show ?thesis using Some True size_hdr_bind [of t "encode_size v (Suc d)", OF IH] by (simp add: add.assoc)
    next
      case False
      with Some show ?thesis by (auto simp: size_iffs word_le_1_iff not_less)
    qed
  qed
next
  case (11 g b d t)
  show ?case
  proof (cases b)
    case None
    then show ?thesis by (auto simp: size_iffs)
  next
    case (Some v)
    have IH: "encode_size v (Suc d) t1 = Inr t' \<longleftrightarrow> wire_ok (Suc d) v \<and> unat t' = unat t1 + length (encode_write v)"
      if "unat t1 = unat t + 8" "\<not> 1 < g" "d \<le> 64" for t1
      using 11 Some that by (simp add: size_hdr_iff)
    show ?thesis
    proof (cases "\<not> 1 < g \<and> d \<le> 64")
      case True
      then have "encode_size (VBox KResult g b) d t =
          (case size_hdr d t of Inl st \<Rightarrow> Inl st | Inr t1 \<Rightarrow> encode_size v (Suc d) t1)"
        using Some by (simp split: sum.split)
      then show ?thesis
        using Some True size_hdr_bind [of t "encode_size v (Suc d)", OF IH] by (simp add: not_less add.assoc)
    next
      case False
      with Some show ?thesis by (auto simp: size_iffs not_less)
    qed
  qed
next
  case (16 k e i x xs d t)
  show ?case
  proof (cases "elem_ty_checked k i \<longrightarrow> gv_ty x = e")
    case True
    have "size_elems k e i (x # xs) d t = Inr t' \<longleftrightarrow>
        (\<exists>t1. encode_size x d t = Inr t1 \<and> size_elems k e (Suc i) xs d t1 = Inr t')"
      using True by (auto simp: case_Inr_iff)
    also have "\<dots> \<longleftrightarrow>
        (\<exists>t1 :: u64. (wire_ok d x \<and> unat t1 = unat t + length (encode_write x)) \<and>
           elems_typed k e (Suc i) xs \<and> (\<forall>x \<in> set xs. wire_ok d x) \<and>
           unat t' = unat t1 + length (concat (map encode_write xs)))"
      using 16 True by (intro ex_cong1 conj_cong) auto
    finally have *: "size_elems k e i (x # xs) d t = Inr t' \<longleftrightarrow>
        (\<exists>t1 :: u64. (wire_ok d x \<and> unat t1 = unat t + length (encode_write x)) \<and>
           elems_typed k e (Suc i) xs \<and> (\<forall>x \<in> set xs. wire_ok d x) \<and>
           unat t' = unat t1 + length (concat (map encode_write xs)))" .
    show ?thesis
      unfolding * using True ex_unat_sum [of "unat t + length (encode_write x)" t' "length (concat (map encode_write xs))"]
      by (auto simp: add.assoc)
  next
    case False
    then show ?thesis by simp
  qed
next
  case (5 g b d t)
  have "encode_size (VBool g b) d t = Inr t' \<longleftrightarrow> d \<le> 64 \<and> \<not> (g \<noteq> 0 \<or> 1 < b) \<and> unat t' = unat t + 8 + 1"
    unfolding encode_size.simps by (rule size_hdr_bind) (simp add: size_add_iff)
  then show ?case by (auto simp: not_less)
next
  case (6 g b d t)
  have "encode_size (VByte g b) d t = Inr t' \<longleftrightarrow> d \<le> 64 \<and> g = 0 \<and> unat t' = unat t + 8 + 1"
    unfolding encode_size.simps by (rule size_hdr_bind) (simp add: size_add_iff)
  then show ?case by auto
next
  case (15 k e i d t)
  then show ?case by (auto simp: word_unat_eq_iff)
qed (auto simp: size_iffs ex_unat_sum)

end
