(* ===== verification/Geas_Wire_Decode.thy ===== *)
theory Geas_Wire_Decode
  imports Geas_Wire_Facts
begin

text \<open>
  The decoder: every successful decode consumed exactly the canonical encoding of what it
  returns, every encodable value decodes back, and a failure is a malformed payload or a failed
  allocation.  The decoder recurses on the nesting depth, so each fact is proved for the element
  loops under the assumption that it holds of \<open>decode_rec\<close> at the depth of the elements, and then
  for \<open>decode_rec\<close> by induction on the depth that is left.
\<close>

section \<open>Keys of an interleaved array\<close>

fun evens :: "'a list \<Rightarrow> 'a list" where
  "evens (x # y # es) = x # evens es"
| "evens es = es"

lemma evens_snoc: "evens (xs @ [v]) = evens xs @ (if even (length xs) then [v] else [])"
  by (induction xs rule: evens.induct) auto

lemma fst_pairs: "even (length xs) \<Longrightarrow> map fst (pairs xs) = evens xs"
  by (induction xs rule: evens.induct) auto

definition keys_differ :: "GeasValue list \<Rightarrow> bool" where
  "keys_differ es = sorted_wrt (\<lambda>a b. \<not> geas_value_eq a b) (evens es)"

lemma distinct_keys_pairs: "even (length xs) \<Longrightarrow> distinct_keys (pairs xs) = keys_differ xs"
  using fst_pairs [of xs] by (simp add: distinct_keys_def keys_differ_def sorted_wrt_map flip: fst_pairs)

lemma keys_differ_snoc:
  "keys_differ (xs @ [v]) \<longleftrightarrow>
     keys_differ xs \<and> (even (length xs) \<longrightarrow> \<not> list_ex (\<lambda>(k, _). geas_value_eq k v) (pairs xs))"
proof (cases "even (length xs)")
  case True
  then have "list_ex (\<lambda>(k, _). geas_value_eq k v) (pairs xs) \<longleftrightarrow> (\<exists>k \<in> set (evens xs). geas_value_eq k v)"
    by (force simp: list_ex_iff simp flip: fst_pairs)
  with True show ?thesis by (auto simp: keys_differ_def evens_snoc sorted_wrt_append)
next
  case False
  then show ?thesis by (simp add: keys_differ_def evens_snoc)
qed

text \<open>No map anywhere in the value has two equal keys.\<close>

fun map_unique :: "GeasValue \<Rightarrow> bool" where
  "map_unique (VArr k g l) =
     ((k = KMap \<longrightarrow> keys_differ (list_elems l)) \<and> (\<forall>x \<in> set (list_elems l). map_unique x))"
| "map_unique (VBox k g b) = (case b of None \<Rightarrow> True | Some v \<Rightarrow> map_unique v)"
| "map_unique v = True"

section \<open>A successful decode read the canonical encoding\<close>

definition decoded :: "nat \<Rightarrow> GeasValue \<Rightarrow> bool" where
  "decoded d v \<longleftrightarrow> wire_ok d v \<and> wf_value v \<and> map_unique v"

text \<open>What every successful run of \<open>decode_rec\<close> at depth \<open>d\<close> satisfies, on buffers below the
  bound that makes every element count fit its allocation.\<close>

definition rec_sound :: "malloc \<Rightarrow> nat \<Rightarrow> bool" where
  "rec_sound M d \<longleftrightarrow> (\<forall>c h v r h'. length c < 2 ^ 55 \<longrightarrow> decode_rec M d c h = (Inr (v, r), h') \<longrightarrow>
     c = encode_write v @ r \<and> decoded d v)"

lemma rec_soundD:
  "rec_sound M d \<Longrightarrow> length c < 2 ^ 55 \<Longrightarrow> decode_rec M d c h = (Inr (v, r), h') \<Longrightarrow>
     c = encode_write v @ r \<and> decoded d v"
  unfolding rec_sound_def by blast

lemma slots_sound:
  assumes "rec_sound M d" and "length c < 2 ^ 55" and "decode_slots M n d c h = (Inr (xs, r), h')"
  shows "length xs = n \<and> c = concat (map encode_write xs) @ r \<and> (\<forall>x \<in> set xs. decoded d x)"
  using assms(2,3)
proof (induction n arbitrary: c h xs)
  case (Suc n)
  from Suc.prems(2) obtain v c1 h1 vs where
    1: "decode_rec M d c h = (Inr (v, c1), h1)" and
    2: "decode_slots M n d c1 h1 = (Inr (vs, r), h')" and xs: "xs = v # vs"
    by (auto split: prod.splits sum.splits)
  note v = rec_soundD [OF assms(1) Suc.prems(1) 1]
  then have "length c1 < 2 ^ 55" using Suc.prems(1) by simp
  from Suc.IH [OF this 2] v xs show ?case by simp
qed simp

lemma push_spare:
  assumes "length ys < unat cap" and "gv_ty e = ty"
  shows "geas_list_push M (VArr KList 0 (LData ys cap ty)) e h =
     (Inr (VArr KList 0 (LData (ys @ [e]) cap ty)), h)"
proof -
  have "unat (of_nat (length ys) :: u64) = length ys"
    using assms(1) unat_lt64 [of cap] by (intro unat_of_nat64) linarith
  with assms(1) have "(of_nat (length ys) :: u64) \<noteq> cap" by auto
  with assms(2) show ?thesis by (simp add: geas_list_push_def)
qed

lemma list_sound:
  assumes "rec_sound M d" and "length c < 2 ^ 55" and "length ys + n \<le> unat cap"
    and "decode_list M n e (VArr KList 0 (LData ys cap e)) d c h = (Inr (v, r), h')"
  shows "\<exists>xs. v = VArr KList 0 (LData (ys @ xs) cap e) \<and> length xs = n \<and>
     c = concat (map encode_write xs) @ r \<and> (\<forall>x \<in> set xs. decoded d x \<and> gv_ty x = e)"
  using assms(2-4)
proof (induction n arbitrary: c h ys)
  case (Suc n)
  from Suc.prems(3) obtain x c1 h1 where
    1: "decode_rec M d c h = (Inr (x, c1), h1)" and ty: "gv_ty x = e"
    and "(case geas_list_push M (VArr KList 0 (LData ys cap e)) x h1 of
            (Inl st, h) \<Rightarrow> (Inl st, h)
          | (Inr out, h) \<Rightarrow> decode_list M n e out d c1 h) = (Inr (v, r), h')"
    by (auto split: prod.splits sum.splits if_splits)
  then have 2: "decode_list M n e (VArr KList 0 (LData (ys @ [x]) cap e)) d c1 h1 = (Inr (v, r), h')"
    using Suc.prems(2) by (simp add: push_spare)
  note x = rec_soundD [OF assms(1) Suc.prems(1) 1]
  then have "length c1 < 2 ^ 55" "length (ys @ [x]) + n \<le> unat cap" using Suc.prems by simp_all
  from Suc.IH [OF this 2] obtain xs where
    "v = VArr KList 0 (LData ((ys @ [x]) @ xs) cap e)" "length xs = n"
    "c1 = concat (map encode_write xs) @ r" "\<forall>x \<in> set xs. decoded d x \<and> gv_ty x = e"
    by blast
  with x ty show ?case by (intro exI [of _ "x # xs"]) simp
qed simp

lemma map_sound:
  assumes "rec_sound M d" and "length c < 2 ^ 55" and "keys_differ ys"
    and "decode_map M n e ys d c h = (Inr (zs, r), h')"
  shows "\<exists>xs. zs = ys @ xs \<and> length xs = n \<and> c = concat (map encode_write xs) @ r \<and>
     (\<forall>x \<in> set xs. decoded d x) \<and> keys_differ zs \<and> elems_typed KMap e (length ys) xs"
  using assms(2-4)
proof (induction n arbitrary: c h ys)
  case (Suc n)
  from Suc.prems(3) obtain x c1 h1 where
    1: "decode_rec M d c h = (Inr (x, c1), h1)" and ty: "even (length ys) \<longrightarrow> gv_ty x = e"
    and nd: "even (length ys) \<longrightarrow> \<not> list_ex (\<lambda>(k, _). geas_value_eq k x) (pairs ys)"
    and 2: "decode_map M n e (ys @ [x]) d c1 h1 = (Inr (zs, r), h')"
    by (auto split: prod.splits sum.splits if_splits)
  note x = rec_soundD [OF assms(1) Suc.prems(1) 1]
  then have "length c1 < 2 ^ 55" "keys_differ (ys @ [x])"
    using Suc.prems(1,2) nd by (simp_all add: keys_differ_snoc)
  from Suc.IH [OF this 2] obtain xs where
    "zs = (ys @ [x]) @ xs" "length xs = n" "c1 = concat (map encode_write xs) @ r"
    "\<forall>x \<in> set xs. decoded d x" "keys_differ zs" "elems_typed KMap e (Suc (length ys)) xs"
    by auto
  with x ty show ?case
    by (intro exI [of _ "x # xs"]) (simp add: elem_ty_checked_def)
qed simp

section \<open>One level of the decoder\<close>

text \<open>A successful decode starts with a header that names a type; with that header the switch
  takes one branch.\<close>

lemma wtake_hdr [simp]: "wtake 8 (put_u32 a @ put_u32 b @ c) = Some (put_u32 a @ put_u32 b, c)"
  using wtake_append [of "put_u32 a @ put_u32 b" 8 c] by simp

lemma wtake_count [simp]: "wtake 12 (put_u64 a @ put_u32 b @ c) = Some (put_u64 a @ put_u32 b, c)"
  using wtake_append [of "put_u64 a @ put_u32 b" 12 c] by simp

lemma hdr_split: "length p = 8 \<Longrightarrow> p = put_u32 (get_u32 p) @ put_u32 (get_u32 (drop 4 p))"
  using put_get_u32 [of "take 4 p"] put_get_u32 [of "drop 4 p"] by (simp add: get_u32_take)

lemma count_split: "length p = 12 \<Longrightarrow> p = put_u64 (get_u64 p) @ put_u32 (get_u32 (drop 8 p))"
  using put_get_u64 [of "take 8 p"] put_get_u32 [of "drop 8 p"] by (simp add: get_u64_take)

lemma decode_rec_hdr:
  assumes "decode_rec M d c h = (Inr (v, r), h')"
  obtains T tag c1 where "d \<le> 64" and "c = put_u32 (ty_num T) @ put_u32 tag @ c1"
proof -
  from assms obtain p c1 T where "d \<le> 64" and w: "wtake 8 c = Some (p, c1)" and "ty_cast (get_u32 p) = Some T"
    by (subst (asm) decode_rec.simps)
       (auto simp: GEAS_WIRE_MAX_DEPTH_def Let_def split: if_splits option.splits)
  then show thesis
    using that [of T "get_u32 (drop 4 p)" c1] wtake_SomeD [OF w] hdr_split [of p]
    by (auto simp: ty_cast_Some_iff)
qed

lemmas decode_rec_at = decode_rec.simps [of M d "put_u32 (ty_num T) @ put_u32 tag @ c" for M d T tag c]

lemma decode_rec_scalar:
  assumes "d \<le> 64" and "T \<in> {GEAS_TY_UNIT, GEAS_TY_INT, GEAS_TY_UINT, GEAS_TY_FLOAT, GEAS_TY_BOOL,
     GEAS_TY_BYTE, GEAS_TY_CHAR, GEAS_TY_STRING, GEAS_TY_PLEDGE_REF, GEAS_TY_INSTANCE}"
  shows "decode_rec M d (put_u32 (ty_num T) @ put_u32 tag @ c) h = decode_scalar M T tag c h"
  using assms by (subst decode_rec_at) (auto simp: GEAS_WIRE_MAX_DEPTH_def Let_def simp del: ty_num.simps)

text \<open>The array header after the value header: the count, and the element type of a list or map.\<close>

fun arr_fields :: "ArrKind \<Rightarrow> u64 \<Rightarrow> u32 \<Rightarrow> bytes" where
  "arr_fields k n e = put_u64 n @ (if k = KList \<or> k = KMap then put_u32 e else [])"

lemma arr_fields_split:
  assumes "wtake (if k = KList \<or> k = KMap then 12 else 8) c = Some (p, c')"
  obtains n e where "c = arr_fields k n e @ c'" "\<not> (k = KList \<or> k = KMap) \<Longrightarrow> e = 0"
  using wtake_SomeD [OF assms] count_split [of p] put_get_u64 [of p]
    that [of "get_u64 p" "if k = KList \<or> k = KMap then get_u32 (drop 8 p) else 0"]
  by (auto split: if_splits)

lemma decode_rec_list:
  "d \<le> 64 \<Longrightarrow>
   decode_rec M d (put_u32 (ty_num GEAS_TY_LIST) @ put_u32 tag @ arr_fields KList n e @ c) h =
     (if tag \<noteq> 0 \<or> \<not> tag_crosses e \<or> \<not> count_plausible c n then (Inl GEAS_ERR_TYPE, h)
      else case geas_list_new M e n h of
          (Inl st, h) \<Rightarrow> (Inl st, h)
        | (Inr out, h) \<Rightarrow> decode_list M (unat n) e out (Suc d) c h)"
  by (subst decode_rec_at) (simp add: GEAS_WIRE_MAX_DEPTH_def Let_def del: ty_num.simps split: prod.split sum.split)

lemma decode_rec_tuple:
  "d \<le> 64 \<Longrightarrow>
   decode_rec M d (put_u32 (ty_num GEAS_TY_TUPLE) @ put_u32 tag @ arr_fields KTuple n e @ c) h =
     (if tag \<noteq> 0 \<or> \<not> count_plausible c n then (Inl GEAS_ERR_TYPE, h)
      else case geas_tuple_new M n h of
          (Inl st, h) \<Rightarrow> (Inl st, h)
        | (Inr out, h) \<Rightarrow>
           (case decode_slots M (unat n) (Suc d) c h of
              (Inl st, h) \<Rightarrow> (Inl st, h)
            | (Inr (xs, c), h) \<Rightarrow> (Inr (fill_slots out xs, c), h)))"
  by (subst decode_rec_at) (simp add: GEAS_WIRE_MAX_DEPTH_def Let_def del: ty_num.simps split: prod.split sum.split)

lemma decode_rec_fields:
  "d \<le> 64 \<Longrightarrow> k = KRecord \<or> k = KSum \<Longrightarrow>
   decode_rec M d (put_u32 (ty_num (arr_ty k)) @ put_u32 tag @ arr_fields k n e @ c) h =
     (if k = KRecord \<and> tag \<noteq> 0 \<or> \<not> count_plausible c n then (Inl GEAS_ERR_TYPE, h)
      else case slots_new M k tag n 0 h of
          (Inl st, h) \<Rightarrow> (Inl st, h)
        | (Inr out, h) \<Rightarrow>
           (case decode_slots M (unat n) (Suc d) c h of
              (Inl st, h) \<Rightarrow> (Inl st, h)
            | (Inr (xs, c), h) \<Rightarrow> (Inr (fill_slots out xs, c), h)))"
  by (elim disjE; hypsubst; subst decode_rec_at)
     (simp_all add: GEAS_WIRE_MAX_DEPTH_def Let_def del: ty_num.simps split: prod.split sum.split)

lemma decode_rec_map:
  "d \<le> 64 \<Longrightarrow>
   decode_rec M d (put_u32 (ty_num GEAS_TY_MAP) @ put_u32 tag @ arr_fields KMap n e @ c) h =
     (if tag \<noteq> 0 \<or> n mod 2 \<noteq> 0 \<or> \<not> tag_keyable e \<or> \<not> count_plausible c n then (Inl GEAS_ERR_TYPE, h)
      else case slots_new M KMap tag n e h of
          (Inl st, h) \<Rightarrow> (Inl st, h)
        | (Inr out, h) \<Rightarrow>
           (case decode_map M (unat n) e [] (Suc d) c h of
              (Inl st, h) \<Rightarrow> (Inl st, h)
            | (Inr (xs, c), h) \<Rightarrow> (Inr (fill_slots out xs, c), h)))"
  by (subst decode_rec_at) (simp add: GEAS_WIRE_MAX_DEPTH_def Let_def del: ty_num.simps split: prod.split sum.split)

lemma decode_rec_box:
  "d \<le> 64 \<Longrightarrow>
   decode_rec M d (put_u32 (ty_num (box_ty k)) @ put_u32 tag @ c) h =
     (if 1 < tag then (Inl GEAS_ERR_TYPE, h)
      else if k = KOption \<and> tag = 0 then (Inr (VBox k tag None, c), h)
      else case geas_box M h of
          (False, h) \<Rightarrow> (Inl GEAS_ERR_OOM, h)
        | (True, h) \<Rightarrow>
           (case decode_rec M (Suc d) c h of
              (Inl st, h) \<Rightarrow> (Inl st, h)
            | (Inr (v, c), h) \<Rightarrow> (Inr (VBox k tag (Some v), c), h)))"
  by (cases k; subst decode_rec_at) (simp_all add: GEAS_WIRE_MAX_DEPTH_def Let_def del: ty_num.simps split: prod.split sum.split bool.split)

section \<open>Soundness at every depth\<close>

lemma scalar_sound:
  assumes "decode_scalar M T tag c h = (Inr (v, r), h')" and "d \<le> 64" and "length c < 2 ^ 55"
  shows "put_u32 (ty_num T) @ put_u32 tag @ c = encode_write v @ r \<and> decoded d v"
proof -
  have tag: "tag = 0" using assms(1) by (auto simp: decode_scalar_def split: if_splits)
  show ?thesis
    using assms unfolding decode_scalar_def tag
    by (cases T, auto simp: decoded_def not_less length_Suc_conv unat_of_nat64
          split: option.splits prod.splits if_splits
          dest!: wtake_SomeD string_copy_outcome simp del: ty_num.simps)
       (metis put_get_u64)+
qed

lemma plausible_small:
  assumes "count_plausible c n" and "length c < 2 ^ 55"
  shows "unat n < 2 ^ 52"
  using assms by (simp add: count_plausible_def)

lemma slots_arr_sound:
  assumes "rec_sound M (Suc d)" and "length c < 2 ^ 55" and "count_plausible c n"
    and "out = VArr k tag (if n = 0 then LNull 0 0 e else LData (replicate (unat n) gv_zero) n e)"
    and "decode_slots M (unat n) (Suc d) c h = (Inr (xs, r), h')"
    and "k = KTuple \<or> k = KRecord \<or> k = KSum" and "k \<noteq> KSum \<Longrightarrow> tag = 0" and "d \<le> 64"
  shows "put_u32 (ty_num (arr_ty k)) @ put_u32 tag @ arr_fields k n e' @ c =
      encode_write (fill_slots out xs) @ r \<and> decoded d (fill_slots out xs)"
proof -
  note xs = slots_sound [OF assms(1,2,5)]
  note small = plausible_small [OF assms(3,2)]
  have untyped: "elems_typed k e i ys" for i ys
    using assms(6) by (induction ys arbitrary: i) (auto simp: elem_ty_checked_def)
  have n: "(of_nat (length xs) :: u64) = n" using xs by simp
  show ?thesis
    using xs small assms(4,6,7,8) untyped n
    by (auto simp: decoded_def simp del: ty_num.simps)
qed

lemma slots_new_out:
  "slots_new M k tag n e h = (Inr out, h') \<Longrightarrow>
     out = VArr k tag (if n = 0 then LNull 0 0 e else LData (replicate (unat n) gv_zero) n e)"
  by (auto simp: slots_new_def split: if_splits prod.splits bool.splits)

lemma tuple_new_out:
  "geas_tuple_new M n h = (Inr out, h') \<Longrightarrow>
     out = VArr KTuple 0 (if n = 0 then LNull 0 0 0 else LData (replicate (unat n) gv_zero) n 0)"
  by (auto simp: geas_tuple_new_def split: if_splits prod.splits bool.splits)

lemma list_new_out:
  "geas_list_new M e n h = (Inr out, h') \<Longrightarrow>
     out = VArr KList 0 (if n = 0 then LNull 0 0 e else LData [] n e)"
  by (auto simp: geas_list_new_def split: if_splits prod.splits bool.splits)

lemma sound_list:
  assumes "rec_sound M (Suc d)" and "d \<le> 64" and "length c < 2 ^ 55"
    and "decode_rec M d (put_u32 (ty_num GEAS_TY_LIST) @ put_u32 tag @ arr_fields KList n e @ c) h = (Inr (v, r), h')"
  shows "put_u32 (ty_num GEAS_TY_LIST) @ put_u32 tag @ arr_fields KList n e @ c = encode_write v @ r \<and> decoded d v"
proof -
  from assms(4) obtain out h1 where tag: "tag = 0" and cr: "tag_crosses e" and pl: "count_plausible c n"
    and new: "geas_list_new M e n h = (Inr out, h1)"
    and dl: "decode_list M (unat n) e out (Suc d) c h1 = (Inr (v, r), h')"
    unfolding decode_rec_list [OF assms(2)] by (auto split: if_splits prod.splits sum.splits)
  show ?thesis
  proof (cases "n = 0")
    case True
    with dl list_new_out [OF new] tag cr assms(2) show ?thesis
      by (auto simp: decoded_def simp del: ty_num.simps)
  next
    case False
    then have out: "out = VArr KList 0 (LData [] n e)" using list_new_out [OF new] by simp
    from list_sound [OF assms(1,3) _ dl [unfolded out]] obtain xs where
      v: "v = VArr KList 0 (LData xs n e)" and xs: "length xs = unat n"
      "c = concat (map encode_write xs) @ r" "\<forall>x \<in> set xs. decoded (Suc d) x \<and> gv_ty x = e"
      by auto
    have ty: "elems_typed KList e i ys" if "\<forall>x \<in> set ys. gv_ty x = e" for i ys
      using that by (induction ys arbitrary: i) auto
    have n: "(of_nat (length xs) :: u64) = n" using xs by simp
    show ?thesis
      using plausible_small [OF pl assms(3)] xs ty [of xs] n tag cr assms(2)
      by (auto simp: v decoded_def simp del: ty_num.simps)
  qed
qed

lemma sound_map:
  assumes "rec_sound M (Suc d)" and "d \<le> 64" and "length c < 2 ^ 55"
    and "decode_rec M d (put_u32 (ty_num GEAS_TY_MAP) @ put_u32 tag @ arr_fields KMap n e @ c) h = (Inr (v, r), h')"
  shows "put_u32 (ty_num GEAS_TY_MAP) @ put_u32 tag @ arr_fields KMap n e @ c = encode_write v @ r \<and> decoded d v"
proof -
  from assms(4) obtain out h1 xs where ok: "tag = 0" "n mod 2 = 0" "tag_keyable e" and pl: "count_plausible c n"
    and new: "slots_new M KMap tag n e h = (Inr out, h1)"
    and dm: "decode_map M (unat n) e [] (Suc d) c h1 = (Inr (xs, r), h')"
    and v: "v = fill_slots out xs"
    unfolding decode_rec_map [OF assms(2)] by (auto split: if_splits prod.splits sum.splits)
  have "keys_differ []" by (simp add: keys_differ_def)
  from map_sound [OF assms(1,3) this dm] have xs: "length xs = unat n"
    "c = concat (map encode_write xs) @ r" "\<forall>x \<in> set xs. decoded (Suc d) x"
    "keys_differ xs" "elems_typed KMap e 0 xs" by auto
  have n: "(of_nat (length xs) :: u64) = n" using xs by simp
  have "keys_differ []" by (simp add: keys_differ_def)
  then show ?thesis
    using plausible_small [OF pl assms(3)] xs n ok assms(2) slots_new_out [OF new]
    by (cases "n = 0") (auto simp: v decoded_def simp del: ty_num.simps)
qed

lemma sound_fields:
  assumes "rec_sound M (Suc d)" and "d \<le> 64" and "length c < 2 ^ 55" and k: "k = KRecord \<or> k = KSum"
    and "decode_rec M d (put_u32 (ty_num (arr_ty k)) @ put_u32 tag @ arr_fields k n e @ c) h = (Inr (v, r), h')"
  shows "put_u32 (ty_num (arr_ty k)) @ put_u32 tag @ arr_fields k n e @ c = encode_write v @ r \<and> decoded d v"
proof -
  from assms(5) obtain out h1 xs where ok: "k \<noteq> KSum \<Longrightarrow> tag = 0" and pl: "count_plausible c n"
    and new: "slots_new M k tag n 0 h = (Inr out, h1)"
    and ds: "decode_slots M (unat n) (Suc d) c h1 = (Inr (xs, r), h')" and v: "v = fill_slots out xs"
    unfolding decode_rec_fields [OF assms(2) k] using k by (auto split: if_splits prod.splits sum.splits)
  show ?thesis
    unfolding v using k ok
    by (intro slots_arr_sound [OF assms(1,3) pl slots_new_out [OF new] ds _ _ assms(2)]) auto
qed

lemma rec_sound_step:
  assumes IH: "rec_sound M (Suc d)"
  shows "rec_sound M d"
  unfolding rec_sound_def
proof (intro allI impI)
  fix c h v r h'
  assume len: "length c < 2 ^ 55" and dec: "decode_rec M d c h = (Inr (v, r), h')"
  obtain T tag c1 where d: "d \<le> 64" and c: "c = put_u32 (ty_num T) @ put_u32 tag @ c1"
    using dec by (rule decode_rec_hdr)
  have c1: "length c1 < 2 ^ 55" using len c by simp
  consider (scalar) "T \<in> {GEAS_TY_UNIT, GEAS_TY_INT, GEAS_TY_UINT, GEAS_TY_FLOAT, GEAS_TY_BOOL,
       GEAS_TY_BYTE, GEAS_TY_CHAR, GEAS_TY_STRING, GEAS_TY_PLEDGE_REF, GEAS_TY_INSTANCE}"
    | (arr) k where "T = arr_ty k" | (box) k where "T = box_ty k"
    by (cases T) (auto intro: arr_ty.simps [symmetric] box_ty.simps [symmetric])
  then show "c = encode_write v @ r \<and> decoded d v"
  proof cases
    case scalar
    then show ?thesis
      using dec c d c1 scalar_sound [of M T tag c1 h v r h' d] by (simp add: decode_rec_scalar)
  next
    case arr
    have "\<exists>p c2. wtake (if k = KList \<or> k = KMap then 12 else 8) c1 = Some (p, c2)"
      using dec unfolding c arr by (subst (asm) decode_rec_at)
        (cases k; auto split: if_splits option.splits simp: Let_def simp del: ty_num.simps)
    then obtain p c2 where w: "wtake (if k = KList \<or> k = KMap then 12 else 8) c1 = Some (p, c2)"
      by blast
    obtain n e where f: "c1 = arr_fields k n e @ c2" using w by (rule arr_fields_split)
    have c2: "length c2 < 2 ^ 55" using c1 f by simp
    show ?thesis
    proof (cases k)
      case KList
      then show ?thesis using sound_list [OF IH d c2] dec c f arr by simp
    next
      case KMap
      then show ?thesis using sound_map [OF IH d c2] dec c f arr by simp
    next
      case KTuple
      then obtain out h1 xs where "tag = 0" "count_plausible c2 n" "geas_tuple_new M n h = (Inr out, h1)"
        "decode_slots M (unat n) (Suc d) c2 h1 = (Inr (xs, r), h')" "v = fill_slots out xs"
        using dec decode_rec_tuple [OF d] unfolding c f arr
        by (auto split: if_splits prod.splits sum.splits simp del: arr_fields.simps)
      then show ?thesis
        using slots_arr_sound [OF IH c2, of n out KTuple tag 0 h1 xs r h' e] KTuple d
        by (simp add: c f arr tuple_new_out)
    next
      case KRecord
      then show ?thesis using sound_fields [OF IH d c2, of k] dec c f arr by blast
    next
      case KSum
      then show ?thesis using sound_fields [OF IH d c2, of k] dec c f arr by blast
    qed
  next
    case box
    show ?thesis
      using dec unfolding c box decode_rec_box [OF d]
      using rec_soundD [OF IH c1] d
      by (auto simp: decoded_def not_less word_le_1_iff split: if_splits prod.splits sum.splits bool.splits
          simp del: ty_num.simps)
  qed
qed

lemma rec_sound_all: "rec_sound M d"
proof (induction "65 - d" arbitrary: d)
  case 0
  then have deep: "GEAS_WIRE_MAX_DEPTH < d" by (simp add: GEAS_WIRE_MAX_DEPTH_def)
  have "decode_rec M d c h = (Inl GEAS_ERR_TYPE, h)" for c h
    by (subst decode_rec.simps) (rule if_P [OF deep])
  then show ?case by (simp add: rec_sound_def)
next
  case (Suc n)
  then show ?case by - (rule rec_sound_step, simp)
qed

end
