(* ===== verification/Geas_Wire_Roundtrip.thy ===== *)
theory Geas_Wire_Roundtrip
  imports Geas_Wire_Decode
begin

text \<open>
  The completeness half of the codec: what the encoder writes for a value the decoder reads back,
  as that value with fresh buffers, and leaves the bytes that follow alone.
\<close>

section \<open>What the decoder rebuilds\<close>

text \<open>Strings get fresh bytes, arrays the capacity of their length; the element type field is on
  the wire for lists and maps only.\<close>

fun wire_norm :: "GeasValue \<Rightarrow> GeasValue" where
  "wire_norm (VString g s) = VString 0 (SBytes (str_bytes s))"
| "wire_norm (VArr k g l) =
     (let e = (if k = KList \<or> k = KMap then list_elem_ty l else 0)
      in VArr k g (if list_len l = 0 then LNull 0 0 e
                   else LData (map wire_norm (list_elems l)) (list_len l) e))"
| "wire_norm (VBox k g b) = VBox k g (case b of None \<Rightarrow> None | Some v \<Rightarrow> Some (wire_norm v))"
| "wire_norm v = v"

lemma gv_ty_wire_norm [simp]: "gv_ty (wire_norm v) = gv_ty v"
  by (cases v) (simp_all add: Let_def)

lemma wire_norm_key:
  assumes "tag_keyable (gv_ty v)"
  shows "wire_norm v = norm_value v"
  using assms by (cases v; (cases "x91 :: ArrKind")?)
     (auto simp: tag_keyable_def simp del: ty_num.simps split: option.splits
       elim: arr_ty.elims box_ty.elims)

lemma evens_map: "evens (map f xs) = map f (evens xs)"
  by (induction xs rule: evens.induct) auto

lemma elems_typed_map: "elems_typed k e i (map wire_norm xs) = elems_typed k e i xs"
  by (induction xs arbitrary: i) auto

lemma elems_typed_evens:
  "elems_typed KMap e i xs \<Longrightarrow> even i \<Longrightarrow> x \<in> set (evens xs) \<Longrightarrow> gv_ty x = e"
  by (induction xs arbitrary: i rule: evens.induct) (auto simp: elem_ty_checked_def)

lemma set_evens: "set (evens xs) \<subseteq> set xs"
  by (induction xs rule: evens.induct) auto

lemma keys_differ_norm:
  assumes "elems_typed KMap e 0 xs" and "tag_keyable e" and "\<forall>x \<in> set xs. wf_value x"
  shows "keys_differ (map wire_norm xs) = keys_differ xs"
proof -
  have key: "wire_norm x = norm_value x \<and> wf_value x" if "x \<in> set (evens xs)" for x
    using that assms set_evens [of xs] elems_typed_evens [OF assms(1) _ that] wire_norm_key [of x] by auto
  have "geas_value_eq (wire_norm a) (wire_norm b) = geas_value_eq a b"
    if "a \<in> set (evens xs)" "b \<in> set (evens xs)" for a b
    using key [OF that(1)] key [OF that(2)] by (metis value_eq_norm_left value_eq_sym(1))
  then show ?thesis
    by (auto simp: keys_differ_def evens_map sorted_wrt_map elim!: sorted_wrt_mono_rel [rotated])
qed

lemma encode_write_ge8: "8 \<le> length (encode_write v)"
  by (cases v) simp_all

lemma encode_elems_ge8: "8 * length xs \<le> length (concat (map encode_write xs))"
proof (induction xs)
  case (Cons x xs)
  then show ?case using encode_write_ge8 [of x] by simp
qed simp

section \<open>The element loops\<close>

definition reads_back :: "malloc \<Rightarrow> nat \<Rightarrow> GeasValue \<Rightarrow> bool" where
  "reads_back M d v \<longleftrightarrow>
     (\<forall>r h. \<exists>h'. decode_rec M d (encode_write v @ r) h = (Inr (wire_norm v, r), h'))"

lemma reads_backD:
  assumes "reads_back M d v"
  obtains h' where "decode_rec M d (encode_write v @ r) h = (Inr (wire_norm v, r), h')"
  using assms unfolding reads_back_def by blast

lemma slots_read_back:
  assumes "\<forall>x \<in> set xs. reads_back M d x"
  shows "\<exists>h'. decode_slots M (length xs) d (concat (map encode_write xs) @ r) h =
     (Inr (map wire_norm xs, r), h')"
  using assms
proof (induction xs arbitrary: h)
  case (Cons x xs)
  then have "reads_back M d x" by simp
  then obtain h1 where 1: "decode_rec M d (encode_write x @ concat (map encode_write xs) @ r) h =
      (Inr (wire_norm x, concat (map encode_write xs) @ r), h1)"
    by (rule reads_backD)
  obtain h2 where "decode_slots M (length xs) d (concat (map encode_write xs) @ r) h1 =
      (Inr (map wire_norm xs, r), h2)"
    using Cons.IH [of h1] Cons.prems by auto
  with 1 show ?case by simp
qed simp

lemma list_read_back:
  assumes "\<forall>x \<in> set xs. reads_back M d x \<and> gv_ty x = e" and "length ys + length xs \<le> unat cap"
  shows "\<exists>h'. decode_list M (length xs) e (VArr KList 0 (LData ys cap e)) d
      (concat (map encode_write xs) @ r) h =
     (Inr (VArr KList 0 (LData (ys @ map wire_norm xs) cap e), r), h')"
  using assms
proof (induction xs arbitrary: h ys)
  case (Cons x xs)
  then have "reads_back M d x" by simp
  then obtain h1 where 1: "decode_rec M d (encode_write x @ concat (map encode_write xs) @ r) h =
      (Inr (wire_norm x, concat (map encode_write xs) @ r), h1)"
    by (rule reads_backD)
  obtain h2 where "decode_list M (length xs) e (VArr KList 0 (LData (ys @ [wire_norm x]) cap e)) d
      (concat (map encode_write xs) @ r) h1 =
      (Inr (VArr KList 0 (LData ((ys @ [wire_norm x]) @ map wire_norm xs) cap e), r), h2)"
    using Cons.IH [of "ys @ [wire_norm x]" h1] Cons.prems by auto
  with 1 Cons.prems show ?case by (simp add: push_spare)
qed simp

lemma keys_differ_prefix: "keys_differ (xs @ ys) \<Longrightarrow> keys_differ xs"
proof (induction ys rule: rev_induct)
  case (snoc y ys)
  then show ?case using keys_differ_snoc [of "xs @ ys" y] by simp
qed simp

lemma map_read_back:
  assumes "\<forall>x \<in> set xs. reads_back M d x" and "elems_typed KMap e (length ys) xs"
    and "keys_differ (ys @ map wire_norm xs)"
  shows "\<exists>h'. decode_map M (length xs) e ys d (concat (map encode_write xs) @ r) h =
     (Inr (ys @ map wire_norm xs, r), h')"
  using assms
proof (induction xs arbitrary: h ys)
  case (Cons x xs)
  then have "reads_back M d x" by simp
  then obtain h1 where 1: "decode_rec M d (encode_write x @ concat (map encode_write xs) @ r) h =
      (Inr (wire_norm x, concat (map encode_write xs) @ r), h1)"
    by (rule reads_backD)
  have "keys_differ (ys @ [wire_norm x])"
    using Cons.prems(3) keys_differ_prefix [of "ys @ [wire_norm x]" "map wire_norm xs"] by simp
  then have fresh: "even (length ys) \<longrightarrow> \<not> list_ex (\<lambda>(k, _). geas_value_eq k (wire_norm x)) (pairs ys)"
    by (simp add: keys_differ_snoc)
  obtain h2 where 2: "decode_map M (length xs) e (ys @ [wire_norm x]) d (concat (map encode_write xs) @ r) h1 =
      (Inr ((ys @ [wire_norm x]) @ map wire_norm xs, r), h2)"
    using Cons.IH [of "ys @ [wire_norm x]" h1] Cons.prems by auto
  have "even (length ys) \<longrightarrow> gv_ty x = e" using Cons.prems(2) by (simp add: elem_ty_checked_def)
  then have "\<not> (even (length ys) \<and> gv_ty (wire_norm x) \<noteq> e)" by simp
  moreover have "\<not> (even (length ys) \<and> list_ex (\<lambda>(k, _). geas_value_eq k (wire_norm x)) (pairs ys))"
    using fresh by blast
  ultimately show ?case using 1 2 by (simp only: list.size decode_map.simps list.map concat.simps append_assoc
      prod.case sum.case if_False simp_thms) simp
qed simp

section \<open>Round trip\<close>

lemma plausible_encoded:
  assumes "wf_value (VArr k g l)"
  shows "count_plausible (concat (map encode_write (list_elems l)) @ r) (list_len l)"
    and "unat (list_len l) = length (list_elems l)"
proof -
  show len: "unat (list_len l) = length (list_elems l)"
    using wf_list_elems [OF assms] by (simp add: unat_of_nat64)
  show "count_plausible (concat (map encode_write (list_elems l)) @ r) (list_len l)"
    using encode_elems_ge8 [of "list_elems l"] len by (simp add: count_plausible_def)
qed

lemma elems_typed_list: "elems_typed KList e i xs \<longleftrightarrow> (\<forall>x \<in> set xs. gv_ty x = e)"
  by (induction xs arbitrary: i) (auto simp: elem_ty_checked_def)

lemma new_array:
  assumes "\<forall>i. M i"
  shows "\<exists>h'. geas_list_new M e n h = (Inr (VArr KList 0 (if n = 0 then LNull 0 0 e else LData [] n e)), h')"
    and "\<exists>h'. geas_tuple_new M n h = (Inr (VArr KTuple 0 (if n = 0 then LNull 0 0 0 else
           LData (replicate (unat n) gv_zero) n 0)), h')"
    and "\<exists>h'. slots_new M k g n e h = (Inr (VArr k g (if n = 0 then LNull 0 0 e else
           LData (replicate (unat n) gv_zero) n e)), h')"
  using assms by (simp_all add: geas_list_new_def geas_tuple_new_def slots_new_def geas_bytes_def)

lemma arr_read_back:
  assumes M: "\<forall>i. M i" and d: "d \<le> 64" and wf: "wf_value (VArr k g l)" and head: "arr_head_ok k g l"
    and typed: "elems_typed k (list_elem_ty l) 0 (list_elems l)"
    and keys: "k = KMap \<longrightarrow> keys_differ (list_elems l)"
    and IH: "\<forall>x \<in> set (list_elems l). reads_back M (Suc d) x"
  shows "reads_back M d (VArr k g l)"
  unfolding reads_back_def
proof (intro allI)
  fix r h
  let ?n = "list_len l" and ?e = "list_elem_ty l" and ?xs = "list_elems l"
  let ?c = "concat (map encode_write ?xs) @ r"
  have enc: "encode_write (VArr k g l) @ r = put_u32 (ty_num (arr_ty k)) @ put_u32 g @ arr_fields k ?n ?e @ ?c"
    by simp
  note pl = plausible_encoded(1) [OF wf, of r] and len = plausible_encoded(2) [OF wf]
  have nil: "?n = 0 \<longleftrightarrow> ?xs = []" by (rule wf_list_elems(3) [OF wf])
  show "\<exists>h'. decode_rec M d (encode_write (VArr k g l) @ r) h = (Inr (wire_norm (VArr k g l), r), h')"
  proof (cases k)
    case KList
    obtain h1 where new: "geas_list_new M ?e ?n h =
        (Inr (VArr KList 0 (if ?n = 0 then LNull 0 0 ?e else LData [] ?n ?e)), h1)"
      using new_array(1) [OF M] by blast
    have "\<exists>h'. decode_list M (length ?xs) ?e (VArr KList 0 (LData [] ?n ?e)) (Suc d) ?c h1 =
        (Inr (VArr KList 0 (LData ([] @ map wire_norm ?xs) ?n ?e), r), h')"
      by (rule list_read_back) (use IH typed KList len in \<open>simp_all add: elems_typed_list\<close>)
    then show ?thesis
      using new head KList pl len nil unfolding enc unfolding KList arr_ty.simps decode_rec_list [OF d] by auto
  next
    case KMap
    obtain h1 where new: "slots_new M KMap g ?n ?e h = (Inr (VArr KMap g (if ?n = 0 then LNull 0 0 ?e else
           LData (replicate (unat ?n) gv_zero) ?n ?e)), h1)"
      using new_array(3) [OF M] by blast
    have "keys_differ (map wire_norm ?xs)"
      using keys typed head wf KMap keys_differ_norm [of ?e ?xs] by simp
    then have "\<exists>h'. decode_map M (length ?xs) ?e [] (Suc d) ?c h1 = (Inr ([] @ map wire_norm ?xs, r), h')"
      by (intro map_read_back) (use IH typed KMap in simp_all)
    then show ?thesis
      using new head KMap pl len nil unfolding enc unfolding KMap arr_ty.simps decode_rec_map [OF d] by auto
  next
    case KTuple
    obtain h1 where new: "geas_tuple_new M ?n h = (Inr (VArr KTuple 0 (if ?n = 0 then LNull 0 0 0 else
           LData (replicate (unat ?n) gv_zero) ?n 0)), h1)"
      using new_array(2) [OF M] by blast
    show ?thesis
      using new head pl len nil slots_read_back [OF IH, of r h1]
      unfolding enc unfolding KTuple arr_ty.simps decode_rec_tuple [OF d] by auto
  next
    case KRecord
    obtain h1 where new: "slots_new M KRecord g ?n 0 h = (Inr (VArr KRecord g (if ?n = 0 then LNull 0 0 0 else
           LData (replicate (unat ?n) gv_zero) ?n 0)), h1)"
      using new_array(3) [OF M] by blast
    show ?thesis
      using new head pl len nil slots_read_back [OF IH, of r h1] KRecord
      unfolding enc unfolding decode_rec_fields [OF d disjI1 [OF KRecord]] by auto
  next
    case KSum
    obtain h1 where new: "slots_new M KSum g ?n 0 h = (Inr (VArr KSum g (if ?n = 0 then LNull 0 0 0 else
           LData (replicate (unat ?n) gv_zero) ?n 0)), h1)"
      using new_array(3) [OF M] by blast
    show ?thesis
      using new head pl len nil slots_read_back [OF IH, of r h1] KSum
      unfolding enc unfolding decode_rec_fields [OF d disjI2 [OF KSum]] by auto
  qed
qed

lemma scalar_read_back:
  assumes M: "\<forall>i. M i" and "wire_ok d v" and "wf_value v" and "\<forall>k g l. v \<noteq> VArr k g l" and "\<forall>k g b. v \<noteq> VBox k g b"
  shows "reads_back M d v"
proof -
  have d: "d \<le> 64" and g: "gv_tag v = 0" using assms by (cases v; simp)+
  show ?thesis
  proof (cases v)
    case (VString g' s)
    note s = wf_str_bytes [OF assms(3) [unfolded VString]]
    then have "unat (str_len s) = length (str_bytes s)" by (simp add: unat_of_nat64)
    then show ?thesis
      using d g M unfolding reads_back_def VString
      by (simp add: decode_rec_scalar decode_scalar_def geas_string_copy_def geas_bytes_def
          del: ty_num.simps)
  qed (use assms d g in \<open>auto simp: reads_back_def decode_rec_scalar decode_scalar_def not_less
          wtake_def simp del: ty_num.simps\<close>)
qed

lemma reads_back_all:
  "\<forall>i. M i \<Longrightarrow> wire_ok d v \<Longrightarrow> wf_value v \<Longrightarrow> map_unique v \<Longrightarrow> reads_back M d v"
proof (induction v arbitrary: d rule: wire_norm.induct)
  case (2 k g l)
  show ?case
  proof (rule arr_read_back [OF 2(2)])
    show "\<forall>x \<in> set (list_elems l). reads_back M (Suc d) x"
    proof
      fix x assume x: "x \<in> set (list_elems l)"
      then have "list_len l \<noteq> 0" using wf_list_elems(3) [OF 2(4)] by auto
      then show "reads_back M (Suc d) x"
        by (rule 2(1) [OF refl _ x 2(2)]) (use 2(3-5) x in auto)
    qed
  qed (use 2 in auto)
next
  case (3 k g b)
  then have d: "d \<le> 64" by simp
  show ?case
  proof (cases b)
    case None
    then show ?thesis
      using 3 d unfolding reads_back_def by (auto simp: decode_rec_box simp del: ty_num.simps box_ty.simps)
  next
    case (Some v)
    have "reads_back M (Suc d) v"
      by (rule 3(1) [OF Some 3(2)]) (use 3(3-5) Some in auto)
    have g: "\<not> 1 < g" "\<not> (k = KOption \<and> g = 0)" using 3(3) Some by (auto simp: not_less)
    then have enc: "encode_write (VBox k g b) = put_u32 (ty_num (box_ty k)) @ put_u32 g @ encode_write v"
      using Some by (auto simp: word_le_1_iff not_less)
    show ?thesis
      unfolding reads_back_def
    proof (intro allI)
      fix r h
      obtain h1 where box: "geas_box M h = (True, h1)" using 3(2) by (auto simp: geas_box_def geas_bytes_def)
      obtain h2 where "decode_rec M (Suc d) (encode_write v @ r) h1 = (Inr (wire_norm v, r), h2)"
        using \<open>reads_back M (Suc d) v\<close> by (rule reads_backD)
      then have "decode_rec M d (encode_write (VBox k g b) @ r) h = (Inr (wire_norm (VBox k g b), r), h2)"
        using g box Some unfolding enc append_assoc decode_rec_box [OF d] by auto
      then show "\<exists>h'. decode_rec M d (encode_write (VBox k g b) @ r) h = (Inr (wire_norm (VBox k g b), r), h')" ..
    qed
  qed
qed (auto intro: scalar_read_back)

end
