(* ===== verification/Geas_Wire_Bounds.thy ===== *)
theory Geas_Wire_Bounds
  imports Geas_Wire_Roundtrip
begin

text \<open>
  What a payload can cost the receiver, whatever its bytes are: every failure of the decoder is
  the type error of a malformed payload or an allocation that really failed, every value it reads
  makes at most one allocation and pays for it with the eight bytes of its header, and no block is
  larger than a small multiple of the buffer.
\<close>

section \<open>Accounting\<close>

text \<open>\<open>run_ok M B n h rest r\<close>: the run \<open>r\<close> started on heap \<open>h\<close> with \<open>n\<close> bytes to read; \<open>rest\<close>
  gives the bytes a successful run leaves.\<close>

definition run_ok ::
    "malloc \<Rightarrow> nat \<Rightarrow> nat \<Rightarrow> heap \<Rightarrow> ('a \<Rightarrow> nat) \<Rightarrow> (GeasStatus + 'a) \<times> heap \<Rightarrow> bool" where
  "run_ok M B n h rest r \<longleftrightarrow>
     (\<exists>new. owned (snd r) = new @ owned h \<and> (\<forall>b \<in> set new. unat b \<le> B)) \<and>
     mcalls h \<le> mcalls (snd r) \<and>
     (case fst r of
        Inl st \<Rightarrow> 8 * (mcalls (snd r) - mcalls h) \<le> n \<and>
          (st = GEAS_ERR_TYPE \<or> st = GEAS_ERR_OOM \<and> alloc_failed M h (snd r))
      | Inr x \<Rightarrow> 8 * (mcalls (snd r) - mcalls h) + rest x \<le> n)"

lemma run_ok_fail [simp]: "run_ok M B n h rest (Inl GEAS_ERR_TYPE, h)"
  by (simp add: run_ok_def)

lemma run_ok_done: "rest x \<le> n \<Longrightarrow> run_ok M B n h rest (Inr x, h)"
  by (simp add: run_ok_def)

lemma run_ok_bind:
  assumes "run_ok M B n h rest (x, h1)"
    and "\<And>y. x = Inr y \<Longrightarrow> run_ok M B (rest y) h1 rest' (f y h1)"
  shows "run_ok M B n h rest' (case x of Inl st \<Rightarrow> (Inl st, h1) | Inr y \<Rightarrow> f y h1)"
proof (cases x)
  case (Inl st)
  with assms(1) show ?thesis by (simp add: run_ok_def)
next
  case (Inr y)
  obtain new where a: "owned h1 = new @ owned h" "\<forall>b \<in> set new. unat b \<le> B" "mcalls h \<le> mcalls h1"
    "8 * (mcalls h1 - mcalls h) + rest y \<le> n"
    using assms(1) Inr by (auto simp: run_ok_def)
  have b: "run_ok M B (rest y) h1 rest' (f y h1)" using assms(2) Inr .
  then obtain new' where c: "owned (snd (f y h1)) = new' @ owned h1" "\<forall>b \<in> set new'. unat b \<le> B"
    by (auto simp: run_ok_def)
  have "alloc_failed M h (snd (f y h1))" if "alloc_failed M h1 (snd (f y h1))"
    using that a(3) by (auto simp: alloc_failed_def intro: order_trans)
  then show ?thesis
    using a b c Inr by (auto simp: run_ok_def split: sum.splits)
qed

lemma run_ok_mono: "run_ok M B n h rest r \<Longrightarrow> n \<le> n' \<Longrightarrow> run_ok M B n' h rest r"
  by (auto simp: run_ok_def split: sum.splits)

text \<open>One allocation, paid for by eight bytes already read.\<close>

lemma run_ok_alloc:
  assumes "geas_bytes M sz h = (ok, h1)" and "unat (8 + sz) \<le> B"
  shows "run_ok M B (n + 8) h (\<lambda>_. n) (if ok then Inr x else Inl GEAS_ERR_OOM, h1)"
  using assms by (cases "M (mcalls h)") (auto simp: geas_bytes_def run_ok_def alloc_failed_def)

section \<open>The decoder's runs\<close>

abbreviation left :: "'a \<times> bytes \<Rightarrow> nat" where
  "left x \<equiv> length (snd x)"

definition rec_bound :: "malloc \<Rightarrow> nat \<Rightarrow> nat \<Rightarrow> bool" where
  "rec_bound M N d \<longleftrightarrow>
     (\<forall>c h. length c \<le> N \<longrightarrow> run_ok M (48 + 5 * N) (length c) h left (decode_rec M d c h))"

lemma run_ok_result:
  assumes "run_ok M B n h rest (Inr x, h1)"
  shows "rest x \<le> n"
  using assms by (simp add: run_ok_def)

lemma rec_boundD:
  "rec_bound M N d \<Longrightarrow> length c \<le> N \<Longrightarrow> run_ok M (48 + 5 * N) (length c) h left (decode_rec M d c h)"
  by (simp add: rec_bound_def)

lemma slots_bound:
  assumes "rec_bound M N d" and "length c \<le> N"
  shows "run_ok M (48 + 5 * N) (length c) h left (decode_slots M n d c h)"
  using assms(2)
proof (induction n arbitrary: c h)
  case (Suc n)
  obtain x h1 where r: "decode_rec M d c h = (x, h1)" by fastforce
  note rb = rec_boundD [OF assms(1) Suc.prems, of h, unfolded r]
  have "run_ok M (48 + 5 * N) (length c) h left (case x of Inl st \<Rightarrow> (Inl st, h1)
      | Inr y \<Rightarrow> (\<lambda>y h1. case decode_slots M n d (snd y) h1 of (z, h2) \<Rightarrow>
          (case z of Inl st \<Rightarrow> (Inl st, h2) | Inr w \<Rightarrow> (Inr (fst y # fst w, snd w), h2))) y h1)"
  proof (rule run_ok_bind [OF rb])
    fix y assume y: "x = Inr y"
    then have "length (snd y) \<le> N" using run_ok_result [OF rb [unfolded y]] Suc.prems by simp
    obtain z h2 where s: "decode_slots M n d (snd y) h1 = (z, h2)" by fastforce
    have "run_ok M (48 + 5 * N) (left y) h1 left (z, h2)"
      using Suc.IH [OF \<open>length (snd y) \<le> N\<close>, of h1] s by simp
    then have "run_ok M (48 + 5 * N) (left y) h1 left
        (case z of Inl st \<Rightarrow> (Inl st, h2) | Inr w \<Rightarrow> (\<lambda>w h2. (Inr (fst y # fst w, snd w), h2)) w h2)"
      by (rule run_ok_bind) (simp add: run_ok_done)
    with s show "run_ok M (48 + 5 * N) (left y) h1 left (case decode_slots M n d (snd y) h1 of
        (z, h2) \<Rightarrow> (case z of Inl st \<Rightarrow> (Inl st, h2) | Inr w \<Rightarrow> (Inr (fst y # fst w, snd w), h2)))"
      by simp
  qed
  then show ?case using r by (cases x) (auto split: prod.splits sum.splits)
qed (simp add: run_ok_done)

lemma map_bound:
  assumes "rec_bound M N d" and "length c \<le> N"
  shows "run_ok M (48 + 5 * N) (length c) h left (decode_map M n e ys d c h)"
  using assms(2)
proof (induction n arbitrary: c h ys)
  case (Suc n)
  obtain x h1 where r: "decode_rec M d c h = (x, h1)" by fastforce
  note rb = rec_boundD [OF assms(1) Suc.prems, of h, unfolded r]
  have "run_ok M (48 + 5 * N) (length c) h left (case x of Inl st \<Rightarrow> (Inl st, h1)
      | Inr y \<Rightarrow> (\<lambda>y h1. if even (length ys) \<and> (gv_ty (fst y) \<noteq> e \<or> list_ex (\<lambda>(k, _). geas_value_eq k (fst y)) (pairs ys))
          then (Inl GEAS_ERR_TYPE, h1) else decode_map M n e (ys @ [fst y]) d (snd y) h1) y h1)"
  proof (rule run_ok_bind [OF rb])
    fix y assume y: "x = Inr y"
    then have "length (snd y) \<le> N" using run_ok_result [OF rb [unfolded y]] Suc.prems by simp
    then show "run_ok M (48 + 5 * N) (left y) h1 left (if even (length ys) \<and>
        (gv_ty (fst y) \<noteq> e \<or> list_ex (\<lambda>(k, _). geas_value_eq k (fst y)) (pairs ys))
          then (Inl GEAS_ERR_TYPE, h1) else decode_map M n e (ys @ [fst y]) d (snd y) h1)"
      using Suc.IH by simp
  qed
  then show ?case
    by (cases x; cases "projr x"; simp add: r split: if_split_asm; blast?)
qed (simp add: run_ok_done)

lemma list_bound:
  assumes "rec_bound M N d" and "length c \<le> N" and "length ys + n \<le> unat cap"
  shows "run_ok M (48 + 5 * N) (length c) h left (decode_list M n e (VArr KList 0 (LData ys cap e)) d c h)"
  using assms(2,3)
proof (induction n arbitrary: c h ys)
  case (Suc n)
  obtain x h1 where r: "decode_rec M d c h = (x, h1)" by fastforce
  note rb = rec_boundD [OF assms(1) Suc.prems(1), of h, unfolded r]
  have "run_ok M (48 + 5 * N) (length c) h left (case x of Inl st \<Rightarrow> (Inl st, h1)
      | Inr y \<Rightarrow> (\<lambda>y h1. if gv_ty (fst y) \<noteq> e then (Inl GEAS_ERR_TYPE, h1)
          else decode_list M n e (VArr KList 0 (LData (ys @ [fst y]) cap e)) d (snd y) h1) y h1)"
  proof (rule run_ok_bind [OF rb])
    fix y assume y: "x = Inr y"
    then have "length (snd y) \<le> N" using run_ok_result [OF rb [unfolded y]] Suc.prems by simp
    then show "run_ok M (48 + 5 * N) (left y) h1 left (if gv_ty (fst y) \<noteq> e then (Inl GEAS_ERR_TYPE, h1)
          else decode_list M n e (VArr KList 0 (LData (ys @ [fst y]) cap e)) d (snd y) h1)"
      using Suc.IH [of "snd y" "ys @ [fst y]" h1] Suc.prems(2) by simp
  qed
  then show ?case
    using Suc.prems(2) by (cases x; cases "projr x") (simp_all add: r push_spare split: if_split_asm)
qed (simp add: run_ok_done)

text \<open>The allocations of one value.\<close>

lemma count_block:
  assumes "count_plausible c n" and "length c \<le> N" and "N < 2 ^ 55"
  shows "unat (8 + n * SIZEOF_VALUE) \<le> 48 + 5 * N"
proof -
  have n: "unat n * 8 \<le> N" using assms(1,2) by (auto simp: count_plausible_def)
  have "unat (8 + n * SIZEOF_VALUE) \<le> 8 + unat n * 40"
    by (simp add: SIZEOF_VALUE_def unat_word_ariths order_trans [OF mod_less_eq_dividend])
  with n show ?thesis by simp
qed

lemma new_bound:
  assumes "count_plausible c n" and "length c \<le> N" and "N < 2 ^ 55"
  shows "run_ok M (48 + 5 * N) (length c + 8) h (\<lambda>_. length c) (geas_list_new M e n h)"
    and "run_ok M (48 + 5 * N) (length c + 8) h (\<lambda>_. length c) (geas_tuple_new M n h)"
    and "run_ok M (48 + 5 * N) (length c + 8) h (\<lambda>_. length c) (slots_new M k g n e h)"
proof -
  obtain ok h1 where b: "geas_bytes M (n * SIZEOF_VALUE) h = (ok, h1)" by fastforce
  note al = run_ok_alloc [OF b count_block [OF assms], of "length c"]
  show "run_ok M (48 + 5 * N) (length c + 8) h (\<lambda>_. length c) (geas_list_new M e n h)"
    using al [of "VArr KList 0 (LData [] n e)"] b by (cases ok) (auto simp: geas_list_new_def run_ok_done)
  show "run_ok M (48 + 5 * N) (length c + 8) h (\<lambda>_. length c) (geas_tuple_new M n h)"
    using al [of "VArr KTuple 0 (LData (replicate (unat n) gv_zero) n 0)"] b
    by (cases ok) (auto simp: geas_tuple_new_def run_ok_done)
  show "run_ok M (48 + 5 * N) (length c + 8) h (\<lambda>_. length c) (slots_new M k g n e h)"
    using al [of "VArr k g (LData (replicate (unat n) gv_zero) n e)"] b
    by (cases ok) (auto simp: slots_new_def run_ok_done)
qed

lemma bind_fill:
  assumes "run_ok M B n h (\<lambda>_. m) r" and "\<And>h1. run_ok M B m h1 left (ds h1)"
  shows "run_ok M B n h left (case r of (Inl st, h) \<Rightarrow> (Inl st, h)
     | (Inr out, h) \<Rightarrow> (case ds h of (Inl st, h) \<Rightarrow> (Inl st, h) | (Inr (xs, c), h) \<Rightarrow> (Inr (F out xs, c), h)))"
proof -
  obtain x h1 where r: "r = (x, h1)" by fastforce
  have "run_ok M B n h left (case x of Inl st \<Rightarrow> (Inl st, h1) | Inr out \<Rightarrow>
      (\<lambda>out h1. case ds h1 of (z, h2) \<Rightarrow> (case z of Inl st \<Rightarrow> (Inl st, h2)
          | Inr w \<Rightarrow> (Inr (F out (fst w), snd w), h2))) out h1)"
  proof (rule run_ok_bind [OF assms(1) [unfolded r]])
    fix y
    obtain z h2 where s: "ds h1 = (z, h2)" by fastforce
    have "run_ok M B m h1 left
        (case z of Inl st \<Rightarrow> (Inl st, h2) | Inr w \<Rightarrow> (\<lambda>w h2. (Inr (F y (fst w), snd w), h2)) w h2)"
      by (rule run_ok_bind [OF assms(2) [of h1, unfolded s]]) (simp add: run_ok_done)
    with s show "run_ok M B m h1 left (case ds h1 of (z, h2) \<Rightarrow> (case z of Inl st \<Rightarrow> (Inl st, h2)
          | Inr w \<Rightarrow> (Inr (F y (fst w), snd w), h2)))" by simp
  qed
  then show ?thesis by (cases x) (auto simp: r split: prod.splits sum.splits)
qed

lemma run_ok_bind_pair:
  assumes "run_ok M B n h (\<lambda>_. m) r" and "\<And>y h1. r = (Inr y, h1) \<Longrightarrow> run_ok M B m h1 rest (f y h1)"
  shows "run_ok M B n h rest (case r of (Inl st, h) \<Rightarrow> (Inl st, h) | (Inr y, h) \<Rightarrow> f y h)"
  using run_ok_bind [of M B n h "\<lambda>_. m" "fst r" "snd r" rest f] assms
  by (cases r; cases "fst r") auto

lemma scalar_bound:
  assumes "length c \<le> N" and "N < 2 ^ 55"
  shows "run_ok M (48 + 5 * N) (length c + 8) h left (decode_scalar M T tag c h)"
proof (cases "T = GEAS_TY_STRING \<and> tag = 0")
  case True
  show ?thesis
  proof (cases "\<exists>p c1 bs c2. wtake 8 c = Some (p, c1) \<and> wtake (unat (get_u64 p)) c1 = Some (bs, c2)")
    case True
    then obtain p c1 bs c2 where w: "wtake 8 c = Some (p, c1)" "wtake (unat (get_u64 p)) c1 = Some (bs, c2)"
      by blast
    then have len: "length c = 8 + length bs + length c2"
      using wtake_SomeD [OF w(1)] wtake_SomeD [OF w(2)] by simp
    have le: "unat (8 + of_nat (length bs) :: u64) \<le> 48 + 5 * N"
      using len assms by (simp add: unat_word_ariths unat_of_nat64 order_trans [OF mod_less_eq_dividend])
    obtain ok h1 where b: "geas_bytes M (of_nat (length bs)) h = (ok, h1)" by fastforce
    have one: "mcalls h1 = Suc (mcalls h)" using b by (auto simp: geas_bytes_def split: if_splits)
    have "run_ok M (48 + 5 * N) (length c2 + 8) h (\<lambda>_. length c2)
        (if ok then Inr x else Inl GEAS_ERR_OOM, h1)" for x :: "GeasValue \<times> bytes"
      by (rule run_ok_alloc [OF b le])
    from this [of "(VString 0 (SBytes bs), c2)"] this [of "(VString 0 (SNull 0), c2)"]
    have "run_ok M (48 + 5 * N) (length c + 8) h left (decode_scalar M T tag c h)"
      using \<open>T = GEAS_TY_STRING \<and> tag = 0\<close> w b len one
      by (cases ok) (auto simp: decode_scalar_def geas_string_copy_def run_ok_def)
    then show ?thesis .
  next
    case False
    then have "decode_scalar M T tag c h = (Inl GEAS_ERR_TYPE, h)"
      using \<open>T = GEAS_TY_STRING \<and> tag = 0\<close> by (auto simp: decode_scalar_def split: option.splits)
    then show ?thesis by simp
  qed
next
  case False
  then have "snd (decode_scalar M T tag c h) = h \<and> (case fst (decode_scalar M T tag c h) of
      Inl st \<Rightarrow> st = GEAS_ERR_TYPE | Inr x \<Rightarrow> left x \<le> length c)"
    by (cases T) (auto simp: decode_scalar_def split: option.splits dest!: wtake_SomeD)
  then show ?thesis
    by (cases "decode_scalar M T tag c h") (auto simp: run_ok_def split: sum.splits)
qed

lemma arr_bound:
  assumes IH: "rec_bound M N (Suc d)" and N: "N < 2 ^ 55" and d: "d \<le> 64" and c: "length c \<le> N"
  shows "run_ok M (48 + 5 * N) (length c + 8) h left
     (decode_rec M d (put_u32 (ty_num (arr_ty k)) @ put_u32 tag @ arr_fields k n e @ c) h)"
proof (cases k)
  case KList
  show ?thesis
    unfolding KList arr_ty.simps decode_rec_list [OF d]
  proof (cases "tag \<noteq> 0 \<or> \<not> tag_crosses e \<or> \<not> count_plausible c n", goal_cases)
    case 2
    have "run_ok M (48 + 5 * N) (length c) h1 left (decode_list M (unat n) e out (Suc d) c h1)"
      if "geas_list_new M e n h = (Inr out, h1)" for out h1
      using list_new_out [OF that] list_bound [OF IH c, of "[]" "unat n" n h1 e]
      by (cases "n = 0") (auto simp: run_ok_done)
    then show ?case using 2 new_bound(1) [OF _ c N] by (auto intro!: run_ok_bind_pair)
  qed simp
next
  case KMap
  show ?thesis
    unfolding KMap arr_ty.simps decode_rec_map [OF d]
    using new_bound(3) [OF _ c N] map_bound [OF IH c] by (auto intro!: bind_fill)
next
  case KTuple
  show ?thesis
    unfolding KTuple arr_ty.simps decode_rec_tuple [OF d]
    using new_bound(2) [OF _ c N] slots_bound [OF IH c] by (auto intro!: bind_fill)
next
  case KRecord
  show ?thesis
    unfolding decode_rec_fields [OF d disjI1 [OF KRecord]]
    using new_bound(3) [OF _ c N] slots_bound [OF IH c] by (auto intro!: bind_fill)
next
  case KSum
  show ?thesis
    unfolding decode_rec_fields [OF d disjI2 [OF KSum]]
    using new_bound(3) [OF _ c N] slots_bound [OF IH c] by (auto intro!: bind_fill)
qed

lemma box_bound:
  assumes IH: "rec_bound M N (Suc d)" and d: "d \<le> 64" and c: "length c \<le> N"
  shows "run_ok M (48 + 5 * N) (length c + 8) h left
     (decode_rec M d (put_u32 (ty_num (box_ty k)) @ put_u32 tag @ c) h)"
proof -
  obtain ok h1 where b: "geas_box M h = (ok, h1)" by fastforce
  have al: "run_ok M (48 + 5 * N) (length c + 8) h (\<lambda>_. length c) (if ok then Inr () else Inl GEAS_ERR_OOM, h1)"
    using b by (intro run_ok_alloc [of M SIZEOF_VALUE]) (simp_all add: geas_box_def SIZEOF_VALUE_def)
  show ?thesis
    unfolding decode_rec_box [OF d]
    using bind_fill [OF al rec_boundD [OF IH c], of "\<lambda>_ v. VBox k tag (Some v)"] al b
    by (cases ok) (auto simp: run_ok_done run_ok_def [of M _ _ h _ "(Inl GEAS_ERR_OOM, h1)"])
qed

lemma decode_rec_hdr_or_fail:
  obtains "decode_rec M d c h = (Inl GEAS_ERR_TYPE, h)"
  | T tag c1 where "d \<le> 64" and "c = put_u32 (ty_num T) @ put_u32 tag @ c1"
proof (cases "d \<le> 64 \<and> (\<exists>p c1 T. wtake 8 c = Some (p, c1) \<and> ty_cast (get_u32 p) = Some T)")
  case True
  then obtain p c1 T where w: "wtake 8 c = Some (p, c1)" and "ty_cast (get_u32 p) = Some T" by blast
  then show thesis
    using that(2) [of T "get_u32 (drop 4 p)" c1] wtake_SomeD [OF w] hdr_split [of p] True
    by (auto simp: ty_cast_Some_iff)
next
  case False
  then have "decode_rec M d c h = (Inl GEAS_ERR_TYPE, h)"
    by (subst decode_rec.simps) (auto simp: GEAS_WIRE_MAX_DEPTH_def Let_def split: option.splits)
  then show thesis by (rule that)
qed

lemma rec_bound_step:
  assumes IH: "rec_bound M N (Suc d)" and N: "N < 2 ^ 55"
  shows "rec_bound M N d"
  unfolding rec_bound_def
proof (intro allI impI)
  fix c :: bytes and h assume len: "length c \<le> N"
  show "run_ok M (48 + 5 * N) (length c) h left (decode_rec M d c h)"
  proof (cases rule: decode_rec_hdr_or_fail [of M d c h])
    case (2 T tag c1)
    have c1: "length c1 \<le> N" "length c1 + 8 \<le> length c" using 2 len by simp_all
    consider (scalar) "T \<in> {GEAS_TY_UNIT, GEAS_TY_INT, GEAS_TY_UINT, GEAS_TY_FLOAT, GEAS_TY_BOOL,
         GEAS_TY_BYTE, GEAS_TY_CHAR, GEAS_TY_STRING, GEAS_TY_PLEDGE_REF, GEAS_TY_INSTANCE}"
      | (arr) k where "T = arr_ty k" | (box) k where "T = box_ty k"
      by (cases T) (auto intro: arr_ty.simps [symmetric] box_ty.simps [symmetric])
    then show ?thesis
    proof cases
      case scalar
      then show ?thesis
        using scalar_bound [OF c1(1) N, of M h T tag] 2 c1(2) by (simp add: decode_rec_scalar add.commute)
    next
      case arr
      show ?thesis
      proof (cases "\<exists>p c2. wtake (if k = KList \<or> k = KMap then 12 else 8) c1 = Some (p, c2)")
        case True
        then obtain p c2 where w: "wtake (if k = KList \<or> k = KMap then 12 else 8) c1 = Some (p, c2)" by blast
        obtain n e where f: "c1 = arr_fields k n e @ c2" using w by (rule arr_fields_split)
        have "length c2 \<le> N" using c1 f by simp
        from run_ok_mono [OF arr_bound [OF IH N 2(1) this, of h k tag n e], of "length c"] show ?thesis
          using f c1 unfolding 2(2) arr f by simp
      next
        case False
        then have "decode_rec M d c h = (Inl GEAS_ERR_TYPE, h)"
          unfolding 2(2) arr using 2(1) by (subst decode_rec_at)
            (cases k; auto split: option.splits simp: GEAS_WIRE_MAX_DEPTH_def Let_def simp del: ty_num.simps)
        then show ?thesis by simp
      qed
    next
      case box
      then show ?thesis
        using run_ok_mono [OF box_bound [OF IH 2(1) c1(1), of h k tag] c1(2)] 2 by simp
    qed
  qed simp
qed

lemma rec_bound_all:
  assumes "N < 2 ^ 55"
  shows "rec_bound M N d"
proof (induction "65 - d" arbitrary: d)
  case 0
  then have deep: "GEAS_WIRE_MAX_DEPTH < d" by (simp add: GEAS_WIRE_MAX_DEPTH_def)
  have "decode_rec M d c h = (Inl GEAS_ERR_TYPE, h)" for c h
    by (subst decode_rec.simps) (rule if_P [OF deep])
  then show ?case by (simp add: rec_bound_def)
next
  case (Suc n)
  then show ?case by - (rule rec_bound_step [OF _ assms], simp)
qed

end
