(* ===== verification/Geas_Wire_Props.thy ===== *)
theory Geas_Wire_Props
  imports Geas_Wire_Bounds
begin

text \<open>The contract of the wire codec, stated over its entry points.\<close>

section \<open>The encoder\<close>

lemma encode_size_error:
  "encode_size v d t = Inl st \<Longrightarrow> st = GEAS_ERR_TYPE \<or> st = GEAS_ERR_OOM"
  "size_elems k e i xs d t = Inl st \<Longrightarrow> st = GEAS_ERR_TYPE \<or> st = GEAS_ERR_OOM"
  by (induction v d t and k e i xs d t rule: encode_size_size_elems.induct)
     (auto simp: size_hdr_def size_add_def split: sum.splits if_splits option.splits)

lemma encode_size_cases:
  assumes "wf_value v"
  obtains (ok) "wire_ok 1 v" "length (encode_write v) < 2 ^ 64"
      "encode_size v 1 0 = Inr (of_nat (length (encode_write v)))"
  | (err) st where "\<not> (wire_ok 1 v \<and> length (encode_write v) < 2 ^ 64)"
      "encode_size v 1 0 = Inl st" "st = GEAS_ERR_TYPE \<or> st = GEAS_ERR_OOM"
proof (cases "encode_size v 1 0")
  case (Inl st)
  have "\<not> (wire_ok 1 v \<and> length (encode_write v) < 2 ^ 64)"
    using Inl encode_size_iff(1) [OF assms, of 1 0 "of_nat (length (encode_write v))"]
    by (auto simp: unat_of_nat64)
  then show thesis using Inl encode_size_error(1) [OF Inl] by (rule err)
next
  case (Inr t)
  then have w: "wire_ok 1 v" and t: "unat t = length (encode_write v)"
    using iffD1 [OF encode_size_iff(1) [OF assms, of 1 0 t] Inr] by simp_all
  then have "t = of_nat (length (encode_write v))" "length (encode_write v) < 2 ^ 64"
    using unat_lt64 [of t] by (simp_all flip: t)
  with Inr w show thesis by (simp add: ok)
qed

text \<open>C7.  The size protocol of \<^verbatim>\<open>geas_wire_encode_value\<close>.  For a well-formed value the call
  succeeds exactly when the value may cross (\<open>wire_ok\<close>), its encoding fits a \<^verbatim>\<open>size_t\<close> and a
  buffer of at least that size was passed; it then reports and writes exactly the bytes of the
  write pass, never more than the capacity.  A sizing call (no buffer) reports the very number that
  makes the second call succeed.\<close>

theorem encode_value_exact:
  assumes "wf_value v"
  shows "(geas_wire_encode_value (Some v) buf cap = (GEAS_OK, need, written) \<longleftrightarrow>
       wire_ok 1 v \<and> length (encode_write v) < 2 ^ 64 \<and> buf \<and> length (encode_write v) \<le> unat cap \<and>
       need = Some (of_nat (length (encode_write v))) \<and> written = Some (encode_write v)) \<and>
     (geas_wire_encode_value (Some v) False 0 = (GEAS_ERR_OOM, Some n, None) \<longrightarrow>
       geas_wire_encode_value (Some v) True n = (GEAS_OK, Some n, Some (encode_write v)) \<and>
       unat n = length (encode_write v))"
  using assms
  by (cases rule: encode_size_cases)
     (auto simp: geas_wire_encode_value_def word_less_nat_alt unat_of_nat64 not_less)

theorem encode_value_exact_witness:
  "geas_wire_encode_value (Some (VArr KList 0 (LData [VInt 0 7] 1 1))) True 64 =
     (GEAS_OK, Some 36, Some (encode_write (VArr KList 0 (LData [VInt 0 7] 1 1))))"
  using encode_value_exact [of "VArr KList 0 (LData [VInt 0 7] 1 1)" True 64]
  by (simp add: tag_crosses_def elem_ty_checked_def)

section \<open>Round trips\<close>

text \<open>C4.  Round trip.  When no allocation fails, decoding the bytes the encoder wrote for a
  well-formed value without duplicate map keys, with any bytes after them, returns that value
  with fresh buffers (\<open>wire_norm\<close>) and consumes exactly the encoding.\<close>

theorem wire_round_trip:
  assumes "geas_wire_encode_value (Some v) True cap = (GEAS_OK, Some n, Some bs)"
    and "wf_value v" and "map_unique v" and "\<forall>i. M i"
  shows "\<exists>h'. geas_wire_decode_value M (Some (bs @ rest)) h = (Inr (wire_norm v, unat n), h')"
  using assms(2)
proof (cases rule: encode_size_cases)
  case ok
  then have bs: "bs = encode_write v" and n: "unat n = length bs"
    using assms(1) by (auto simp: geas_wire_encode_value_def unat_of_nat64 split: if_splits)
  obtain h' where "decode_rec M 1 (encode_write v @ rest) h = (Inr (wire_norm v, rest), h')"
    using reads_back_all [OF assms(4) ok(1) assms(2,3)] by (rule reads_backD)
  then show ?thesis using bs n by (simp add: geas_wire_decode_value_def)
next
  case err
  then show ?thesis using assms(1) by (auto simp: geas_wire_encode_value_def)
qed

theorem wire_round_trip_witness:
  "\<exists>h'. geas_wire_decode_value (\<lambda>_. True) (Some (encode_write (VInt 0 7) @ [1, 2]))
     \<lparr>owned = [], mcalls = 0\<rparr> = (Inr (VInt 0 7, 16), h')"
  using wire_round_trip [of "VInt 0 7" 64 16 "encode_write (VInt 0 7)" "\<lambda>_. True" "[1, 2]"]
  by (simp add: geas_wire_encode_value_def size_hdr_def size_add_def GEAS_WIRE_MAX_DEPTH_def)

text \<open>C5.  The encoding is canonical: whatever buffer the decoder accepts (below 32 PiB), under any
  pattern of allocation failures, the consumed prefix is exactly what the encoder writes for the
  decoded value, so no two byte strings decode to the same value.  The decoded value is well-formed,
  encodable and free of duplicate map keys.\<close>

theorem wire_decode_canonical:
  assumes "geas_wire_decode_value M (Some buf) h = (Inr (v, used), h')" and "length buf < 2 ^ 55"
  shows "used \<le> length buf \<and> wf_value v \<and> map_unique v \<and>
    geas_wire_encode_value (Some v) True (of_nat used) =
      (GEAS_OK, Some (of_nat used), Some (take used buf))"
proof -
  obtain r where dec: "decode_rec M 1 buf h = (Inr (v, r), h')" and used: "used = length buf - length r"
    using assms(1) by (auto simp: geas_wire_decode_value_def split: prod.splits sum.splits)
  have buf: "buf = encode_write v @ r" and v: "decoded 1 v"
    using rec_soundD [OF rec_sound_all assms(2) dec] by simp_all
  then have u: "used = length (encode_write v)" "take used buf = encode_write v" "used < 2 ^ 64"
    using used assms(2) by simp_all
  then show ?thesis
    using v buf encode_size_iff(1) [of v 1 0 "of_nat used"]
    by (auto simp: decoded_def geas_wire_encode_value_def unat_of_nat64)
qed

theorem wire_decode_canonical_witness:
  "geas_wire_encode_value (Some (VUnit 0)) True 8 = (GEAS_OK, Some 8, Some [0, 0, 0, 0, 0, 0, 0, 0])"
  using wire_decode_canonical [of "\<lambda>_. True" "[0, 0, 0, 0, 0, 0, 0, 0, 9]" "\<lparr>owned = [], mcalls = 0\<rparr>"
      "VUnit 0" 8 "\<lparr>owned = [], mcalls = 0\<rparr>"]
  by (simp add: geas_wire_decode_value_def decode_rec.simps wtake_def GEAS_WIRE_MAX_DEPTH_def Let_def
      get_u32_def ty_cast_def tag_list_def decode_scalar_def)

section \<open>Hostile payloads\<close>

text \<open>C6.  What a payload can cost.  On any buffer below 32 PiB and under any pattern of allocation
  failures the decoder ends with a value, with the type error, or with the out of memory status and
  then an allocation really failed; it makes at most one allocation for every eight bytes of the
  buffer, no block is larger than 48 bytes plus five times the buffer, and every block is left on
  the instance heap, so a count field in a short payload never reserves memory for elements the
  payload cannot hold.\<close>

theorem wire_decode_bounded:
  assumes "geas_wire_decode_value M (Some buf) h = (res, h')" and "length buf < 2 ^ 55"
  shows "(\<exists>new. owned h' = new @ owned h \<and> (\<forall>b \<in> set new. unat b \<le> 48 + 5 * length buf)) \<and>
     mcalls h \<le> mcalls h' \<and> 8 * (mcalls h' - mcalls h) \<le> length buf \<and>
     (\<forall>st. res = Inl st \<longrightarrow> st = GEAS_ERR_TYPE \<or> st = GEAS_ERR_OOM \<and> alloc_failed M h h')"
proof -
  obtain x where dec: "decode_rec M 1 buf h = (x, h')" and res: "\<And>st. res = Inl st \<Longrightarrow> x = Inl st"
    using assms(1) by (auto simp: geas_wire_decode_value_def split: prod.splits sum.splits)
  have "run_ok M (48 + 5 * length buf) (length buf) h left (x, h')"
    using rec_boundD [OF rec_bound_all [OF assms(2)] order_refl, of M h 1] dec by simp
  then show ?thesis using res by (fastforce simp: run_ok_def split: sum.splits)
qed

theorem wire_decode_bounded_witness:
  "\<exists>h'. geas_wire_decode_value (\<lambda>_. True) (Some (encode_write (VString 0 (SBytes [65, 66]))))
       \<lparr>owned = [], mcalls = 0\<rparr> = (Inr (VString 0 (SBytes [65, 66]), 18), h') \<and>
     8 * mcalls h' \<le> 18"
proof -
  obtain h' where d: "geas_wire_decode_value (\<lambda>_. True) (Some (encode_write (VString 0 (SBytes [65, 66]))))
       \<lparr>owned = [], mcalls = 0\<rparr> = (Inr (VString 0 (SBytes [65, 66]), 18), h')"
    by (auto simp: geas_wire_decode_value_def decode_rec_scalar decode_scalar_def geas_string_copy_def
        wtake_def geas_bytes_def simp del: ty_num.simps)
  from wire_decode_bounded [OF this] show ?thesis using d by simp
qed

section \<open>Frames\<close>

text \<open>C8.  The frame header round trips both ways.  A header is written exactly for the thirteen
  message kinds and payloads up to 64 MiB, takes twenty bytes and reads back to the same three
  fields whatever follows; a twenty byte header that reads is the one its fields write.\<close>

theorem frame_round_trip:
  "(is_Inr (geas_wire_frame_write kind rid len) \<longleftrightarrow> kind \<noteq> 0 \<and> kind \<le> 13 \<and> len \<le> 0x4000000) \<and>
   (\<forall>out rest. geas_wire_frame_write kind rid len = Inr out \<longrightarrow>
      length out = 20 \<and> geas_wire_frame_read (out @ rest) =
        Inr \<lparr>wf_kind = kind, wf_request_id = rid, wf_payload_len = len\<rparr>) \<and>
   (\<forall>inp f. length inp = 20 \<longrightarrow> geas_wire_frame_read inp = Inr f \<longrightarrow>
      geas_wire_frame_write (wf_kind f) (wf_request_id f) (wf_payload_len f) = Inr inp)"
proof (intro conjI allI impI)
  show "is_Inr (geas_wire_frame_write kind rid len) \<longleftrightarrow> kind \<noteq> 0 \<and> kind \<le> 13 \<and> len \<le> 0x4000000"
    by (auto simp: geas_wire_frame_write_def GEAS_WIRE_HELLO_def GEAS_WIRE_ERROR_def
        GEAS_WIRE_MAX_PAYLOAD_def not_less)
qed (simp_all add: frame_write_read frame_read_write)

theorem frame_round_trip_witness:
  "geas_wire_frame_read (GEAS_WIRE_MAGIC @ put_u32 6 @ put_u64 9 @ put_u32 100) =
     Inr \<lparr>wf_kind = 6, wf_request_id = 9, wf_payload_len = 100\<rparr>"
  using frame_round_trip [of 6 9 100]
  by (simp add: geas_wire_frame_write_def GEAS_WIRE_HELLO_def GEAS_WIRE_ERROR_def GEAS_WIRE_MAX_PAYLOAD_def)
     (metis append_Nil2)

end
