(* ===== verification/Geas_Value_Props.thy ===== *)
theory Geas_Value_Props
  imports Geas_Maps
begin

text \<open>The contract of the value helpers: equality, the deep copy, lists, maps and strings.\<close>

abbreviation empty_heap :: heap where
  "empty_heap \<equiv> \<lparr>owned = [], mcalls = 0\<rparr>"

section \<open>Equality and copies\<close>

text \<open>C17.  Structural equality is symmetric and transitive on all values, and reflexive on every
  value without a NaN, a pledge reference or an unnamed type inside.\<close>

theorem value_eq_equivalence:
  "geas_value_eq a b = geas_value_eq b a \<and>
   (geas_value_eq a b \<and> geas_value_eq b c \<longrightarrow> geas_value_eq a c) \<and>
   (comparable a \<longrightarrow> geas_value_eq a a)"
  using value_eq_sym(1) [of a b] value_eq_trans(1) [of a b c] value_eq_refl [of a] by blast

theorem value_eq_equivalence_witness:
  "geas_value_eq (VArr KTuple 0 (LData [VInt 0 3, VString 0 (SNull 0)] 2 0))
     (VArr KTuple 0 (LData [VInt 0 3, VString 0 (SNull 0)] 2 0))"
proof -
  let ?v = "VArr KTuple 0 (LData [VInt 0 3, VString 0 (SNull 0)] 2 0)"
  have "comparable ?v" by simp
  then show ?thesis using value_eq_equivalence [of ?v ?v ?v] by blast
qed

text \<open>C14.  The deep copy.  Under every pattern of allocation failures it only adds blocks to the owner's
  heap; it fails with out of memory only when an allocation failed and with the type error only for
  a value that holds an unnamed type; a copy it returns is well-formed, has the same content
  (\<open>norm_value\<close>) and equals the original; and when no allocation fails every copyable value is
  copied.\<close>

theorem deep_copy_correct:
  assumes "wf_value v" and "geas_value_deep_copy M v h = (res, h')"
  shows "heap_grows h h' \<and>
    (case res of
       Inl st \<Rightarrow> st = GEAS_ERR_OOM \<and> alloc_failed M h h' \<or> st = GEAS_ERR_TYPE \<and> \<not> copyable v
     | Inr w \<Rightarrow> norm_value w = norm_value v \<and> wf_value w \<and> gv_ty w = gv_ty v \<and>
         (comparable v \<longrightarrow> geas_value_eq w v)) \<and>
    ((\<forall>i. M i) \<and> copyable v \<longrightarrow> res = Inr (norm_value v))"
proof -
  have out: "copy_outcome M (copyable v) h (res, h')"
    using deep_copy_outcome(1) [of M v h] assms(2) by simp
  have same: "norm_value w = norm_value v \<and> wf_value w \<and> gv_ty w = gv_ty v" if "res = Inr w" for w
    using deep_copy_same(1) [of M v h w h'] assms that by simp
  have eq: "comparable v \<longrightarrow> geas_value_eq w v" if "res = Inr w" for w
    using norm_eq_value_eq [of w v] same [OF that] assms(1) by blast
  have "res = Inr (norm_value v)" if "\<forall>i. M i" "copyable v"
    using deep_copy_norm(1) [OF that(1) assms(1) that(2), of h] assms(2) by auto
  with out same eq show ?thesis by (auto simp: copy_outcome_def split: sum.splits)
qed

theorem deep_copy_correct_witness:
  "\<exists>h'. geas_value_deep_copy (\<lambda>_. True) (VString 0 (SBytes [104, 105])) empty_heap =
     (Inr (VString 0 (SBytes [104, 105])), h') \<and> heap_grows empty_heap h'"
proof -
  obtain res h' where r: "geas_value_deep_copy (\<lambda>_. True) (VString 0 (SBytes [104, 105])) empty_heap = (res, h')"
    by fastforce
  from deep_copy_correct [OF _ r] show ?thesis using r by simp
qed

section \<open>Lists\<close>

text \<open>\<^verbatim>\<open>geas_list_push\<close> refuses an element of another type, keeps the list well-formed when it
  grows, and makes exactly one index readable: the old length gives the new element, every other
  index what it gave before.\<close>

theorem list_push_correct:
  assumes "wf_value (VArr KList g l)" and "wf_value e" and "(length (list_elems l) + 1) * 40 < 2 ^ 63"
  shows "(gv_ty e \<noteq> list_elem_ty l \<longrightarrow> geas_list_push M (VArr KList g l) e h = (Inl GEAS_ERR_TYPE, h)) \<and>
    (\<forall>v' h'. geas_list_push M (VArr KList g l) e h = (Inr v', h') \<longrightarrow>
       wf_value v' \<and> (\<forall>i. geas_list_get v' i =
         (if i = list_len l then Some e else geas_list_get (VArr KList g l) i))) \<and>
    ((\<forall>i. M i) \<and> gv_ty e = list_elem_ty l \<longrightarrow> (\<exists>v' h'. geas_list_push M (VArr KList g l) e h = (Inr v', h')))"
  using list_push_wf [OF _ assms] list_get_push [OF _ assms(1,3)]
  by (auto simp: geas_list_push_def geas_bytes_def Let_def)

theorem list_push_correct_witness:
  "\<exists>v' h'. geas_list_push (\<lambda>_. True) (VArr KList 0 (LNull 0 0 1)) (VInt 0 9) empty_heap = (Inr v', h') \<and>
     geas_list_get v' 0 = Some (VInt 0 9)"
  using list_push_correct [of 0 "LNull 0 0 1" "VInt 0 9" "\<lambda>_. True" empty_heap] by fastforce



section \<open>Maps\<close>

text \<open>C15.  \<^verbatim>\<open>geas_map_set\<close> followed by \<^verbatim>\<open>geas_map_get\<close>.  A successful set keeps the map's keys
  pairwise different; afterwards every key equal to the one that was set reads a copy of the value
  and every other key reads what it read before.\<close>

theorem map_get_set:
  assumes "map_ok m" and "geas_map_set M m k v h = (Inr m', h')"
    and "wf_value k" and "wf_value v" and "comparable k" and "gv_ty k' = map_key_ty m"
  shows "map_ok m' \<and>
    (if geas_value_eq k k' then \<exists>w. geas_map_get m' k' = Some w \<and> norm_value w = norm_value v
     else geas_map_get m' k' = geas_map_get m k')"
proof -
  obtain kc vc where kc: "norm_value kc = norm_value k" "wf_value kc" and vc: "norm_value vc = norm_value v"
    and ps: "map_pairs m' = assoc_put k kc vc (map_pairs m)" and kt: "map_key_ty m' = map_key_ty m"
    using map_set_refines [OF assms(1-4)] by blast
  have ok: "map_ok m'" by (rule map_set_ok(1) [OF assms(1-5)])
  have kk: "geas_value_eq kc k" using norm_eq_value_eq [OF kc(1) kc(2) assms(3,5)] .
  have "geas_map_get m' k' = assoc_get (assoc_put k kc vc (map_pairs m)) k'"
    using map_get_refines [OF ok] kt ps assms(6) by simp
  moreover have "geas_map_get m k' = assoc_get (map_pairs m) k'"
    using map_get_refines [OF assms(1)] assms(6) by simp
  ultimately show ?thesis
    using ok vc assoc_get_put_same [OF kk, of k' vc] assoc_get_put_other [OF kk, of k' vc] by simp
qed

theorem map_get_set_witness:
  "\<exists>m' h'. geas_map_set (\<lambda>_. True) (geas_map_new 1) (VInt 0 4) (VBool 0 1) empty_heap = (Inr m', h') \<and>
     (\<exists>w. geas_map_get m' (VInt 0 4) = Some w \<and> norm_value w = VBool 0 1)"
proof -
  obtain m' h' where s: "geas_map_set (\<lambda>_. True) (geas_map_new 1) (VInt 0 4) (VBool 0 1) empty_heap = (Inr m', h')"
    by (simp add: geas_map_set_def geas_map_new_def map_find_def geas_bytes_def Let_def)
  from map_get_set [OF _ s, of "VInt 0 4"] show ?thesis
    using s by (simp add: geas_map_new_def distinct_keys_def)
qed



end
