(* ===== verification/Geas_Desc.thy ===== *)
theory Geas_Desc
  imports Geas_Values "HOL-Library.List_Lexorder" "HOL-Library.Char_ord"
begin

text \<open>
  The descriptor tables of \<^verbatim>\<open>geas_abi.h\<close> and the C string routines the runtime applies to them.
  A \<^verbatim>\<open>const char*\<close> is the string it addresses, an optional one an option; a pointer with a count
  is the list of its elements.  A pledge thunk is external code: a descriptor holds its address, a
  number, and what the code at an address does is a parameter of the definitions that call it.
\<close>

section \<open>C strings\<close>

text \<open>\<^verbatim>\<open>strcmp\<close>; only the sign of the result is specified by the language.\<close>

fun strcmp :: "string \<Rightarrow> string \<Rightarrow> int" where
  "strcmp [] [] = 0"
| "strcmp [] (b # bs) = - 1"
| "strcmp (a # as) [] = 1"
| "strcmp (a # as) (b # bs) = (if a = b then strcmp as bs else if a < b then - 1 else 1)"

lemma strcmp_eq_0 [simp]: "strcmp a b = 0 \<longleftrightarrow> a = b"
  by (induction a b rule: strcmp.induct) auto

lemma strcmp_less_0 [simp]: "strcmp a b < 0 \<longleftrightarrow> a < b"
  by (induction a b rule: strcmp.induct) auto

text \<open>\<^verbatim>\<open>%u\<close> and \<^verbatim>\<open>%016llx\<close>.\<close>

fun dec_digits :: "nat \<Rightarrow> string" where
  "dec_digits n = (if n < 10 then [char_of (48 + n)] else dec_digits (n div 10) @ [char_of (48 + n mod 10)])"

declare dec_digits.simps [simp del]

definition fmt_u :: "u32 \<Rightarrow> string" where
  "fmt_u w = dec_digits (unat w)"

definition hex_digit :: "nat \<Rightarrow> char" where
  "hex_digit n = char_of (if n < 10 then 48 + n else 87 + n)"

fun hex_digits :: "nat \<Rightarrow> nat \<Rightarrow> string" where
  "hex_digits 0 n = []"
| "hex_digits (Suc k) n = hex_digits k (n div 16) @ [hex_digit (n mod 16)]"

definition fmt_016llx :: "u64 \<Rightarrow> string" where
  "fmt_016llx w = hex_digits 16 (unat w)"

lemma length_hex_digits [simp]: "length (hex_digits k n) = k"
  by (induction k arbitrary: n) simp_all

text \<open>\<^verbatim>\<open>snprintf(buf, cap, ...)\<close> with the formatted text \<open>s\<close>: the length it reports, negative when that
  does not fit an \<^verbatim>\<open>int\<close>, and the bytes it leaves in the buffer (the terminator included).\<close>

definition INT_MAX :: nat where
  "INT_MAX = 2147483647"

definition snprintf :: "nat \<Rightarrow> string \<Rightarrow> nat option \<times> string" where
  "snprintf cap s =
     (if INT_MAX < length s then (None, [])
      else (Some (length s), if cap = 0 then [] else take (cap - 1) s @ [CHR 0x00]))"

section \<open>Descriptors\<close>

type_synonym fn_addr = nat

record GeasPledgeDesc =
  pd_name :: string
  pd_mangled :: "string option"
  pd_nargs :: nat
  pd_fn :: "fn_addr option"
  pd_sub :: int

definition GEAS_ATOM_FULFILLED :: u32 where
  "GEAS_ATOM_FULFILLED = 0"

definition GEAS_ATOM_BROKEN :: u32 where
  "GEAS_ATOM_BROKEN = 1"

record GeasReqAtom =
  ra_name :: "string option"
  ra_kind :: u32
  ra_sub :: int
  ra_pledge :: int

definition GEAS_REQ_ATOM :: u8 where
  "GEAS_REQ_ATOM = 0"

definition GEAS_REQ_NOT :: u8 where
  "GEAS_REQ_NOT = 1"

definition GEAS_REQ_AND :: u8 where
  "GEAS_REQ_AND = 2"

definition GEAS_REQ_OR :: u8 where
  "GEAS_REQ_OR = 3"

lemmas req_ops = GEAS_REQ_ATOM_def GEAS_REQ_NOT_def GEAS_REQ_AND_def GEAS_REQ_OR_def

record GeasReqOp =
  rq_op :: u8
  rq_atom :: u8

record GeasVowDesc =
  vd_name :: string
  vd_ty :: u32
  vd_has_default :: bool
  vd_default_value :: GeasValue

record GeasSchemaCol =
  sc_name :: string
  sc_ty :: u32

record GeasSchemaDesc =
  sd_table :: string
  sd_cols :: "GeasSchemaCol list"

definition GEAS_SUB_TRANSACTIONAL :: u8 where
  "GEAS_SUB_TRANSACTIONAL = 1"

record GeasContractDesc =
  cd_name :: string
  cd_shape_hash :: u64
  cd_version :: u32
  cd_pledges :: "GeasPledgeDesc list"
  cd_vows :: "GeasVowDesc list"
  cd_subs :: "string option list"
  cd_atoms :: "GeasReqAtom list"
  cd_has_reqs :: bool
  cd_req_fulfill :: "GeasReqOp list"
  cd_req_partial :: "GeasReqOp list"
  cd_req_break :: "GeasReqOp list"
  cd_schemas :: "GeasSchemaDesc list"
  cd_sub_flags :: "u8 list option"

record GeasVowBinding =
  vb_name :: string
  vb_value :: GeasValue

end
