(* ===== verification/Geas_Iname.thy ===== *)
theory Geas_Iname
  imports Geas_Desc
begin

text \<open>
  The registration surface of \<^verbatim>\<open>runtime.c\<close>: the sorted iname table, contract registration, module
  loading, freeze, lookup and the dump.  The state is the part of \<^verbatim>\<open>GeasRuntime\<close> that
  \<^verbatim>\<open>rt->lock\<close> guards; each operation runs wholly under that lock, so it is one function on the
  state.  Table sizes are natural numbers: a table of \<^verbatim>\<open>2^58\<close> entries does not fit an address space.
\<close>

section \<open>State\<close>

definition GEAS_MAX_CONTRACT_TYPES :: nat where
  "GEAS_MAX_CONTRACT_TYPES = 64"

definition GEAS_MAX_MODULES :: nat where
  "GEAS_MAX_MODULES = 64"

datatype InameKind = GEAS_INAME_CONTRACT | GEAS_INAME_PLEDGE

record GeasInameEntry =
  ie_mangled :: string
  ie_kind :: InameKind
  ie_contract :: string
  ie_symbol :: "string option"
  ie_shape_hash :: u64
  ie_version :: u32
  ie_nargs :: nat

record registry =
  descs :: "GeasContractDesc list"
  modules :: "nat list"
  inames :: "GeasInameEntry list"
  iname_cap :: nat
  frozen :: bool
  reg_mcalls :: nat

text \<open>One call of \<^verbatim>\<open>malloc\<close> or \<^verbatim>\<open>realloc\<close>; whether it succeeds is the parameter \<open>M\<close>.\<close>

definition reg_alloc :: "malloc \<Rightarrow> registry \<Rightarrow> bool \<times> registry" where
  "reg_alloc M rt = (M (reg_mcalls rt), rt\<lparr>reg_mcalls := Suc (reg_mcalls rt)\<rparr>)"

section \<open>The table\<close>

text \<open>The binary search from \<^verbatim>\<open>lo\<close> and \<^verbatim>\<open>hi\<close>: the hit flag and \<^verbatim>\<open>*pos\<close>.\<close>

function iname_search :: "GeasInameEntry list \<Rightarrow> string \<Rightarrow> nat \<Rightarrow> nat \<Rightarrow> bool \<times> nat" where
  "iname_search tab mangled lo hi =
     (if lo < hi then
        let mid = lo + (hi - lo) div 2;
            cmp = strcmp (ie_mangled (tab ! mid)) mangled
        in if cmp = 0 then (True, mid)
           else if cmp < 0 then iname_search tab mangled (mid + 1) hi
           else iname_search tab mangled lo mid
      else (False, lo))"
  by pat_completeness auto
termination
  by (relation "measure (\<lambda>(tab, mangled, lo, hi). hi - lo)") auto

declare iname_search.simps [simp del]

definition iname_find :: "registry \<Rightarrow> string \<Rightarrow> bool \<times> nat" where
  "iname_find rt mangled = iname_search (inames rt) mangled 0 (length (inames rt))"

definition iname_place :: "registry \<Rightarrow> nat \<Rightarrow> GeasInameEntry \<Rightarrow> registry" where
  "iname_place rt pos e = rt\<lparr>inames := take pos (inames rt) @ e # drop pos (inames rt)\<rparr>"

definition iname_insert :: "malloc \<Rightarrow> registry \<Rightarrow> GeasInameEntry \<Rightarrow> GeasStatus \<times> registry" where
  "iname_insert M rt e =
     (case iname_find rt (ie_mangled e) of
        (True, pos) \<Rightarrow> (GEAS_ERR_NAME, rt)
      | (False, pos) \<Rightarrow>
          if length (inames rt) = iname_cap rt then
            (let cap = (if iname_cap rt \<noteq> 0 then iname_cap rt * 2 else 16)
             in case reg_alloc M rt of
                  (False, rt) \<Rightarrow> (GEAS_ERR_OOM, rt)
                | (True, rt) \<Rightarrow> (GEAS_OK, iname_place (rt\<lparr>iname_cap := cap\<rparr>) pos e))
          else (GEAS_OK, iname_place rt pos e))"

text \<open>The text \<^verbatim>\<open>__geas_ash_NAME__HASH_vVERSION\<close> and its allocation.\<close>

definition contract_mangled :: "GeasContractDesc \<Rightarrow> string" where
  "contract_mangled desc =
     ''__geas_ash_'' @ cd_name desc @ ''__'' @ fmt_016llx (cd_shape_hash desc) @ ''_v'' @
     fmt_u (cd_version desc)"

definition iname_contract_mangled ::
    "malloc \<Rightarrow> registry \<Rightarrow> GeasContractDesc \<Rightarrow> string option \<times> registry" where
  "iname_contract_mangled M rt desc =
     (case fst (snprintf 0 (contract_mangled desc)) of
        None \<Rightarrow> (None, rt)
      | Some n \<Rightarrow>
          (case reg_alloc M rt of
             (False, rt) \<Rightarrow> (None, rt)
           | (True, rt) \<Rightarrow> (Some (butlast (snd (snprintf (n + 1) (contract_mangled desc)))), rt)))"

definition iname_remove_contract :: "registry \<Rightarrow> string \<Rightarrow> registry" where
  "iname_remove_contract rt contract =
     rt\<lparr>inames := filter (\<lambda>e. strcmp (ie_contract e) contract \<noteq> 0) (inames rt)\<rparr>"

definition contract_entry :: "GeasContractDesc \<Rightarrow> string \<Rightarrow> GeasInameEntry" where
  "contract_entry desc cm =
     \<lparr>ie_mangled = cm, ie_kind = GEAS_INAME_CONTRACT, ie_contract = cd_name desc, ie_symbol = None,
      ie_shape_hash = cd_shape_hash desc, ie_version = cd_version desc, ie_nargs = 0\<rparr>"

definition pledge_entry :: "GeasContractDesc \<Rightarrow> GeasPledgeDesc \<Rightarrow> string \<Rightarrow> GeasInameEntry" where
  "pledge_entry desc pd m =
     \<lparr>ie_mangled = m, ie_kind = GEAS_INAME_PLEDGE, ie_contract = cd_name desc,
      ie_symbol = Some (pd_name pd), ie_shape_hash = cd_shape_hash desc,
      ie_version = cd_version desc, ie_nargs = pd_nargs pd\<rparr>"

text \<open>The loop over the pledges of one registration.\<close>

fun iname_register_pledges ::
    "malloc \<Rightarrow> registry \<Rightarrow> GeasContractDesc \<Rightarrow> GeasPledgeDesc list \<Rightarrow> GeasStatus \<times> registry" where
  "iname_register_pledges M rt desc [] = (GEAS_OK, rt)"
| "iname_register_pledges M rt desc (pd # pds) =
     (case pd_mangled pd of
        None \<Rightarrow> iname_register_pledges M rt desc pds
      | Some m \<Rightarrow>
          (case iname_insert M rt (pledge_entry desc pd m) of
             (st, rt) \<Rightarrow>
               if st \<noteq> GEAS_OK then (st, iname_remove_contract rt (cd_name desc))
               else iname_register_pledges M rt desc pds))"

definition iname_register :: "malloc \<Rightarrow> registry \<Rightarrow> GeasContractDesc \<Rightarrow> GeasStatus \<times> registry" where
  "iname_register M rt desc =
     (case iname_contract_mangled M rt desc of
        (None, rt) \<Rightarrow> (GEAS_ERR_OOM, rt)
      | (Some cm, rt) \<Rightarrow>
          (case iname_insert M rt (contract_entry desc cm) of
             (st, rt) \<Rightarrow>
               if st \<noteq> GEAS_OK then (st, rt)
               else iname_register_pledges M rt desc (cd_pledges desc)))"

section \<open>Registration, modules and freeze\<close>

definition geas_register_contract ::
    "malloc \<Rightarrow> registry \<Rightarrow> GeasContractDesc \<Rightarrow> GeasStatus \<times> registry" where
  "geas_register_contract M rt desc =
     (if frozen rt then (GEAS_ERR_STATE, rt)
      else if length (descs rt) = GEAS_MAX_CONTRACT_TYPES then (GEAS_ERR_OOM, rt)
      else if list_ex (\<lambda>d. strcmp (cd_name d) (cd_name desc) = 0) (descs rt) then (GEAS_ERR_NAME, rt)
      else (case iname_register M rt desc of
              (st, rt) \<Rightarrow>
                if st \<noteq> GEAS_OK then (st, rt)
                else (GEAS_OK, rt\<lparr>descs := descs rt @ [desc]\<rparr>)))"

text \<open>\<^verbatim>\<open>dlopen\<close>, \<^verbatim>\<open>dlsym\<close> and the module's registrar are outside the repository: \<open>dl\<close> gives the handle
  and the registrar of a path.  The third component of the result is the list of handles the call
  closed again.\<close>

definition geas_module_load ::
    "(string \<Rightarrow> (nat \<times> (registry \<Rightarrow> GeasStatus \<times> registry) option) option) \<Rightarrow> registry \<Rightarrow> string \<Rightarrow>
     GeasStatus \<times> registry \<times> nat list" where
  "geas_module_load dl rt so_path =
     (if frozen rt then (GEAS_ERR_STATE, rt, [])
      else (case dl so_path of
          None \<Rightarrow> (GEAS_ERR_LOAD, rt, [])
        | Some (handle, None) \<Rightarrow> (GEAS_ERR_LOAD, rt, [handle])
        | Some (handle, Some reg) \<Rightarrow>
            (case reg rt of
               (st, rt) \<Rightarrow>
                 if st \<noteq> GEAS_OK then (st, rt, [handle])
                 else if length (modules rt) = GEAS_MAX_MODULES then (GEAS_ERR_OOM, rt, [handle])
                 else (GEAS_OK, rt\<lparr>modules := modules rt @ [handle]\<rparr>, []))))"

definition geas_runtime_freeze :: "registry \<Rightarrow> GeasStatus \<times> registry" where
  "geas_runtime_freeze rt = (GEAS_OK, rt\<lparr>frozen := True\<rparr>)"

section \<open>Reading the table\<close>

definition geas_iname_lookup :: "registry \<Rightarrow> string \<Rightarrow> GeasStatus + GeasInameEntry" where
  "geas_iname_lookup rt mangled =
     (case iname_find rt mangled of
        (True, pos) \<Rightarrow> Inr (inames rt ! pos)
      | (False, pos) \<Rightarrow> Inl GEAS_ERR_NAME)"

definition geas_iname_count :: "registry \<Rightarrow> nat" where
  "geas_iname_count rt = length (inames rt)"

definition geas_iname_at :: "registry \<Rightarrow> nat \<Rightarrow> GeasStatus + GeasInameEntry" where
  "geas_iname_at rt i =
     (if length (inames rt) \<le> i then Inl GEAS_ERR_NAME else Inr (inames rt ! i))"

definition iname_line :: "GeasInameEntry \<Rightarrow> string" where
  "iname_line e =
     ie_mangled e @ '' '' @ (if ie_kind e = GEAS_INAME_CONTRACT then ''contract'' else ''pledge'') @
     '' '' @ fmt_016llx (ie_shape_hash e) @ '' v'' @ fmt_u (ie_version e) @ [CHR 0x0A]"

text \<open>The two loops of the dump.  The buffer is the text written so far, without the terminator
  each \<^verbatim>\<open>snprintf\<close> leaves for the next one to overwrite.\<close>

fun dump_total :: "GeasInameEntry list \<Rightarrow> nat \<Rightarrow> nat option" where
  "dump_total [] t = Some t"
| "dump_total (e # es) t =
     (case fst (snprintf 0 (iname_line e)) of None \<Rightarrow> None | Some n \<Rightarrow> dump_total es (t + n))"

fun dump_write :: "GeasInameEntry list \<Rightarrow> nat \<Rightarrow> string \<Rightarrow> string option" where
  "dump_write [] cap buf = Some (buf @ [CHR 0x00])"
| "dump_write (e # es) cap buf =
     (case snprintf (cap - length buf) (iname_line e) of
        (None, _) \<Rightarrow> None
      | (Some n, out) \<Rightarrow>
          if cap - length buf \<le> n then None else dump_write es cap (buf @ take n out))"

text \<open>\<open>buf\<close> is the capacity of the buffer, \<open>None\<close> for a NULL one; the result is the status, \<^verbatim>\<open>*need\<close>
  when it is set and the buffer when it is filled.\<close>

definition geas_iname_dump :: "registry \<Rightarrow> nat option \<Rightarrow> GeasStatus \<times> nat option \<times> string option" where
  "geas_iname_dump rt buf =
     (let cap = (case buf of None \<Rightarrow> 0 | Some c \<Rightarrow> c) in
      case dump_total (inames rt) 1 of
        None \<Rightarrow> (GEAS_ERR_OOM, None, None)
      | Some need \<Rightarrow>
          if cap < need then (GEAS_ERR_OOM, Some need, None)
          else (case dump_write (inames rt) cap [] of
                  None \<Rightarrow> (GEAS_ERR_OOM, Some need, None)
                | Some out \<Rightarrow> (GEAS_OK, Some need, Some out)))"

end
