(* ===== verification/Geas_Iname_Facts.thy ===== *)
theory Geas_Iname_Facts
  imports Geas_Iname
begin

text \<open>Correctness of the iname table: the search, the insertion with its rollback, the registry
  invariant, lookup and dump.\<close>

section \<open>Sorted tables and the search\<close>

abbreviation keys :: "GeasInameEntry list \<Rightarrow> string set" where
  "keys tab \<equiv> ie_mangled ` set tab"

definition table_sorted :: "GeasInameEntry list \<Rightarrow> bool" where
  "table_sorted tab = sorted_wrt (\<lambda>a b. ie_mangled a < ie_mangled b) tab"

lemma sorted_nth_mono:
  assumes "table_sorted tab" "i \<le> j" "j < length tab"
  shows "ie_mangled (tab ! i) \<le> ie_mangled (tab ! j)"
  using assms by (cases "i = j") (auto simp: table_sorted_def sorted_wrt_iff_nth_less less_imp_le)

text \<open>What the search promises of its flag and position.\<close>

definition search_post :: "GeasInameEntry list \<Rightarrow> string \<Rightarrow> bool \<times> nat \<Rightarrow> bool" where
  "search_post tab m r \<longleftrightarrow>
     (if fst r then snd r < length tab \<and> ie_mangled (tab ! snd r) = m
      else snd r \<le> length tab \<and> (\<forall>i < snd r. ie_mangled (tab ! i) < m) \<and>
           (\<forall>i. snd r \<le> i \<and> i < length tab \<longrightarrow> m < ie_mangled (tab ! i)))"

lemma iname_search_post:
  assumes "table_sorted tab" and "lo \<le> hi" and "hi \<le> length tab"
    and "\<forall>i < lo. ie_mangled (tab ! i) < m"
    and "\<forall>i. hi \<le> i \<and> i < length tab \<longrightarrow> m < ie_mangled (tab ! i)"
  shows "search_post tab m (iname_search tab m lo hi)"
  using assms
proof (induction tab m lo hi rule: iname_search.induct)
  case (1 tab m lo hi)
  show ?case
  proof (cases "lo < hi")
    case False
    then show ?thesis
      using 1(4-7) by (subst iname_search.simps) (simp add: search_post_def)
  next
    case True
    define mid where "mid = lo + (hi - lo) div 2"
    have mid: "lo \<le> mid" "mid < hi" using True by (auto simp: mid_def)
    consider "ie_mangled (tab ! mid) = m" | "ie_mangled (tab ! mid) < m" | "m < ie_mangled (tab ! mid)"
      by fastforce
    then show ?thesis
    proof cases
      case 1
      then show ?thesis using True mid 1 \<open>hi \<le> length tab\<close>
        by (subst iname_search.simps) (simp add: search_post_def flip: mid_def)
    next
      case 2
      have "\<forall>i < mid + 1. ie_mangled (tab ! i) < m"
        using sorted_nth_mono [OF \<open>table_sorted tab\<close>, of _ mid] mid 2 \<open>hi \<le> length tab\<close>
        by (auto simp: less_Suc_eq_le intro: le_less_trans)
      then show ?thesis
        using 1 2 True mid less_imp_neq [OF 2] by (subst iname_search.simps) (simp flip: mid_def)
    next
      case 3
      have "\<forall>i. mid \<le> i \<and> i < length tab \<longrightarrow> m < ie_mangled (tab ! i)"
        using sorted_nth_mono [OF \<open>table_sorted tab\<close>, of mid] 3 by (auto intro: less_le_trans)
      then show ?thesis
        using 1 3 True mid by (subst iname_search.simps) (auto simp flip: mid_def)
    qed
  qed
qed

lemma iname_find_post:
  "table_sorted (inames rt) \<Longrightarrow> search_post (inames rt) m (iname_find rt m)"
  unfolding iname_find_def by (rule iname_search_post) auto

lemma iname_find_hit:
  assumes "table_sorted (inames rt)"
  shows "fst (iname_find rt m) \<longleftrightarrow> m \<in> keys (inames rt)"
proof (cases "iname_find rt m")
  case (Pair hit pos)
  note post = iname_find_post [OF assms, of m, unfolded Pair]
  show ?thesis
  proof (cases hit)
    case True
    then show ?thesis using post Pair by (auto simp: search_post_def)
  next
    case False
    have "ie_mangled (inames rt ! i) \<noteq> m" if "i < length (inames rt)" for i
    proof -
      have "ie_mangled (inames rt ! i) < m \<or> m < ie_mangled (inames rt ! i)"
        using post False that by (cases "i < pos") (simp_all add: search_post_def not_less)
      then show ?thesis by auto
    qed
    then have "m \<notin> keys (inames rt)" by (metis imageE in_set_conv_nth)
    then show ?thesis using Pair False by simp
  qed
qed

section \<open>Insertion\<close>

text \<open>What registration may change of the registry besides the descriptors.\<close>

definition table_only :: "registry \<Rightarrow> registry \<Rightarrow> bool" where
  "table_only rt rt' \<longleftrightarrow>
     descs rt' = descs rt \<and> modules rt' = modules rt \<and> frozen rt' = frozen rt"

lemma table_only_trans: "table_only a b \<Longrightarrow> table_only b c \<Longrightarrow> table_only a c"
  by (simp add: table_only_def)

definition table_ok :: "registry \<Rightarrow> bool" where
  "table_ok rt \<longleftrightarrow> table_sorted (inames rt) \<and> length (inames rt) \<le> iname_cap rt"

lemma sorted_place:
  assumes "table_sorted tab" and "pos \<le> length tab" and "\<forall>i < pos. ie_mangled (tab ! i) < ie_mangled e"
    and "\<forall>i. pos \<le> i \<and> i < length tab \<longrightarrow> ie_mangled e < ie_mangled (tab ! i)"
  shows "table_sorted (take pos tab @ e # drop pos tab)"
proof -
  have "\<forall>x \<in> set (take pos tab). ie_mangled x < ie_mangled e"
    using assms(2,3) by (auto simp: in_set_conv_nth)
  moreover have "\<forall>x \<in> set (drop pos tab). ie_mangled e < ie_mangled x"
    using assms(2,4) by (auto simp: in_set_conv_nth)
  moreover have "sorted_wrt (\<lambda>a b. ie_mangled a < ie_mangled b) (take pos tab @ drop pos tab)"
    using assms(1) by (simp add: table_sorted_def)
  ultimately show ?thesis by (auto simp: table_sorted_def sorted_wrt_append intro: less_trans)
qed

lemma iname_insert_spec:
  assumes "table_ok rt" and "iname_insert M rt e = (st, rt')"
  obtains (ok) pos where "st = GEAS_OK" "ie_mangled e \<notin> keys (inames rt)" "table_ok rt'" "table_only rt rt'"
      "inames rt' = take pos (inames rt) @ e # drop pos (inames rt)"
  | (name) "st = GEAS_ERR_NAME" "ie_mangled e \<in> keys (inames rt)" "rt' = rt"
  | (oom) "st = GEAS_ERR_OOM" "\<not> M (reg_mcalls rt)" "inames rt' = inames rt" "table_ok rt'" "table_only rt rt'"
proof (cases "iname_find rt (ie_mangled e)")
  case (Pair hit pos)
  have srt: "table_sorted (inames rt)" using assms(1) by (simp add: table_ok_def)
  note post = iname_find_post [OF srt, of "ie_mangled e", unfolded Pair]
  have hit: "hit \<longleftrightarrow> ie_mangled e \<in> keys (inames rt)" using iname_find_hit [OF srt] Pair by (metis fst_conv)
  show thesis
  proof (cases hit)
    case True
    then show thesis using assms(2) Pair hit by (intro name) (simp_all add: iname_insert_def)
  next
    case False
    then have s: "table_sorted (take pos (inames rt) @ e # drop pos (inames rt))" and p: "pos \<le> length (inames rt)"
      using post srt by (auto simp: search_post_def intro!: sorted_place)
    show thesis
    proof (cases "length (inames rt) = iname_cap rt \<and> \<not> M (reg_mcalls rt)")
      case True
      then show thesis using assms Pair False
        by (intro oom) (auto simp: iname_insert_def reg_alloc_def table_ok_def table_only_def)
    next
      case no: False
      then show thesis
        using assms Pair False s p hit
        by (intro ok [of pos])
           (auto simp: iname_insert_def reg_alloc_def iname_place_def table_ok_def table_only_def Let_def
             split: if_splits)
    qed
  qed
qed

lemma insert_set:
  "inames rt' = take pos (inames rt) @ e # drop pos (inames rt) \<Longrightarrow>
     set (inames rt') = insert e (set (inames rt))"
  by (auto dest: in_set_takeD in_set_dropD) (metis Un_iff append_take_drop_id set_append)

section \<open>Registration\<close>

text \<open>The entries one contract contributes.\<close>

definition pledge_entries :: "GeasContractDesc \<Rightarrow> GeasPledgeDesc list \<Rightarrow> GeasInameEntry list" where
  "pledge_entries desc pds =
     concat (map (\<lambda>pd. case pd_mangled pd of None \<Rightarrow> [] | Some m \<Rightarrow> [pledge_entry desc pd m]) pds)"

definition desc_entries :: "GeasContractDesc \<Rightarrow> GeasInameEntry list" where
  "desc_entries desc = contract_entry desc (contract_mangled desc) # pledge_entries desc (cd_pledges desc)"

abbreviation others :: "string \<Rightarrow> GeasInameEntry list \<Rightarrow> GeasInameEntry list" where
  "others name tab \<equiv> filter (\<lambda>e. ie_contract e \<noteq> name) tab"

lemma others_place:
  assumes "ie_contract e = name"
  shows "others name (take pos tab @ e # drop pos tab) = others name tab"
proof -
  have "others name (take pos tab @ e # drop pos tab) = others name (take pos tab @ drop pos tab)"
    using assms by (simp only: filter_append filter.simps) simp
  then show ?thesis by simp
qed

lemma entry_contract [simp]:
  "ie_contract (pledge_entry desc pd m) = cd_name desc" "ie_contract (contract_entry desc cm) = cd_name desc"
  "ie_mangled (pledge_entry desc pd m) = m" "ie_mangled (contract_entry desc cm) = cm"
  by (simp_all add: pledge_entry_def contract_entry_def)

lemma sorted_filter: "table_sorted tab \<Longrightarrow> table_sorted (filter P tab)"
  by (simp add: table_sorted_def sorted_wrt_filter)

text \<open>Whether every key of a batch is new: to the table and within the batch.\<close>

definition fresh_batch :: "GeasInameEntry list \<Rightarrow> GeasInameEntry list \<Rightarrow> bool" where
  "fresh_batch tab es \<longleftrightarrow> distinct (map ie_mangled es) \<and> set (map ie_mangled es) \<inter> keys tab = {}"

lemma fresh_batch_Cons:
  "fresh_batch tab (e # es) \<longleftrightarrow> ie_mangled e \<notin> keys tab \<and> fresh_batch (e # tab) es"
  by (auto simp: fresh_batch_def)

lemma fresh_batch_cong: "set tab = set tab' \<Longrightarrow> fresh_batch tab es = fresh_batch tab' es"
  by (simp add: fresh_batch_def)

definition batch_post ::
    "malloc \<Rightarrow> string \<Rightarrow> registry \<Rightarrow> GeasInameEntry list \<Rightarrow> GeasStatus \<Rightarrow> registry \<Rightarrow> bool" where
  "batch_post M name rt es st rt' \<longleftrightarrow> table_ok rt' \<and> table_only rt rt' \<and>
     (st = GEAS_OK \<and> fresh_batch (inames rt) es \<and> set (inames rt') = set (inames rt) \<union> set es \<and>
        others name (inames rt') = others name (inames rt) \<or>
      st = GEAS_ERR_NAME \<and> \<not> fresh_batch (inames rt) es \<and> inames rt' = others name (inames rt) \<or>
      st = GEAS_ERR_OOM \<and> \<not> (\<forall>i. M i) \<and> inames rt' = others name (inames rt))"

lemma remove_contract [simp]:
  "inames (iname_remove_contract rt name) = others name (inames rt)"
  "table_ok rt \<Longrightarrow> table_ok (iname_remove_contract rt name)"
  "table_only rt' (iname_remove_contract rt name) = table_only rt' rt"
  by (auto simp: iname_remove_contract_def table_ok_def table_only_def intro: sorted_filter
      order_trans [OF length_filter_le])

lemma register_pledges_post:
  assumes "table_ok rt" and "iname_register_pledges M rt desc pds = (st, rt')"
  shows "batch_post M (cd_name desc) rt (pledge_entries desc pds) st rt'"
  using assms
proof (induction pds arbitrary: rt)
  case Nil
  then show ?case by (auto simp: batch_post_def pledge_entries_def fresh_batch_def table_only_def)
next
  case (Cons pd pds)
  show ?case
  proof (cases "pd_mangled pd")
    case None
    then show ?thesis using Cons by (simp add: pledge_entries_def)
  next
    case (Some m)
    let ?e = "pledge_entry desc pd m"
    have es: "pledge_entries desc (pd # pds) = ?e # pledge_entries desc pds"
      by (simp add: pledge_entries_def Some)
    obtain st1 rt1 where ins: "iname_insert M rt ?e = (st1, rt1)" by fastforce
    show ?thesis
    proof (cases rule: iname_insert_spec [OF Cons.prems(1) ins])
      case (1 pos)
      then have "iname_register_pledges M rt1 desc pds = (st, rt')" using Cons.prems(2) Some ins by simp
      from Cons.IH [OF 1(3) this] have IH: "batch_post M (cd_name desc) rt1 (pledge_entries desc pds) st rt'" .
      have set1: "set (inames rt1) = set (?e # inames rt)" using insert_set [OF 1(5)] by simp
      have oth: "others (cd_name desc) (inames rt1) = others (cd_name desc) (inames rt)"
        unfolding 1(5) by (rule others_place) simp
      have fr: "fresh_batch (inames rt) (?e # pledge_entries desc pds) = fresh_batch (inames rt1) (pledge_entries desc pds)"
        using 1(2) fresh_batch_cong [OF set1] by (simp add: fresh_batch_Cons)
      show ?thesis
        unfolding es batch_post_def fr
        using IH table_only_trans [OF 1(4)] set1 oth unfolding batch_post_def by auto
    next
      case 2
      then have "st = GEAS_ERR_NAME" "rt' = iname_remove_contract rt (cd_name desc)"
        using Cons.prems(2) Some ins by simp_all
      then show ?thesis
        using 2 Cons.prems(1) unfolding es by (auto simp: batch_post_def fresh_batch_Cons) (simp_all add: table_only_def)
    next
      case 3
      then have "st = GEAS_ERR_OOM" "rt' = iname_remove_contract rt1 (cd_name desc)"
        using Cons.prems(2) Some ins by simp_all
      then show ?thesis using 3 by (auto simp: batch_post_def)
    qed
  qed
qed

section \<open>The registry invariant\<close>

text \<open>The table is sorted and within its capacity, it holds exactly the entries of the registered
  contracts, names are unique, and the fixed tables are within bounds.\<close>

definition reg_inv :: "registry \<Rightarrow> bool" where
  "reg_inv rt \<longleftrightarrow> table_ok rt \<and>
     set (inames rt) = (\<Union>d \<in> set (descs rt). set (desc_entries d)) \<and>
     distinct (map cd_name (descs rt)) \<and>
     length (descs rt) \<le> GEAS_MAX_CONTRACT_TYPES \<and> length (modules rt) \<le> GEAS_MAX_MODULES"

lemma desc_entries_contract: "e \<in> set (desc_entries d) \<Longrightarrow> ie_contract e = cd_name d"
  by (auto simp: desc_entries_def pledge_entries_def split: option.splits)

lemma others_id:
  assumes "reg_inv rt" and "name \<notin> cd_name ` set (descs rt)"
  shows "others name (inames rt) = inames rt"
  using assms by (auto simp: reg_inv_def filter_id_conv dest: desc_entries_contract)

lemma contract_mangled_alloc:
  assumes "iname_contract_mangled M rt desc = (r, rt')"
  shows "r = None \<and> (\<not> M (reg_mcalls rt) \<or> INT_MAX < length (contract_mangled desc)) \<or>
         r = Some (contract_mangled desc)"
    and "inames rt' = inames rt" "table_only rt rt'" "iname_cap rt' = iname_cap rt"
  using assms
  by (auto simp: iname_contract_mangled_def snprintf_def reg_alloc_def table_only_def
      split: if_splits prod.splits bool.splits)

definition reg_post :: "malloc \<Rightarrow> registry \<Rightarrow> GeasContractDesc \<Rightarrow> GeasStatus \<Rightarrow> registry \<Rightarrow> bool" where
  "reg_post M rt desc st rt' \<longleftrightarrow> table_ok rt' \<and> table_only rt rt' \<and>
     (st = GEAS_OK \<and> fresh_batch (inames rt) (desc_entries desc) \<and>
        set (inames rt') = set (inames rt) \<union> set (desc_entries desc) \<or>
      (st = GEAS_ERR_NAME \<and> \<not> fresh_batch (inames rt) (desc_entries desc) \<or>
       st = GEAS_ERR_OOM \<and> (\<not> (\<forall>i. M i) \<or> INT_MAX < length (contract_mangled desc))) \<and>
      (inames rt' = inames rt \<or> inames rt' = others (cd_name desc) (inames rt)))"

lemma iname_register_post:
  assumes "table_ok rt" and "iname_register M rt desc = (st, rt')"
  shows "reg_post M rt desc st rt'"
proof -
  obtain r rt1 where cm: "iname_contract_mangled M rt desc = (r, rt1)" by fastforce
  note a = contract_mangled_alloc [OF cm]
  have ok1: "table_ok rt1" using assms(1) a by (simp add: table_ok_def)
  show ?thesis
  proof (cases r)
    case None
    then show ?thesis using assms(2) cm a ok1 by (auto simp: iname_register_def reg_post_def)
  next
    case (Some cm')
    then have c: "cm' = contract_mangled desc" using a(1) by simp
    let ?e = "contract_entry desc (contract_mangled desc)"
    obtain st2 rt2 where ins: "iname_insert M rt1 ?e = (st2, rt2)" by fastforce
    show ?thesis
    proof (cases rule: iname_insert_spec [OF ok1 ins])
      case (1 pos)
      then have rp: "iname_register_pledges M rt2 desc (cd_pledges desc) = (st, rt')"
        using assms(2) cm Some c ins by (simp add: iname_register_def)
      note post = register_pledges_post [OF 1(3) rp]
      have set2: "set (inames rt2) = set (?e # inames rt)" using insert_set [OF 1(5)] a(2) by simp
      have oth: "others (cd_name desc) (inames rt2) = others (cd_name desc) (inames rt)"
        unfolding 1(5) a(2) by (rule others_place) simp
      have fr: "fresh_batch (inames rt) (desc_entries desc) =
          fresh_batch (inames rt2) (pledge_entries desc (cd_pledges desc))"
        using 1(2) a(2) fresh_batch_cong [OF set2] by (simp add: desc_entries_def fresh_batch_Cons)
      show ?thesis
        using post table_only_trans [OF table_only_trans [OF a(3) 1(4)]] set2 oth
        unfolding batch_post_def reg_post_def fr by (auto simp: desc_entries_def)
    next
      case 2
      then have "st = GEAS_ERR_NAME" "rt' = rt1"
        using assms(2) cm Some c ins by (simp_all add: iname_register_def)
      then show ?thesis using 2 a ok1 by (auto simp: desc_entries_def fresh_batch_Cons reg_post_def)
    next
      case 3
      then have "st = GEAS_ERR_OOM" "rt' = rt2"
        using assms(2) cm Some c ins by (simp_all add: iname_register_def)
      then show ?thesis using 3 a table_only_trans by (auto simp: reg_post_def)
    qed
  qed
qed

lemma register_contract_post:
  assumes inv: "reg_inv rt" and reg: "geas_register_contract M rt desc = (st, rt')"
  shows "reg_inv rt'"
    and "if st = GEAS_OK then descs rt' = descs rt @ [desc] \<and>
             set (inames rt') = set (inames rt) \<union> set (desc_entries desc) \<and> frozen rt' = frozen rt
         else descs rt' = descs rt \<and> inames rt' = inames rt \<and> frozen rt' = frozen rt"
    and "(\<forall>i. M i) \<and> length (contract_mangled desc) \<le> INT_MAX \<Longrightarrow>
         st = GEAS_OK \<longleftrightarrow> \<not> frozen rt \<and> length (descs rt) < GEAS_MAX_CONTRACT_TYPES \<and>
           cd_name desc \<notin> cd_name ` set (descs rt) \<and> fresh_batch (inames rt) (desc_entries desc)"
proof -
  let ?guard = "\<not> frozen rt \<and> length (descs rt) \<noteq> GEAS_MAX_CONTRACT_TYPES \<and>
    cd_name desc \<notin> cd_name ` set (descs rt)"
  have len: "length (descs rt) \<le> GEAS_MAX_CONTRACT_TYPES" using inv by (simp add: reg_inv_def)
  have "reg_inv rt' \<and> (if st = GEAS_OK then descs rt' = descs rt @ [desc] \<and>
             set (inames rt') = set (inames rt) \<union> set (desc_entries desc) \<and> frozen rt' = frozen rt
         else descs rt' = descs rt \<and> inames rt' = inames rt \<and> frozen rt' = frozen rt) \<and>
      ((\<forall>i. M i) \<and> length (contract_mangled desc) \<le> INT_MAX \<longrightarrow>
         (st = GEAS_OK \<longleftrightarrow> ?guard \<and> fresh_batch (inames rt) (desc_entries desc)))"
  proof (cases ?guard)
    case True
    then have ex: "\<not> list_ex (\<lambda>d. strcmp (cd_name d) (cd_name desc) = 0) (descs rt)"
      by (metis (mono_tags, lifting) image_eqI list_ex_iff strcmp_eq_0)
    obtain st1 rt1 where r: "iname_register M rt desc = (st1, rt1)" by fastforce
    have "table_ok rt" using inv by (simp add: reg_inv_def)
    from iname_register_post [OF this r] have post: "reg_post M rt desc st1 rt1" .
    have oth: "others (cd_name desc) (inames rt) = inames rt" by (rule others_id [OF inv]) (use True in simp)
    have eq: "geas_register_contract M rt desc =
        (if st1 \<noteq> GEAS_OK then (st1, rt1) else (GEAS_OK, rt1\<lparr>descs := descs rt1 @ [desc]\<rparr>))"
      using True ex r by (simp add: geas_register_contract_def)
    show ?thesis
      using post oth True len inv reg unfolding eq
      by (auto simp: reg_post_def reg_inv_def table_only_def table_ok_def split: if_splits)
  next
    case False
    then have "st \<noteq> GEAS_OK" "rt' = rt"
      using reg by (auto simp: geas_register_contract_def list_ex_iff split: if_splits)
    then show ?thesis using inv False by auto
  qed
  then show "reg_inv rt'"
    "if st = GEAS_OK then descs rt' = descs rt @ [desc] \<and>
             set (inames rt') = set (inames rt) \<union> set (desc_entries desc) \<and> frozen rt' = frozen rt
         else descs rt' = descs rt \<and> inames rt' = inames rt \<and> frozen rt' = frozen rt"
    "(\<forall>i. M i) \<and> length (contract_mangled desc) \<le> INT_MAX \<Longrightarrow>
         st = GEAS_OK \<longleftrightarrow> \<not> frozen rt \<and> length (descs rt) < GEAS_MAX_CONTRACT_TYPES \<and>
           cd_name desc \<notin> cd_name ` set (descs rt) \<and> fresh_batch (inames rt) (desc_entries desc)"
    using len by auto
qed

section \<open>The dump\<close>

abbreviation dump_text :: "GeasInameEntry list \<Rightarrow> string" where
  "dump_text tab \<equiv> concat (map iname_line tab)"

lemma dump_total_eq:
  "dump_total es t =
     (if \<exists>e \<in> set es. INT_MAX < length (iname_line e) then None else Some (t + length (dump_text es)))"
  by (induction es arbitrary: t) (auto simp: snprintf_def)

lemma dump_write_eq:
  assumes "\<forall>e \<in> set es. length (iname_line e) \<le> INT_MAX" and "length buf + length (dump_text es) < cap"
  shows "dump_write es cap buf = Some (buf @ dump_text es @ [CHR 0x00])"
  using assms
proof (induction es arbitrary: buf)
  case (Cons e es)
  then have "dump_write es cap (buf @ iname_line e) = Some ((buf @ iname_line e) @ dump_text es @ [CHR 0x00])"
    by (intro Cons.IH) auto
  then show ?case using Cons.prems by (auto simp: snprintf_def)
qed simp

lemma sorted_tables_eq:
  assumes "table_sorted xs" "table_sorted ys" "set xs = set ys"
  shows "xs = ys"
proof (rule map_sorted_distinct_set_unique [where f = ie_mangled])
  show d: "distinct (map ie_mangled xs)" "distinct (map ie_mangled ys)"
    using assms(1,2) strict_sorted_iff [of "map ie_mangled xs"] strict_sorted_iff [of "map ie_mangled ys"]
    by (auto simp: table_sorted_def sorted_wrt_map)
  show "inj_on ie_mangled (set xs \<union> set ys)" using d(1) assms(3) by (simp add: distinct_map)
  show "sorted (map ie_mangled xs)" "sorted (map ie_mangled ys)"
    using assms(1,2) by (auto simp: table_sorted_def sorted_wrt_map elim!: sorted_wrt_mono_rel [rotated])
qed (use assms in simp)

section \<open>Reachable registries\<close>

text \<open>The calls a host can make on the registration surface.  A module's registrar registers
  descriptors, in some order, and reports some status.\<close>

fun register_all :: "malloc \<Rightarrow> registry \<Rightarrow> GeasContractDesc list \<Rightarrow> registry" where
  "register_all M rt [] = rt"
| "register_all M rt (d # ds) = register_all M (snd (geas_register_contract M rt d)) ds"

definition registrar_ok :: "malloc \<Rightarrow> (registry \<Rightarrow> GeasStatus \<times> registry) \<Rightarrow> bool" where
  "registrar_ok M reg \<longleftrightarrow> (\<forall>rt. \<exists>ds. snd (reg rt) = register_all M rt ds)"

definition registry_init :: registry where
  "registry_init = \<lparr>descs = [], modules = [], inames = [], iname_cap = 0, frozen = False, reg_mcalls = 0\<rparr>"

inductive registry_step :: "malloc \<Rightarrow> registry \<Rightarrow> registry \<Rightarrow> bool" for M where
  register: "geas_register_contract M rt d = (st, rt') \<Longrightarrow> registry_step M rt rt'"
| freeze: "geas_runtime_freeze rt = (st, rt') \<Longrightarrow> registry_step M rt rt'"
| load: "geas_module_load dl rt path = (st, rt', closed) \<Longrightarrow>
     \<forall>p h reg. dl p = Some (h, Some reg) \<longrightarrow> registrar_ok M reg \<Longrightarrow> registry_step M rt rt'"

inductive_cases registry_stepE: "registry_step M rt rt'"

inductive registry_reach :: "malloc \<Rightarrow> registry \<Rightarrow> bool" for M where
  start: "registry_reach M registry_init"
| step: "registry_reach M rt \<Longrightarrow> registry_step M rt rt' \<Longrightarrow> registry_reach M rt'"

lemma register_all_inv:
  "reg_inv rt \<Longrightarrow> reg_inv (register_all M rt ds)"
proof (induction ds arbitrary: rt)
  case (Cons d ds)
  then show ?case using register_contract_post(1) [OF Cons.prems, of M d] by (cases "geas_register_contract M rt d") auto
qed simp

lemma reg_inv_init: "reg_inv registry_init"
  by (simp add: reg_inv_def registry_init_def table_ok_def table_sorted_def)

lemma reg_inv_step:
  assumes "registry_step M rt rt'" and inv: "reg_inv rt"
  shows "reg_inv rt'"
  using assms(1)
proof (cases rule: registry_step.cases)
  case (load dl path st closed)
  have mod: "reg_inv rt1" if d: "dl path = Some (h, Some reg)" and r: "reg rt = (st1, rt1)" for h reg st1 rt1
  proof -
    obtain ds where "snd (reg rt) = register_all M rt ds" using load(2) d unfolding registrar_ok_def by blast
    then show ?thesis using register_all_inv [OF inv, of M ds] r by simp
  qed
  have "reg_inv (rt1\<lparr>modules := modules rt1 @ [h]\<rparr>)"
    if "reg_inv rt1" "length (modules rt1) \<noteq> GEAS_MAX_MODULES" for rt1 h
    using that by (auto simp: reg_inv_def table_ok_def)
  then show ?thesis
    using load(1) inv mod
    by (auto simp: geas_module_load_def split: if_splits option.splits prod.splits)
next
  case (register d st)
  then show ?thesis by (rule register_contract_post(1) [OF inv])
next
  case (freeze st)
  then show ?thesis using inv by (auto simp: geas_runtime_freeze_def reg_inv_def table_ok_def)
qed

lemma registry_reach_inv: "registry_reach M rt \<Longrightarrow> reg_inv rt"
  by (induction rule: registry_reach.induct) (auto intro: reg_inv_init reg_inv_step)

end
