(* ===== verification/Geas_Iname_Props.thy ===== *)
theory Geas_Iname_Props
  imports Geas_Iname_Facts
begin

text \<open>The contract of the registration surface.\<close>

definition demo_desc :: GeasContractDesc where
  "demo_desc =
     \<lparr>cd_name = ''Bank'', cd_shape_hash = 0xAB, cd_version = 1,
      cd_pledges = [\<lparr>pd_name = ''open'', pd_mangled = Some ''m_open'', pd_nargs = 1, pd_fn = Some 7, pd_sub = -1\<rparr>],
      cd_vows = [], cd_subs = [], cd_atoms = [], cd_has_reqs = False, cd_req_fulfill = [],
      cd_req_partial = [], cd_req_break = [], cd_schemas = [], cd_sub_flags = None\<rparr>"

lemma registry_init_fields [simp]: "descs registry_init = []" "inames registry_init = []"
    "modules registry_init = []" "\<not> frozen registry_init"
  by (simp_all add: registry_init_def)

lemma demo_registers: "fst (geas_register_contract (\<lambda>_. True) registry_init demo_desc) = GEAS_OK"
proof -
  obtain st rt' where r: "geas_register_contract (\<lambda>_. True) registry_init demo_desc = (st, rt')" by fastforce
  have "fresh_batch (inames registry_init) (desc_entries demo_desc)"
    by (simp add: fresh_batch_def desc_entries_def pledge_entries_def demo_desc_def registry_init_def
        contract_mangled_def)
  moreover have "length (contract_mangled demo_desc) \<le> INT_MAX"
    by (simp add: contract_mangled_def demo_desc_def fmt_016llx_def fmt_u_def dec_digits.simps INT_MAX_def)
  ultimately show ?thesis
    using register_contract_post(3) [OF reg_inv_init r] r
    by (simp add: registry_init_def GEAS_MAX_CONTRACT_TYPES_def)
qed

text \<open>C11.  Registration is all or nothing.  From a registry that satisfies the invariant,
  \<^verbatim>\<open>geas_register_contract\<close> keeps the invariant under every pattern of allocation failures; on
  success the descriptor is appended and the table gains exactly the contract's entries, on any
  failure the descriptors and the table are what they were, the rollback of a half done
  registration included.  When no allocation fails it succeeds exactly if the surface is not
  frozen, the type table has room, the name is new and no mangled name collides, with the table or
  within the descriptor.\<close>

theorem register_contract_atomic:
  assumes "reg_inv rt" and "geas_register_contract M rt desc = (st, rt')"
  shows "reg_inv rt' \<and>
    (if st = GEAS_OK then descs rt' = descs rt @ [desc] \<and>
        set (inames rt') = set (inames rt) \<union> set (desc_entries desc)
     else descs rt' = descs rt \<and> inames rt' = inames rt) \<and>
    ((\<forall>i. M i) \<and> length (contract_mangled desc) \<le> INT_MAX \<longrightarrow>
      (st = GEAS_OK \<longleftrightarrow> \<not> frozen rt \<and> length (descs rt) < GEAS_MAX_CONTRACT_TYPES \<and>
         cd_name desc \<notin> cd_name ` set (descs rt) \<and> fresh_batch (inames rt) (desc_entries desc)))"
  using register_contract_post [OF assms] by (auto split: if_splits)

theorem register_contract_atomic_witness:
  "fst (geas_register_contract (\<lambda>_. True) registry_init demo_desc) = GEAS_OK \<and>
   descs (snd (geas_register_contract (\<lambda>_. True) registry_init demo_desc)) = [demo_desc]"
  using register_contract_atomic [OF reg_inv_init prod.collapse [symmetric], of "\<lambda>_. True" demo_desc]
    demo_registers
  by simp

text \<open>C12.  The binary search is a correct lookup: in a registry that satisfies the invariant it ends,
  and finds an entry exactly when one has that mangled name.\<close>

theorem iname_lookup_correct:
  assumes "reg_inv rt"
  shows "(geas_iname_lookup rt m = Inr e \<longleftrightarrow> e \<in> set (inames rt) \<and> ie_mangled e = m) \<and>
     (geas_iname_lookup rt m = Inl GEAS_ERR_NAME \<longleftrightarrow> (\<forall>e \<in> set (inames rt). ie_mangled e \<noteq> m))"
proof -
  have srt: "table_sorted (inames rt)" using assms by (simp add: reg_inv_def table_ok_def)
  obtain hit pos where f: "iname_find rt m = (hit, pos)" by fastforce
  have hit: "hit \<longleftrightarrow> m \<in> keys (inames rt)" using iname_find_hit [OF srt, of m] f by simp
  have uniq: "a = b" if "a \<in> set (inames rt)" "b \<in> set (inames rt)" "ie_mangled a = ie_mangled b" for a b
    using srt that strict_sorted_iff [of "map ie_mangled (inames rt)"]
    by (auto simp: table_sorted_def sorted_wrt_map distinct_map inj_on_def)
  show ?thesis
  proof (cases hit)
    case True
    then have "pos < length (inames rt)" "ie_mangled (inames rt ! pos) = m"
      using iname_find_post [OF srt, of m] f by (simp_all add: search_post_def)
    then show ?thesis using f True uniq [of e "inames rt ! pos"]
      by (auto simp: geas_iname_lookup_def)
  next
    case False
    then show ?thesis using f hit by (auto simp: geas_iname_lookup_def)
  qed
qed

theorem iname_lookup_correct_witness:
  "geas_iname_lookup registry_init ''m_open'' = Inl GEAS_ERR_NAME"
  using iname_lookup_correct [OF reg_inv_init, of "''m_open''"] by (simp add: registry_init_def)

text \<open>C13.  The dump follows its size protocol and is byte stable.  In every reachable registry whose
  lines fit an \<^verbatim>\<open>int\<close> it reports one byte more than the text, succeeds exactly with that capacity
  and then leaves the lines in table order and one terminator; two reachable registries with the
  same entries dump the same text, whatever order they registered in.\<close>

theorem iname_dump_exact:
  assumes "registry_reach M rt" and "\<forall>e \<in> set (inames rt). length (iname_line e) \<le> INT_MAX"
  shows "geas_iname_dump rt buf =
      (let need = 1 + length (dump_text (inames rt)) in
       if (case buf of None \<Rightarrow> 0 | Some c \<Rightarrow> c) < need then (GEAS_ERR_OOM, Some need, None)
       else (GEAS_OK, Some need, Some (dump_text (inames rt) @ [CHR 0x00]))) \<and>
     (\<forall>M' rt'. registry_reach M' rt' \<and> set (inames rt') = set (inames rt) \<longrightarrow>
        geas_iname_dump rt' buf = geas_iname_dump rt buf)"
proof -
  have t: "dump_total (inames rt) 1 = Some (1 + length (dump_text (inames rt)))"
    using assms(2) by (auto simp: dump_total_eq)
  have w: "dump_write (inames rt) cap [] = Some (dump_text (inames rt) @ [CHR 0x00])"
    if "\<not> cap < 1 + length (dump_text (inames rt))" for cap
    using dump_write_eq [OF assms(2), of "[]" cap] that by simp
  have same: "inames rt' = inames rt" if "registry_reach M' rt'" "set (inames rt') = set (inames rt)" for M' rt'
    using sorted_tables_eq that registry_reach_inv [OF that(1)] registry_reach_inv [OF assms(1)]
    by (simp add: reg_inv_def table_ok_def)
  have "geas_iname_dump rt' buf = geas_iname_dump rt buf" if "inames rt' = inames rt" for rt'
    unfolding geas_iname_dump_def that ..
  then have "\<forall>M' rt'. registry_reach M' rt' \<and> set (inames rt') = set (inames rt) \<longrightarrow>
        geas_iname_dump rt' buf = geas_iname_dump rt buf" using same by blast
  moreover have "geas_iname_dump rt buf =
      (let need = 1 + length (dump_text (inames rt)) in
       if (case buf of None \<Rightarrow> 0 | Some c \<Rightarrow> c) < need then (GEAS_ERR_OOM, Some need, None)
       else (GEAS_OK, Some need, Some (dump_text (inames rt) @ [CHR 0x00])))"
    using w by (simp add: geas_iname_dump_def Let_def t del: One_nat_def)
  ultimately show ?thesis by blast
qed

theorem iname_dump_exact_witness:
  "geas_iname_dump registry_init (Some 1) = (GEAS_OK, Some 1, Some [CHR 0x00])"
  using iname_dump_exact [OF registry_reach.start [of "\<lambda>_. True"], of "Some 1"]
  by (simp add: registry_init_def)



end
