(* ===== verification/Geas_Sql.thy ===== *)
theory Geas_Sql
  imports Geas_Desc
begin

text \<open>
  The statement builders of \<^verbatim>\<open>runtime.c\<close> (the \<^verbatim>\<open>store_sql_*\<close> family) and of \<^verbatim>\<open>store.c\<close>.  Each computes
  a byte budget \<^verbatim>\<open>need\<close>, allocates that many bytes and appends pieces with
  \<^verbatim>\<open>n += snprintf(q + n, need - n, ...)\<close>.  \<open>sput\<close> is that append: a piece that does not fit,
  together with the terminator, would be cut and make the next \<^verbatim>\<open>need - n\<close> wrap, and is the value
  \<open>None\<close>.  The lemmas show that no builder ever reaches \<open>None\<close> and what its text is.
\<close>

section \<open>Buffers\<close>

definition sput :: "nat \<Rightarrow> string \<Rightarrow> string option \<Rightarrow> string option" where
  "sput need s b =
     (case b of None \<Rightarrow> None
      | Some t \<Rightarrow> if length t + length s < need then Some (t @ s) else None)"

record GeasStoreTerm =
  t_col :: nat
  t_cmp :: nat
  t_value :: "GeasValue option"

definition GEAS_CMP_GE :: nat where
  "GEAS_CMP_GE = 5"

definition ops :: "string list" where
  "ops = [''='', ''<>'', ''<'', ''<='', ''>'', ''>='']"

abbreviation col_name :: "GeasSchemaDesc \<Rightarrow> nat \<Rightarrow> string" where
  "col_name s i \<equiv> sc_name (sd_cols s ! i)"

definition store_col_types :: "GeasSchemaDesc \<Rightarrow> u32 list" where
  "store_col_types s = map sc_ty (sd_cols s)"

fun cols_span :: "GeasSchemaCol list \<Rightarrow> nat" where
  "cols_span [] = 0"
| "cols_span (c # cs) = length (sc_name c) + 4 + cols_span cs"

definition store_cols_span :: "GeasSchemaDesc \<Rightarrow> nat" where
  "store_cols_span s = cols_span (sd_cols s)"

text \<open>The loops that append a column list and an and-list of terms; \<open>i\<close> is the loop counter.\<close>

fun put_cols :: "nat \<Rightarrow> nat \<Rightarrow> GeasSchemaCol list \<Rightarrow> string option \<Rightarrow> string option" where
  "put_cols need i [] b = b"
| "put_cols need i (c # cs) b =
     put_cols need (Suc i) cs (sput need ((if i \<noteq> 0 then '', '' else '''') @ sc_name c) b)"

definition term_text :: "GeasSchemaDesc \<Rightarrow> nat \<Rightarrow> bool \<Rightarrow> GeasStoreTerm \<Rightarrow> string" where
  "term_text s i sep t =
     (if sep then '' AND '' else '''') @ col_name s (t_col t) @ '' '' @ ops ! t_cmp t @ '' ?'' @
     fmt_u (of_nat (i + 1))"

fun put_terms :: "nat \<Rightarrow> GeasSchemaDesc \<Rightarrow> nat \<Rightarrow> GeasStoreTerm list \<Rightarrow> string option \<Rightarrow> string option" where
  "put_terms need s i [] b = b"
| "put_terms need s i (t # ts) b = put_terms need s (Suc i) ts (sput need (term_text s i (i \<noteq> 0) t) b)"

fun terms_span :: "GeasSchemaDesc \<Rightarrow> GeasStoreTerm list \<Rightarrow> nat" where
  "terms_span s [] = 0"
| "terms_span s (t # ts) =
     length (col_name s (t_col t)) + length (ops ! t_cmp t) + 24 + terms_span s ts"

section \<open>The builders over one and-group\<close>

definition store_sql_select :: "GeasSchemaDesc \<Rightarrow> string option" where
  "store_sql_select s =
     (let need = 48 + length (sd_table s) + length (col_name s 0) + store_cols_span s
      in sput need ('' FROM '' @ sd_table s @ '' WHERE '' @ col_name s 0 @ ''=?'')
           (put_cols need 0 (sd_cols s) (sput need ''SELECT '' (Some ''''))))"

definition store_sql_select_eq :: "GeasSchemaDesc \<Rightarrow> nat \<Rightarrow> string option" where
  "store_sql_select_eq s col =
     (let need = 48 + length (sd_table s) + length (col_name s col) + store_cols_span s
      in sput need ('' FROM '' @ sd_table s @ '' WHERE '' @ col_name s col @ ''=?1'')
           (put_cols need 0 (sd_cols s) (sput need ''SELECT '' (Some ''''))))"

definition store_sql_select_where :: "GeasSchemaDesc \<Rightarrow> GeasStoreTerm list \<Rightarrow> string option" where
  "store_sql_select_where s terms =
     (let need = 48 + length (sd_table s) + store_cols_span s + terms_span s terms
      in put_terms need s 0 terms
           (sput need ('' FROM '' @ sd_table s @ '' WHERE '')
             (put_cols need 0 (sd_cols s) (sput need ''SELECT '' (Some '''')))))"

definition store_sql_count_where :: "GeasSchemaDesc \<Rightarrow> GeasStoreTerm list \<Rightarrow> string option" where
  "store_sql_count_where s terms =
     (let need = 48 + length (sd_table s) + terms_span s terms
      in put_terms need s 0 terms
           (sput need (''SELECT COUNT(*) FROM '' @ sd_table s @ '' WHERE '') (Some '''')))"

definition sum_zero :: "GeasSchemaDesc \<Rightarrow> nat \<Rightarrow> string" where
  "sum_zero s col = (if sc_ty (sd_cols s ! col) = ty_num GEAS_TY_FLOAT then ''0.0'' else ''0'')"

definition store_sql_sum_where :: "GeasSchemaDesc \<Rightarrow> nat \<Rightarrow> GeasStoreTerm list \<Rightarrow> string option" where
  "store_sql_sum_where s sum_col terms =
     (let need = 72 + length (sd_table s) + length (col_name s sum_col) + length (sum_zero s sum_col) +
            terms_span s terms
      in put_terms need s 0 terms
           (sput need (''SELECT COALESCE(SUM('' @ col_name s sum_col @ ''), '' @ sum_zero s sum_col @
              '') FROM '' @ sd_table s @ '' WHERE '') (Some '''')))"

definition order_dir :: "nat \<Rightarrow> string" where
  "order_dir order_desc = (if order_desc \<noteq> 0 then ''DESC'' else ''ASC'')"

definition store_sql_select_ordered ::
    "GeasSchemaDesc \<Rightarrow> GeasStoreTerm list \<Rightarrow> nat \<Rightarrow> nat \<Rightarrow> string option" where
  "store_sql_select_ordered s terms order_col order_desc =
     (let dir = order_dir order_desc;
          need = 64 + length (sd_table s) + store_cols_span s + length (col_name s order_col) + length dir +
            terms_span s terms
      in sput need ('' ORDER BY '' @ col_name s order_col @ '' '' @ dir)
           (put_terms need s 0 terms
             (sput need ('' FROM '' @ sd_table s @ '' WHERE '')
               (put_cols need 0 (sd_cols s) (sput need ''SELECT '' (Some ''''))))))"

definition store_sql_select_page ::
    "GeasSchemaDesc \<Rightarrow> GeasStoreTerm list \<Rightarrow> nat \<Rightarrow> nat \<Rightarrow> string option" where
  "store_sql_select_page s terms order_col order_desc =
     (let dir = order_dir order_desc;
          need = 80 + length (sd_table s) + store_cols_span s + length (col_name s order_col) + length dir +
            terms_span s terms
      in sput need ('' ORDER BY '' @ col_name s order_col @ '' '' @ dir @ '' LIMIT ?'' @
             fmt_u (of_nat (length terms + 1)))
           (put_terms need s 0 terms
             (sput need ('' FROM '' @ sd_table s @ '' WHERE '')
               (put_cols need 0 (sd_cols s) (sput need ''SELECT '' (Some ''''))))))"

section \<open>The builders over or-groups\<close>

definition store_sql_any_where_span :: "GeasSchemaDesc \<Rightarrow> GeasStoreTerm list \<Rightarrow> nat \<Rightarrow> nat" where
  "store_sql_any_where_span s terms ngroups = ngroups * 8 + terms_span s terms"

text \<open>The inner loop of one group from term \<open>term_i\<close>, and the loop over the groups.\<close>

fun put_group ::
    "nat \<Rightarrow> GeasSchemaDesc \<Rightarrow> nat \<Rightarrow> nat \<Rightarrow> GeasStoreTerm list \<Rightarrow> string option \<Rightarrow> string option" where
  "put_group need s i term_i [] b = b"
| "put_group need s i term_i (t # ts) b =
     put_group need s (Suc i) (Suc term_i) ts (sput need (term_text s term_i (i \<noteq> 0) t) b)"

fun store_sql_emit_any_where ::
    "nat \<Rightarrow> GeasSchemaDesc \<Rightarrow> nat \<Rightarrow> nat \<Rightarrow> GeasStoreTerm list \<Rightarrow> nat list \<Rightarrow> string option \<Rightarrow> string option"
where
  "store_sql_emit_any_where need s g term_i terms [] b = b"
| "store_sql_emit_any_where need s g term_i terms (len # lens) b =
     store_sql_emit_any_where need s (Suc g) (term_i + len) (drop len terms) lens
       (sput need '')''
         (put_group need s 0 term_i (take len terms)
           (sput need ((if g \<noteq> 0 then '' OR '' else '''') @ ''('') b)))"

definition GEAS_STORE_NO_ORDER :: nat where
  "GEAS_STORE_NO_ORDER = 4294967295"

definition store_sql_select_any ::
    "GeasSchemaDesc \<Rightarrow> GeasStoreTerm list \<Rightarrow> nat list \<Rightarrow> nat \<Rightarrow> nat \<Rightarrow> bool \<Rightarrow> string option" where
  "store_sql_select_any s terms group_lens order_col order_desc bounded =
     (let ordered = (order_col \<noteq> GEAS_STORE_NO_ORDER);
          dir = order_dir order_desc;
          need = 80 + length (sd_table s) + store_cols_span s +
            store_sql_any_where_span s terms (length group_lens) +
            (if ordered then length (col_name s order_col) + length dir + 16 else 0) +
            (if bounded then 24 else 0);
          b = store_sql_emit_any_where need s 0 0 terms group_lens
                (sput need ('' FROM '' @ sd_table s @ '' WHERE '')
                  (put_cols need 0 (sd_cols s) (sput need ''SELECT '' (Some ''''))));
          b = (if ordered then sput need ('' ORDER BY '' @ col_name s order_col @ '' '' @ dir) b else b)
      in if bounded then sput need ('' LIMIT ?'' @ fmt_u (of_nat (length terms + 1))) b else b)"

definition store_sql_count_any :: "GeasSchemaDesc \<Rightarrow> GeasStoreTerm list \<Rightarrow> nat list \<Rightarrow> string option" where
  "store_sql_count_any s terms group_lens =
     (let need = 48 + length (sd_table s) + store_sql_any_where_span s terms (length group_lens)
      in store_sql_emit_any_where need s 0 0 terms group_lens
           (sput need (''SELECT COUNT(*) FROM '' @ sd_table s @ '' WHERE '') (Some '''')))"

definition store_sql_sum_any :: "GeasSchemaDesc \<Rightarrow> nat \<Rightarrow> GeasStoreTerm list \<Rightarrow> nat list \<Rightarrow> string option" where
  "store_sql_sum_any s sum_col terms group_lens =
     (let need = 72 + length (sd_table s) + length (col_name s sum_col) + length (sum_zero s sum_col) +
            store_sql_any_where_span s terms (length group_lens)
      in store_sql_emit_any_where need s 0 0 terms group_lens
           (sput need (''SELECT COALESCE(SUM('' @ col_name s sum_col @ ''), '' @ sum_zero s sum_col @
              '') FROM '' @ sd_table s @ '' WHERE '') (Some '''')))"

definition store_sql_extreme_any ::
    "GeasSchemaDesc \<Rightarrow> nat \<Rightarrow> nat \<Rightarrow> GeasStoreTerm list \<Rightarrow> nat list \<Rightarrow> string option" where
  "store_sql_extreme_any s agg_col desc terms group_lens =
     (let dir = order_dir desc;
          need = 80 + length (sd_table s) + length (col_name s agg_col) * 2 + length dir +
            store_sql_any_where_span s terms (length group_lens)
      in sput need ('' ORDER BY '' @ col_name s agg_col @ '' '' @ dir @ '' LIMIT 1'')
           (store_sql_emit_any_where need s 0 0 terms group_lens
             (sput need (''SELECT '' @ col_name s agg_col @ '' FROM '' @ sd_table s @ '' WHERE '') (Some ''''))))"

definition store_sql_avg_any :: "GeasSchemaDesc \<Rightarrow> nat \<Rightarrow> GeasStoreTerm list \<Rightarrow> nat list \<Rightarrow> string option" where
  "store_sql_avg_any s agg_col terms group_lens =
     (let need = 96 + length (sd_table s) + length (col_name s agg_col) + length (sum_zero s agg_col) +
            store_sql_any_where_span s terms (length group_lens)
      in store_sql_emit_any_where need s 0 0 terms group_lens
           (sput need (''SELECT COUNT(*), COALESCE(SUM('' @ col_name s agg_col @ ''), '' @
              sum_zero s agg_col @ '') FROM '' @ sd_table s @ '' WHERE '') (Some '''')))"

section \<open>The write statements\<close>

fun put_marks :: "nat \<Rightarrow> nat \<Rightarrow> GeasSchemaCol list \<Rightarrow> string option \<Rightarrow> string option" where
  "put_marks need i [] b = b"
| "put_marks need i (c # cs) b = put_marks need (Suc i) cs (sput need ((if i \<noteq> 0 then '', '' else '''') @ ''?'') b)"

definition store_sql_insert :: "GeasSchemaDesc \<Rightarrow> string option" where
  "store_sql_insert s =
     (let need = 48 + length (sd_table s) + store_cols_span s + length (sd_cols s) * 3
      in sput need '')''
           (put_marks need 0 (sd_cols s)
             (sput need '') VALUES(''
               (put_cols need 0 (sd_cols s)
                 (sput need (''INSERT INTO '' @ sd_table s @ ''('') (Some ''''))))))"

fun put_sets :: "nat \<Rightarrow> nat \<Rightarrow> GeasSchemaCol list \<Rightarrow> string option \<Rightarrow> string option" where
  "put_sets need i [] b = b"
| "put_sets need i (c # cs) b =
     put_sets need (Suc i) cs (sput need ((if i \<noteq> 0 then '', '' else '''') @ sc_name c @ ''=?'') b)"

definition store_sql_update :: "GeasSchemaDesc \<Rightarrow> string option" where
  "store_sql_update s =
     (let need = 48 + length (sd_table s) + length (col_name s 0) + store_cols_span s * 2
      in sput need ('' WHERE '' @ col_name s 0 @ ''=?'')
           (put_sets need 0 (sd_cols s) (sput need (''UPDATE '' @ sd_table s @ '' SET '') (Some ''''))))"

definition store_sql_delete :: "GeasSchemaDesc \<Rightarrow> string option" where
  "store_sql_delete s =
     sput (48 + length (sd_table s) + length (col_name s 0))
       (''DELETE FROM '' @ sd_table s @ '' WHERE '' @ col_name s 0 @ ''=?'') (Some '''')"

section \<open>Facts\<close>

fun sep_list :: "string \<Rightarrow> string list \<Rightarrow> string" where
  "sep_list sep [] = ''''"
| "sep_list sep [x] = x"
| "sep_list sep (x # xs) = x @ sep @ sep_list sep xs"

lemma sput_fits: "length t + length s < need \<Longrightarrow> sput need s (Some t) = Some (t @ s)"
  by (simp add: sput_def)

lemma dec_digits_len:
  assumes "n < 10 ^ Suc k"
  shows "length (dec_digits n) \<le> Suc k"
  using assms
proof (induction k arbitrary: n)
  case 0
  then show ?case by (simp add: dec_digits.simps)
next
  case (Suc k)
  show ?case
  proof (cases "n < 10")
    case True
    then show ?thesis by (simp add: dec_digits.simps)
  next
    case False
    have "n div 10 < 10 ^ Suc k" using Suc.prems by (simp add: div_less_iff_less_mult)
    from Suc.IH [OF this] False show ?thesis by (subst dec_digits.simps) simp
  qed
qed

lemma fmt_u_len: "length (fmt_u w) \<le> 10"
proof -
  have "unat w < 2 ^ 32" using unsigned_less [of w] by simp
  then have "unat w < 10 ^ Suc 9" by simp
  from dec_digits_len [OF this] show ?thesis by (simp add: fmt_u_def)
qed

text \<open>Every loop appends a list of pieces.\<close>

definition put_all :: "nat \<Rightarrow> string list \<Rightarrow> string option \<Rightarrow> string option" where
  "put_all need ps b = foldl (\<lambda>b p. sput need p b) b ps"

lemma put_all_fits:
  "length t + length (concat ps) < need \<Longrightarrow> put_all need ps (Some t) = Some (t @ concat ps)"
  by (induction ps arbitrary: t) (simp_all add: put_all_def sput_fits)

fun sep_pieces :: "string \<Rightarrow> nat \<Rightarrow> string list \<Rightarrow> string list" where
  "sep_pieces sep i [] = []"
| "sep_pieces sep i (x # xs) = ((if i \<noteq> 0 then sep else '''') @ x) # sep_pieces sep (Suc i) xs"

lemma sep_pieces_tail:
  "concat (sep_pieces sep (Suc i) xs) = (if xs = [] then [] else sep @ sep_list sep xs)"
proof (induction xs arbitrary: i)
  case (Cons x xs)
  then show ?case by (cases xs) simp_all
qed simp

lemma sep_pieces_text: "concat (sep_pieces sep 0 xs) = sep_list sep xs"
proof (cases xs)
  case (Cons y ys)
  have "concat (sep_pieces sep 0 (y # ys)) = y @ concat (sep_pieces sep (Suc 0) ys)" by simp
  then show ?thesis unfolding Cons sep_pieces_tail by (cases ys) simp_all
qed simp

fun term_bodies :: "GeasSchemaDesc \<Rightarrow> nat \<Rightarrow> GeasStoreTerm list \<Rightarrow> string list" where
  "term_bodies s i [] = []"
| "term_bodies s i (t # ts) = term_text s i False t # term_bodies s (Suc i) ts"

lemma put_cols_pieces: "put_cols need i cs b = put_all need (sep_pieces '', '' i (map sc_name cs)) b"
  by (induction cs arbitrary: i b) (simp_all add: put_all_def)

lemma put_marks_pieces: "put_marks need i cs b = put_all need (sep_pieces '', '' i (map (\<lambda>_. ''?'') cs)) b"
  by (induction cs arbitrary: i b) (simp_all add: put_all_def)

lemma put_sets_pieces:
  "put_sets need i cs b = put_all need (sep_pieces '', '' i (map (\<lambda>c. sc_name c @ ''=?'') cs)) b"
  by (induction cs arbitrary: i b) (simp_all add: put_all_def)

lemma put_group_pieces:
  "put_group need s i k ts b = put_all need (sep_pieces '' AND '' i (term_bodies s k ts)) b"
  by (induction ts arbitrary: i k b) (simp_all add: put_all_def term_text_def)

lemma put_terms_group: "put_terms need s i ts b = put_group need s i i ts b"
  by (induction ts arbitrary: i b) simp_all

lemma put_terms_pieces:
  "put_terms need s i ts b = put_all need (sep_pieces '' AND '' i (term_bodies s i ts)) b"
  by (simp add: put_terms_group put_group_pieces)

lemmas put_loops = put_cols_pieces put_marks_pieces put_sets_pieces put_group_pieces put_terms_pieces

lemma cols_len:
  "length (concat (sep_pieces '', '' i (map sc_name cs))) \<le> cols_span cs"
  "length (concat (sep_pieces '', '' i (map (\<lambda>_. ''?'') cs))) \<le> length cs * 3"
  "length (concat (sep_pieces '', '' i (map (\<lambda>c. sc_name c @ ''=?'') cs))) \<le> cols_span cs"
proof (induction cs arbitrary: i)
  case (Cons c cs)
  { case 1 show ?case using Cons(1) [of "Suc i"] by auto }
  { case 2 show ?case using Cons(2) [of "Suc i"] by auto }
  { case 3 show ?case using Cons(3) [of "Suc i"] by auto }
qed simp_all

lemma terms_len: "length (concat (sep_pieces '' AND '' i (term_bodies s k ts))) \<le> terms_span s ts"
proof (induction ts arbitrary: i k)
  case (Cons t ts)
  show ?case using Cons [of "Suc i" "Suc k"] fmt_u_len [of "of_nat (k + 1)"] by (auto simp: term_text_def)
qed simp

text \<open>The clause of an or of and-groups.\<close>

fun group_texts :: "GeasSchemaDesc \<Rightarrow> nat \<Rightarrow> GeasStoreTerm list \<Rightarrow> nat list \<Rightarrow> string list" where
  "group_texts s i terms [] = []"
| "group_texts s i terms (len # lens) =
     (''('' @ sep_list '' AND '' (term_bodies s i (take len terms)) @ '')'') #
     group_texts s (i + len) (drop len terms) lens"

lemma terms_span_split: "terms_span s (take n ts) + terms_span s (drop n ts) = terms_span s ts"
proof -
  have "terms_span s (xs @ ys) = terms_span s xs + terms_span s ys" for xs ys
    by (induction xs) simp_all
  from this [of "take n ts" "drop n ts"] show ?thesis by simp
qed

lemma groups_len:
  "length (concat (sep_pieces '' OR '' g (group_texts s i terms lens))) \<le>
     store_sql_any_where_span s terms (length lens)"
proof (induction lens arbitrary: g i terms)
  case (Cons len lens)
  show ?case
    using Cons [of "Suc g" "i + len" "drop len terms"] terms_len [of 0 s i "take len terms"]
      terms_span_split [of s len terms]
    by (auto simp: store_sql_any_where_span_def sep_pieces_text)
qed (simp add: store_sql_any_where_span_def)

lemma emit_any_where_fits:
  assumes "length t + store_sql_any_where_span s terms (length lens) < need"
  shows "store_sql_emit_any_where need s g i terms lens (Some t) =
     Some (t @ concat (sep_pieces '' OR '' g (group_texts s i terms lens)))"
  using assms
proof (induction lens arbitrary: g i terms t)
  case (Cons len lens)
  let ?pre = "(if g \<noteq> 0 then '' OR '' else '''') @ ''(''"
  let ?body = "concat (sep_pieces '' AND '' 0 (term_bodies s i (take len terms)))"
  have span: "length ?body \<le> terms_span s (take len terms)" by (rule terms_len)
  have tot: "length t + 8 + length lens * 8 + terms_span s (take len terms) + terms_span s (drop len terms) < need"
    using Cons.prems terms_span_split [of s len terms] by (simp add: store_sql_any_where_span_def)
  have p: "length ?pre \<le> 5" by simp
  have "sput need ?pre (Some t) = Some (t @ ?pre)" using tot p by (intro sput_fits) linarith
  moreover have "put_group need s 0 i (take len terms) (Some (t @ ?pre)) = Some ((t @ ?pre) @ ?body)"
    unfolding put_loops using tot p span by (intro put_all_fits) simp
  moreover have "sput need '')'' (Some ((t @ ?pre) @ ?body)) = Some (((t @ ?pre) @ ?body) @ '')'')"
    using tot p span by (intro sput_fits) simp
  moreover have "store_sql_emit_any_where need s (Suc g) (i + len) (drop len terms) lens
      (Some (((t @ ?pre) @ ?body) @ '')'')) =
      Some ((((t @ ?pre) @ ?body) @ '')'') @ concat (sep_pieces '' OR '' (Suc g) (group_texts s (i + len) (drop len terms) lens)))"
    by (rule Cons.IH) (use tot p span in \<open>simp add: store_sql_any_where_span_def\<close>)
  ultimately show ?case by (simp add: sep_pieces_text)
qed simp

end
