(* ===== verification/Geas_Sql_Props.thy ===== *)
theory Geas_Sql_Props
  imports Geas_Sql
begin

text \<open>No statement builder overruns its buffer, and what each one builds.\<close>

section \<open>Reference texts\<close>

abbreviation cols_text :: "GeasSchemaDesc \<Rightarrow> string" where
  "cols_text s \<equiv> sep_list '', '' (map sc_name (sd_cols s))"

abbreviation all_text :: "GeasSchemaDesc \<Rightarrow> GeasStoreTerm list \<Rightarrow> string" where
  "all_text s terms \<equiv> sep_list '' AND '' (term_bodies s 0 terms)"

abbreviation any_text :: "GeasSchemaDesc \<Rightarrow> GeasStoreTerm list \<Rightarrow> nat list \<Rightarrow> string" where
  "any_text s terms lens \<equiv> sep_list '' OR '' (group_texts s 0 terms lens)"

lemma cols_text_len: "length (cols_text s) \<le> store_cols_span s"
  using cols_len(1) [of 0 "sd_cols s"] by (simp add: sep_pieces_text store_cols_span_def)

lemma all_text_len: "length (all_text s terms) \<le> terms_span s terms"
  using terms_len [of 0 s 0 terms] by (simp add: sep_pieces_text)


text \<open>One step of a builder: a bounded piece, a column list, an and-list or an or-list.\<close>

lemma put_cols_fits:
  "length t + store_cols_span s < need \<Longrightarrow> put_cols need 0 (sd_cols s) (Some t) = Some (t @ cols_text s)"
  unfolding put_loops using put_all_fits [of t "sep_pieces '', '' 0 (map sc_name (sd_cols s))" need] cols_text_len [of s]
  by (simp add: sep_pieces_text)

lemma put_terms_fits:
  "length t + terms_span s terms < need \<Longrightarrow> put_terms need s 0 terms (Some t) = Some (t @ all_text s terms)"
  unfolding put_loops using put_all_fits [of t "sep_pieces '' AND '' 0 (term_bodies s 0 terms)" need] all_text_len [of s terms]
  by (simp add: sep_pieces_text)

lemma put_any_fits:
  "length t + store_sql_any_where_span s terms (length lens) < need \<Longrightarrow>
     store_sql_emit_any_where need s 0 0 terms lens (Some t) = Some (t @ any_text s terms lens)"
  using emit_any_where_fits [of t s terms lens need 0 0] by (simp add: sep_pieces_text)

lemmas put_fits = sput_fits put_cols_fits put_terms_fits put_any_fits

lemma sum_zero_len: "length (sum_zero s c) \<le> 3" "length (order_dir d) \<le> 4"
  by (simp_all add: sum_zero_def order_dir_def)

lemma sql_select_text:
  "store_sql_select s = Some (''SELECT '' @ cols_text s @ '' FROM '' @ sd_table s @ '' WHERE '' @ col_name s 0 @ ''=?'')"
  "store_sql_select_eq s c = Some (''SELECT '' @ cols_text s @ '' FROM '' @ sd_table s @ '' WHERE '' @ col_name s c @ ''=?1'')"
  using cols_text_len [of s]
  by (simp_all add: store_sql_select_def store_sql_select_eq_def put_fits Let_def)




lemma sql_write_text:
  "store_sql_insert s = Some (''INSERT INTO '' @ sd_table s @ ''('' @ cols_text s @ '') VALUES('' @
      sep_list '', '' (map (\<lambda>_. ''?'') (sd_cols s)) @ '')'')"
  "store_sql_update s = Some (''UPDATE '' @ sd_table s @ '' SET '' @
      sep_list '', '' (map (\<lambda>c. sc_name c @ ''=?'') (sd_cols s)) @ '' WHERE '' @ col_name s 0 @ ''=?'')"
  "store_sql_delete s = Some (''DELETE FROM '' @ sd_table s @ '' WHERE '' @ col_name s 0 @ ''=?'')"
proof -
  have m: "length (sep_list '', '' (map (\<lambda>_. ''?'') (sd_cols s))) \<le> length (sd_cols s) * 3"
    and u: "length (sep_list '', '' (map (\<lambda>c. sc_name c @ ''=?'') (sd_cols s))) \<le> store_cols_span s"
    using cols_len(2,3) [of 0 "sd_cols s"] by (simp_all add: sep_pieces_text store_cols_span_def)
  show "store_sql_insert s = Some (''INSERT INTO '' @ sd_table s @ ''('' @ cols_text s @ '') VALUES('' @
      sep_list '', '' (map (\<lambda>_. ''?'') (sd_cols s)) @ '')'')"
    using cols_text_len [of s] m
    by (simp add: store_sql_insert_def put_fits put_marks_pieces put_all_fits sep_pieces_text Let_def)
  show "store_sql_update s = Some (''UPDATE '' @ sd_table s @ '' SET '' @
      sep_list '', '' (map (\<lambda>c. sc_name c @ ''=?'') (sd_cols s)) @ '' WHERE '' @ col_name s 0 @ ''=?'')"
    using u by (simp add: store_sql_update_def put_fits put_sets_pieces put_all_fits sep_pieces_text Let_def)
  show "store_sql_delete s = Some (''DELETE FROM '' @ sd_table s @ '' WHERE '' @ col_name s 0 @ ''=?'')"
    by (simp add: store_sql_delete_def put_fits)
qed

section \<open>The contract of the builders\<close>


text \<open>C19.  The write statements fit their buffers too and name every column once: the insert has one
  placeholder per column, the update sets every column and keys on the first, the delete keys on
  the first column.\<close>

theorem sql_write_statements:
  "store_sql_insert s = Some (''INSERT INTO '' @ sd_table s @ ''('' @ cols_text s @ '') VALUES('' @
      sep_list '', '' (map (\<lambda>_. ''?'') (sd_cols s)) @ '')'') \<and>
   store_sql_update s = Some (''UPDATE '' @ sd_table s @ '' SET '' @
      sep_list '', '' (map (\<lambda>c. sc_name c @ ''=?'') (sd_cols s)) @ '' WHERE '' @ col_name s 0 @ ''=?'') \<and>
   store_sql_delete s = Some (''DELETE FROM '' @ sd_table s @ '' WHERE '' @ col_name s 0 @ ''=?'')"
  by (simp only: sql_write_text simp_thms)






end
