(* ===== verification/Geas_Policy.thy ===== *)
theory Geas_Policy
  imports Geas_Desc
begin

text \<open>
  The contract instance of \<^verbatim>\<open>runtime.c\<close> and everything that reads its latches: the requirements
  evaluator, the latch itself and the partial result surface.  Each routine runs under the instance
  lock, so it is a function of the instance.  A heap array is the list of its slots and a NULL
  array is \<open>None\<close>.
\<close>

section \<open>The instance\<close>

datatype latch = PLEDGE_PENDING | PLEDGE_FULFILLED | PLEDGE_BROKEN

datatype txn = TXN_NONE | TXN_OPEN | TXN_DONE

record GeasContract =
  c_desc :: GeasContractDesc
  c_state :: GeasContractState
  c_heap :: heap
  c_vow_vals :: "GeasValue list option"
  c_fns :: "fn_addr list option"
  c_futures :: "nat list"
  c_shape_hash :: u64
  c_signed_at :: u64
  c_pledge_state :: "latch list option"
  c_pledge_err :: "GeasValue list option"
  c_sub_txn :: "txn list option"
  c_store :: "nat option"

section \<open>Reading the latches\<close>

definition pledge_is_loose :: "GeasContractDesc \<Rightarrow> GeasPledgeDesc \<Rightarrow> bool" where
  "pledge_is_loose d pd = (pd_sub pd < 0 \<or> int (length (cd_subs d)) \<le> pd_sub pd)"

fun sub_all_loop ::
    "GeasContractDesc \<Rightarrow> nat \<Rightarrow> latch \<Rightarrow> bool \<Rightarrow> (GeasPledgeDesc \<times> latch) list \<Rightarrow> bool" where
  "sub_all_loop d s want seen [] = seen"
| "sub_all_loop d s want seen ((pd, l) # r) =
     (if pd_sub pd \<noteq> int s \<or> int (length (cd_subs d)) \<le> pd_sub pd then sub_all_loop d s want seen r
      else if l \<noteq> want then False
      else sub_all_loop d s want True r)"

definition sub_all :: "GeasContract \<Rightarrow> nat \<Rightarrow> latch \<Rightarrow> bool" where
  "sub_all c s want =
     (case c_pledge_state c of None \<Rightarrow> False
      | Some ps \<Rightarrow> sub_all_loop (c_desc c) s want False (zip (cd_pledges (c_desc c)) ps))"

definition atom_true :: "GeasContract \<Rightarrow> GeasReqAtom \<Rightarrow> bool" where
  "atom_true c a =
     (let want = (if ra_kind a = GEAS_ATOM_BROKEN then PLEDGE_BROKEN else PLEDGE_FULFILLED) in
      if 0 \<le> ra_sub a then sub_all c (nat (ra_sub a)) want
      else if 0 \<le> ra_pledge a \<and> ra_pledge a < int (length (cd_pledges (c_desc c))) then
        (case c_pledge_state c of None \<Rightarrow> False | Some ps \<Rightarrow> ps ! nat (ra_pledge a) = want)
      else False)"

section \<open>Policy lines\<close>

definition REQ_STACK_MAX :: nat where
  "REQ_STACK_MAX = 128"

text \<open>The loop of \<^verbatim>\<open>eval_line\<close>; the stack has its top first.\<close>

fun eval_ops :: "GeasContract \<Rightarrow> GeasReqOp list \<Rightarrow> bool list \<Rightarrow> bool" where
  "eval_ops c [] st = (case st of [x] \<Rightarrow> x | _ \<Rightarrow> False)"
| "eval_ops c (rop # rops) st =
     (if rq_op rop = GEAS_REQ_ATOM then
        (if REQ_STACK_MAX \<le> length st then False
         else if length (cd_atoms (c_desc c)) \<le> unat (rq_atom rop) then False
         else eval_ops c rops (atom_true c (cd_atoms (c_desc c) ! unat (rq_atom rop)) # st))
      else if rq_op rop = GEAS_REQ_NOT then
        (case st of x # st \<Rightarrow> eval_ops c rops ((\<not> x) # st) | _ \<Rightarrow> False)
      else if rq_op rop = GEAS_REQ_AND then
        (case st of y # x # st \<Rightarrow> eval_ops c rops ((x \<and> y) # st) | _ \<Rightarrow> False)
      else if rq_op rop = GEAS_REQ_OR then
        (case st of y # x # st \<Rightarrow> eval_ops c rops ((x \<or> y) # st) | _ \<Rightarrow> False)
      else False)"

definition eval_line :: "GeasContract \<Rightarrow> GeasReqOp list \<Rightarrow> bool" where
  "eval_line c rops = (if rops = [] then False else eval_ops c rops [])"

section \<open>The structural default and the policy\<close>

fun default_loose :: "GeasContractDesc \<Rightarrow> latch \<Rightarrow> bool \<Rightarrow> (GeasPledgeDesc \<times> latch) list \<Rightarrow> bool" where
  "default_loose d want seen [] = seen"
| "default_loose d want seen ((pd, l) # r) =
     (if \<not> pledge_is_loose d pd then default_loose d want seen r
      else if l \<noteq> want then False
      else default_loose d want True r)"

definition default_line :: "GeasContract \<Rightarrow> latch \<Rightarrow> bool" where
  "default_line c want =
     (case c_pledge_state c of None \<Rightarrow> False
      | Some ps \<Rightarrow>
          let n = length (cd_subs (c_desc c)) in
          if \<not> list_all (\<lambda>s. sub_all c s want) [0..<n] then False
          else default_loose (c_desc c) want (n \<noteq> 0) (zip (cd_pledges (c_desc c)) ps))"

definition default_partial :: "GeasContract \<Rightarrow> bool" where
  "default_partial c = list_ex (\<lambda>s. sub_all c s PLEDGE_FULFILLED) [0..<length (cd_subs (c_desc c))]"

definition any_broken :: "GeasContract \<Rightarrow> bool" where
  "any_broken c =
     (case c_pledge_state c of None \<Rightarrow> False | Some ps \<Rightarrow> list_ex (\<lambda>l. l = PLEDGE_BROKEN) ps)"

definition has_trees :: "GeasContractDesc \<Rightarrow> bool" where
  "has_trees d =
     (cd_has_reqs d \<or> 0 < length (cd_atoms d) \<or> 0 < length (cd_req_fulfill d) \<or>
      0 < length (cd_req_partial d) \<or> 0 < length (cd_req_break d))"

definition eval_policy :: "GeasContract \<Rightarrow> GeasContract" where
  "eval_policy c =
     (let d = c_desc c in
      if c_state c = GEAS_BROKEN then c
      else
        let armed = any_broken c;
            brk = armed \<and> (if has_trees d then eval_line c (cd_req_break d) else default_line c PLEDGE_BROKEN);
            ful = (if has_trees d then eval_line c (cd_req_fulfill d) else default_line c PLEDGE_FULFILLED);
            par = (if has_trees d then eval_line c (cd_req_partial d) else default_partial c)
        in if brk then c\<lparr>c_state := GEAS_BROKEN\<rparr>
           else if ful then c\<lparr>c_state := GEAS_FULFILLED\<rparr>
           else if par then c\<lparr>c_state := GEAS_PARTIAL\<rparr>
           else c\<lparr>c_state := GEAS_SIGNED\<rparr>)"

text \<open>\<^verbatim>\<open>Err(payload)\<close>, and the payload behind the box.\<close>

definition is_err :: "GeasValue \<Rightarrow> bool" where
  "is_err out = (gv_ty out = ty_num GEAS_TY_RESULT \<and> gv_tag out = 1)"

fun box_payload :: "GeasValue \<Rightarrow> GeasValue option" where
  "box_payload (VBox k g b) = b"
| "box_payload v = None"

definition latch_pledge :: "GeasContract \<Rightarrow> nat \<Rightarrow> GeasValue \<Rightarrow> GeasContract" where
  "latch_pledge c pidx out =
     (case c_pledge_state c of None \<Rightarrow> c
      | Some ps \<Rightarrow>
          if length (cd_pledges (c_desc c)) \<le> pidx then c
          else if ps ! pidx \<noteq> PLEDGE_PENDING then c
          else if is_err out then
            (let c = c\<lparr>c_pledge_state := Some (ps[pidx := PLEDGE_BROKEN])\<rparr> in
             case box_payload out of None \<Rightarrow> c
             | Some e \<Rightarrow> c\<lparr>c_pledge_err := map_option (\<lambda>es. es[pidx := e]) (c_pledge_err c)\<rparr>)
          else c\<lparr>c_pledge_state := Some (ps[pidx := PLEDGE_FULFILLED])\<rparr>)"

section \<open>The partial result\<close>

datatype GeasItemState = GEAS_ITEM_PENDING | GEAS_ITEM_FULFILLED | GEAS_ITEM_BROKEN

definition sub_item_state :: "GeasContract \<Rightarrow> nat \<Rightarrow> GeasItemState" where
  "sub_item_state c s =
     (if sub_all c s PLEDGE_FULFILLED then GEAS_ITEM_FULFILLED
      else if sub_all c s PLEDGE_BROKEN then GEAS_ITEM_BROKEN
      else GEAS_ITEM_PENDING)"

definition loose_item_state :: "GeasContract \<Rightarrow> nat \<Rightarrow> GeasItemState" where
  "loose_item_state c i =
     (case c_pledge_state c of None \<Rightarrow> GEAS_ITEM_PENDING
      | Some ps \<Rightarrow>
          if ps ! i = PLEDGE_FULFILLED then GEAS_ITEM_FULFILLED
          else if ps ! i = PLEDGE_BROKEN then GEAS_ITEM_BROKEN
          else GEAS_ITEM_PENDING)"

text \<open>The two loops of \<^verbatim>\<open>partial_scan\<close>: the running count and the name captured so far.\<close>

fun scan_subs ::
    "GeasContract \<Rightarrow> GeasItemState \<Rightarrow> nat \<Rightarrow> nat \<Rightarrow> string option list \<Rightarrow> nat \<times> string option \<Rightarrow>
     nat \<times> string option" where
  "scan_subs c k want s [] acc = acc"
| "scan_subs c k want s (None # subs) acc = scan_subs c k want (Suc s) subs acc"
| "scan_subs c k want s (Some name # subs) (n, got) =
     (if sub_item_state c s \<noteq> k then scan_subs c k want (Suc s) subs (n, got)
      else scan_subs c k want (Suc s) subs (Suc n, if n = want then Some name else got))"

fun scan_loose ::
    "GeasContract \<Rightarrow> GeasItemState \<Rightarrow> nat \<Rightarrow> nat \<Rightarrow> GeasPledgeDesc list \<Rightarrow> nat \<times> string option \<Rightarrow>
     nat \<times> string option" where
  "scan_loose c k want i [] acc = acc"
| "scan_loose c k want i (pd # pds) (n, got) =
     (if \<not> pledge_is_loose (c_desc c) pd then scan_loose c k want (Suc i) pds (n, got)
      else if loose_item_state c i \<noteq> k then scan_loose c k want (Suc i) pds (n, got)
      else scan_loose c k want (Suc i) pds (Suc n, if n = want then Some (pd_name pd) else got))"

definition partial_scan :: "GeasContract \<Rightarrow> GeasItemState \<Rightarrow> nat \<Rightarrow> nat \<times> string option" where
  "partial_scan c k want =
     scan_loose c k want 0 (cd_pledges (c_desc c))
       (scan_subs c k want 0 (cd_subs (c_desc c)) (0, None))"

definition geas_partial_count :: "GeasContract \<Rightarrow> GeasItemState \<Rightarrow> nat" where
  "geas_partial_count c k = fst (partial_scan c k 0)"

definition geas_partial_name :: "GeasContract \<Rightarrow> GeasItemState \<Rightarrow> nat \<Rightarrow> string option" where
  "geas_partial_name c k i = snd (partial_scan c k i)"

fun count_broken :: "latch list \<Rightarrow> nat" where
  "count_broken [] = 0"
| "count_broken (l # ls) = (if l = PLEDGE_BROKEN then Suc (count_broken ls) else count_broken ls)"

definition geas_partial_nerrors :: "GeasContract \<Rightarrow> nat" where
  "geas_partial_nerrors c = (case c_pledge_state c of None \<Rightarrow> 0 | Some ps \<Rightarrow> count_broken ps)"

text \<open>The index of the \<open>i\<close>-th broken pledge from pledge \<open>p\<close> on.\<close>

fun find_broken :: "nat \<Rightarrow> latch list \<Rightarrow> nat \<Rightarrow> nat option" where
  "find_broken p [] i = None"
| "find_broken p (l # ls) i =
     (if l \<noteq> PLEDGE_BROKEN then find_broken (Suc p) ls i
      else case i of 0 \<Rightarrow> Some p | Suc i \<Rightarrow> find_broken (Suc p) ls i)"

definition geas_partial_error :: "GeasContract \<Rightarrow> nat \<Rightarrow> GeasStatus + string \<times> GeasValue" where
  "geas_partial_error c i =
     (case c_pledge_state c of None \<Rightarrow> Inl GEAS_ERR_NAME
      | Some ps \<Rightarrow>
          (case find_broken 0 ps i of
             None \<Rightarrow> Inl GEAS_ERR_NAME
           | Some p \<Rightarrow> Inr (pd_name (cd_pledges (c_desc c) ! p), the (c_pledge_err c) ! p)))"

end
