(* ===== verification/Geas_Policy_Props.thy ===== *)
theory Geas_Policy_Props
  imports Geas_Policy
begin

text \<open>
  What the requirements evaluator computes.  A policy line is a postfix program; its meaning is
  given by the expression tree it spells, and the evaluator agrees with that meaning on every byte
  sequence a descriptor can hold.  The remaining results describe the structural default, the
  latches over a whole history of outcomes, and the partial result.
\<close>

section \<open>Policy lines as expression trees\<close>

datatype req = RAtom u8 | RNot req | RAnd req req | ROr req req

fun postfix :: "req \<Rightarrow> GeasReqOp list" where
  "postfix (RAtom a) = [\<lparr>rq_op = GEAS_REQ_ATOM, rq_atom = a\<rparr>]"
| "postfix (RNot e) = postfix e @ [\<lparr>rq_op = GEAS_REQ_NOT, rq_atom = 0\<rparr>]"
| "postfix (RAnd e f) = postfix e @ postfix f @ [\<lparr>rq_op = GEAS_REQ_AND, rq_atom = 0\<rparr>]"
| "postfix (ROr e f) = postfix e @ postfix f @ [\<lparr>rq_op = GEAS_REQ_OR, rq_atom = 0\<rparr>]"

fun req_true :: "GeasContract \<Rightarrow> req \<Rightarrow> bool" where
  "req_true c (RAtom a) = atom_true c (cd_atoms (c_desc c) ! unat a)"
| "req_true c (RNot e) = (\<not> req_true c e)"
| "req_true c (RAnd e f) = (req_true c e \<and> req_true c f)"
| "req_true c (ROr e f) = (req_true c e \<or> req_true c f)"

fun stack_need :: "req \<Rightarrow> nat" where
  "stack_need (RAtom a) = 1"
| "stack_need (RNot e) = stack_need e"
| "stack_need (RAnd e f) = max (stack_need e) (Suc (stack_need f))"
| "stack_need (ROr e f) = max (stack_need e) (Suc (stack_need f))"

fun atoms_declared :: "GeasContractDesc \<Rightarrow> req \<Rightarrow> bool" where
  "atoms_declared d (RAtom a) = (unat a < length (cd_atoms d))"
| "atoms_declared d (RNot e) = atoms_declared d e"
| "atoms_declared d (RAnd e f) = (atoms_declared d e \<and> atoms_declared d f)"
| "atoms_declared d (ROr e f) = (atoms_declared d e \<and> atoms_declared d f)"

text \<open>The operand byte of a connective is never read.\<close>

definition norm_op :: "GeasReqOp \<Rightarrow> GeasReqOp" where
  "norm_op p = (if rq_op p = GEAS_REQ_ATOM then p else p\<lparr>rq_atom := 0\<rparr>)"

lemma norm_op_op [simp]: "rq_op (norm_op p) = rq_op p"
  by (simp add: norm_op_def)

lemma norm_op_atom: "rq_op p = GEAS_REQ_ATOM \<Longrightarrow> norm_op p = \<lparr>rq_op = GEAS_REQ_ATOM, rq_atom = rq_atom p\<rparr>"
  by (cases p) (simp add: norm_op_def)

lemma norm_op_conn: "rq_op p = x \<Longrightarrow> x \<noteq> GEAS_REQ_ATOM \<Longrightarrow> norm_op p = \<lparr>rq_op = x, rq_atom = 0\<rparr>"
  by (cases p) (simp add: norm_op_def)

lemma eval_ops_norm: "eval_ops c (map norm_op ps) st = eval_ops c ps st"
proof (induction ps arbitrary: st)
  case (Cons p ps)
  have "rq_atom (norm_op p) = rq_atom p" if "rq_op p = GEAS_REQ_ATOM"
    using that by (simp add: norm_op_def)
  then show ?case
    by (simp add: Cons.IH split: list.split)
qed simp

lemma eval_ops_postfix:
  assumes "atoms_declared (c_desc c) e" "length st + stack_need e \<le> REQ_STACK_MAX"
  shows "eval_ops c (postfix e @ rest) st = eval_ops c rest (req_true c e # st)"
  using assms by (induction e arbitrary: st rest) (auto simp: req_ops)

text \<open>A stack of trees, its top first, whose evaluation never exceeded the bound.\<close>

fun stack_fits :: "req list \<Rightarrow> bool" where
  "stack_fits [] = True"
| "stack_fits (e # es) = (length es + stack_need e \<le> REQ_STACK_MAX \<and> stack_fits es)"

lemma eval_ops_tree:
  assumes "eval_ops c ps (map (req_true c) es)"
    and "stack_fits es" "list_all (atoms_declared (c_desc c)) es"
  shows "\<exists>e. concat (map postfix (rev es)) @ map norm_op ps = postfix e \<and>
             atoms_declared (c_desc c) e \<and> stack_need e \<le> REQ_STACK_MAX \<and> req_true c e"
  using assms
proof (induction ps arbitrary: es)
  case Nil
  then obtain e where "es = [e]" "req_true c e"
    by (auto split: list.splits)
  with Nil show ?case
    by auto
next
  case (Cons p ps)
  note ev = Cons.prems(1) and fits = Cons.prems(2) and decl = Cons.prems(3)
  consider (atom) "rq_op p = GEAS_REQ_ATOM" | (neg) "rq_op p = GEAS_REQ_NOT"
    | (conj) "rq_op p = GEAS_REQ_AND" | (disj) "rq_op p = GEAS_REQ_OR"
    using ev by (auto split: if_splits)
  then show ?case
  proof cases
    case atom
    then have "length es < REQ_STACK_MAX" "unat (rq_atom p) < length (cd_atoms (c_desc c))"
      and go: "eval_ops c ps (map (req_true c) (RAtom (rq_atom p) # es))"
      using ev by (auto split: if_splits)
    then show ?thesis
      using Cons.IH[OF go] fits decl by (simp add: norm_op_atom[OF atom])
  next
    case neg
    then obtain e es' where es: "es = e # es'"
      and go: "eval_ops c ps (map (req_true c) (RNot e # es'))"
      using ev by (cases es) (auto simp: req_ops split: if_splits)
    show ?thesis
      using Cons.IH[OF go] fits decl by (simp add: es norm_op_conn[OF neg] req_ops)
  next
    case conj
    then obtain f e es' where es: "es = f # e # es'"
      and go: "eval_ops c ps (map (req_true c) (RAnd e f # es'))"
      using ev by (cases es; cases "tl es") (auto simp: req_ops split: if_splits list.splits)
    show ?thesis
      using Cons.IH[OF go] fits decl by (simp add: es norm_op_conn[OF conj] req_ops max_def split: if_splits)
  next
    case disj
    then obtain f e es' where es: "es = f # e # es'"
      and go: "eval_ops c ps (map (req_true c) (ROr e f # es'))"
      using ev by (cases es; cases "tl es") (auto simp: req_ops split: if_splits list.splits)
    show ?thesis
      using Cons.IH[OF go] fits decl by (simp add: es norm_op_conn[OF disj] req_ops max_def split: if_splits)
  qed
qed

lemma postfix_nonempty [simp]: "postfix e \<noteq> []"
  by (cases e) simp_all

text \<open>C23. A policy line fires exactly when its bytes are the postfix form of a requirements
  expression that is true of the latches, names only declared atoms and needs no more than the 128
  stack slots.  Every other byte sequence (an empty line, an underflow, an overflow, an unknown
  opcode, operands left over) reads false.\<close>

theorem policy_line_meaning:
  "eval_line c ps \<longleftrightarrow>
     (\<exists>e. map norm_op ps = postfix e \<and> atoms_declared (c_desc c) e \<and>
          stack_need e \<le> REQ_STACK_MAX \<and> req_true c e)"
proof
  assume "eval_line c ps"
  then show "\<exists>e. map norm_op ps = postfix e \<and> atoms_declared (c_desc c) e \<and>
      stack_need e \<le> REQ_STACK_MAX \<and> req_true c e"
    using eval_ops_tree[of c ps "[]"] by (simp add: eval_line_def split: if_splits)
next
  assume "\<exists>e. map norm_op ps = postfix e \<and> atoms_declared (c_desc c) e \<and>
      stack_need e \<le> REQ_STACK_MAX \<and> req_true c e"
  then obtain e where e: "map norm_op ps = postfix e" "atoms_declared (c_desc c) e"
      "stack_need e \<le> REQ_STACK_MAX" "req_true c e"
    by blast
  then have "ps \<noteq> []"
    using postfix_nonempty[of e] by (metis list.simps(8))
  moreover have "eval_ops c ps []"
    using eval_ops_postfix[of c e "[]" "[]"] e eval_ops_norm[of c ps "[]"] by simp
  ultimately show "eval_line c ps"
    by (simp add: eval_line_def)
qed

section \<open>The structural default\<close>

text \<open>The latch array has one slot per pledge.\<close>

definition latches_ok :: "GeasContract \<Rightarrow> bool" where
  "latches_ok c =
     (case c_pledge_state c of None \<Rightarrow> cd_pledges (c_desc c) = []
      | Some ps \<Rightarrow> length ps = length (cd_pledges (c_desc c)) \<and>
          (case c_pledge_err c of None \<Rightarrow> False | Some es \<Rightarrow> length es = length ps))"

definition in_sub :: "GeasContractDesc \<Rightarrow> nat \<Rightarrow> GeasPledgeDesc \<Rightarrow> bool" where
  "in_sub d s pd = (pd_sub pd = int s \<and> pd_sub pd < int (length (cd_subs d)))"

lemma sub_all_loop_iff:
  "sub_all_loop d s want seen zs \<longleftrightarrow>
     (seen \<or> list_ex (\<lambda>(pd, l). in_sub d s pd) zs) \<and>
     list_all (\<lambda>(pd, l). in_sub d s pd \<longrightarrow> l = want) zs"
proof (induction zs arbitrary: seen)
  case (Cons z zs)
  obtain pd l where z: "z = (pd, l)"
    by force
  show ?case
    by (cases "in_sub d s pd"; cases "l = want") (simp_all add: z Cons.IH, auto simp: in_sub_def)
qed simp

lemma default_loose_iff:
  "default_loose d want seen zs \<longleftrightarrow>
     (seen \<or> list_ex (\<lambda>(pd, l). pledge_is_loose d pd) zs) \<and>
     list_all (\<lambda>(pd, l). pledge_is_loose d pd \<longrightarrow> l = want) zs"
proof (induction zs arbitrary: seen)
  case (Cons z zs)
  obtain pd l where z: "z = (pd, l)"
    by force
  show ?case
    by (cases "pledge_is_loose d pd"; cases "l = want") (simp_all add: z Cons.IH)
qed simp

lemma loose_or_in_sub:
  "pledge_is_loose d pd \<or> (\<exists>s<length (cd_subs d). in_sub d s pd)"
  by (cases "pd_sub pd") (auto simp: pledge_is_loose_def in_sub_def)

lemma not_loose_in_sub: "in_sub d s pd \<Longrightarrow> \<not> pledge_is_loose d pd"
  by (auto simp: pledge_is_loose_def in_sub_def)

lemma sub_all_iff:
  assumes "c_pledge_state c = Some ps" "length ps = length (cd_pledges (c_desc c))"
  shows "sub_all c s want \<longleftrightarrow>
    (\<exists>i<length ps. in_sub (c_desc c) s (cd_pledges (c_desc c) ! i)) \<and>
    (\<forall>i<length ps. in_sub (c_desc c) s (cd_pledges (c_desc c) ! i) \<longrightarrow> ps ! i = want)"
  using assms by (auto simp: sub_all_def sub_all_loop_iff list_ex_length list_all_length)

lemma default_line_iff:
  assumes ps: "c_pledge_state c = Some ps" and len: "length ps = length (cd_pledges (c_desc c))"
  shows "default_line c want \<longleftrightarrow>
    (cd_subs (c_desc c) \<noteq> [] \<or> ps \<noteq> []) \<and>
    (\<forall>s<length (cd_subs (c_desc c)). \<exists>i<length ps. in_sub (c_desc c) s (cd_pledges (c_desc c) ! i)) \<and>
    (\<forall>l\<in>set ps. l = want)"
    (is "_ \<longleftrightarrow> ?ne \<and> ?subs \<and> ?all")
proof -
  let ?d = "c_desc c" and ?pds = "cd_pledges (c_desc c)"
  have all: "?all \<longleftrightarrow> (\<forall>i<length ps. ps ! i = want)"
    by (simp add: all_set_conv_all_nth)
  have cover: "?all \<longleftrightarrow>
      (\<forall>i<length ps. pledge_is_loose ?d (?pds ! i) \<longrightarrow> ps ! i = want) \<and>
      (\<forall>s<length (cd_subs ?d). \<forall>i<length ps. in_sub ?d s (?pds ! i) \<longrightarrow> ps ! i = want)"
    unfolding all using loose_or_in_sub[of ?d] by blast
  have "default_line c want \<longleftrightarrow>
      (\<forall>s<length (cd_subs ?d). sub_all c s want) \<and>
      (cd_subs ?d \<noteq> [] \<or> (\<exists>i<length ps. pledge_is_loose ?d (?pds ! i))) \<and>
      (\<forall>i<length ps. pledge_is_loose ?d (?pds ! i) \<longrightarrow> ps ! i = want)"
    using ps len
    by (auto simp: default_line_def default_loose_iff list_ex_length list_all_length Let_def)
  also have "\<dots> \<longleftrightarrow> ?subs \<and> ?all \<and> (cd_subs ?d \<noteq> [] \<or> (\<exists>i<length ps. pledge_is_loose ?d (?pds ! i)))"
    unfolding cover sub_all_iff[OF ps len] by blast
  also have "(cd_subs ?d \<noteq> [] \<or> (\<exists>i<length ps. pledge_is_loose ?d (?pds ! i))) \<longleftrightarrow> ?ne"
    using loose_or_in_sub[of ?d "?pds ! 0"] by (cases "cd_subs ?d") auto
  finally show ?thesis
    by blast
qed

definition sub_populated :: "GeasContractDesc \<Rightarrow> nat \<Rightarrow> bool" where
  "sub_populated d s = list_ex (in_sub d s) (cd_pledges d)"

lemma sub_populated_iff: "sub_populated d s \<longleftrightarrow> (\<exists>i<length (cd_pledges d). in_sub d s (cd_pledges d ! i))"
  by (simp add: sub_populated_def list_ex_length)

lemma default_line_set:
  assumes ps: "c_pledge_state c = Some ps" and ok: "latches_ok c"
  shows "default_line c want \<longleftrightarrow>
    (\<forall>s<length (cd_subs (c_desc c)). sub_populated (c_desc c) s) \<and> set ps = {want}"
proof -
  have len: "length ps = length (cd_pledges (c_desc c))"
    using ok ps by (simp add: latches_ok_def)
  have "set ps = {want} \<longleftrightarrow> ps \<noteq> [] \<and> (\<forall>l\<in>set ps. l = want)"
    by (cases ps) auto
  moreover have "ps \<noteq> []" if "s < length (cd_subs (c_desc c))" "sub_populated (c_desc c) s" for s
    using that len by (auto simp: sub_populated_iff)
  ultimately show ?thesis
    unfolding default_line_iff[OF ps len] sub_populated_iff len[symmetric]
    by (cases "cd_subs (c_desc c)") auto
qed

text \<open>C24. For a descriptor that carries no requirements data, the recomputed state depends on the
  latches alone: Broken when every pledge broke, Fulfilled when every pledge is fulfilled (in both
  cases with no empty subcontract), Partial when some subcontract has all of its pledges fulfilled,
  Signed otherwise.\<close>

theorem policy_default_meaning:
  assumes "\<not> has_trees (c_desc c)" "latches_ok c" "c_state c \<noteq> GEAS_BROKEN"
    and ps: "c_pledge_state c = Some ps"
  shows "eval_policy c = c\<lparr>c_state :=
    (let n = length (cd_subs (c_desc c)); full = (\<forall>s<n. sub_populated (c_desc c) s)
     in if full \<and> set ps = {PLEDGE_BROKEN} then GEAS_BROKEN
        else if full \<and> set ps = {PLEDGE_FULFILLED} then GEAS_FULFILLED
        else if \<exists>s<n. sub_populated (c_desc c) s \<and>
                  (\<forall>i<length ps. in_sub (c_desc c) s (cd_pledges (c_desc c) ! i) \<longrightarrow> ps ! i = PLEDGE_FULFILLED)
          then GEAS_PARTIAL
        else GEAS_SIGNED)\<rparr>"
proof -
  have len: "length ps = length (cd_pledges (c_desc c))"
    using assms by (simp add: latches_ok_def)
  have armed: "any_broken c" if "set ps = {PLEDGE_BROKEN}"
    using that ps by (simp add: any_broken_def list_ex_iff)
  have par: "default_partial c \<longleftrightarrow> (\<exists>s<length (cd_subs (c_desc c)). sub_populated (c_desc c) s \<and>
      (\<forall>i<length ps. in_sub (c_desc c) s (cd_pledges (c_desc c) ! i) \<longrightarrow> ps ! i = PLEDGE_FULFILLED))"
    by (auto simp: default_partial_def list_ex_iff sub_all_iff[OF ps len] sub_populated_iff len)
  note dl = default_line_set[OF ps assms(2)]
  show ?thesis
    using assms(1,3) armed by (auto simp: eval_policy_def Let_def dl par)
qed

section \<open>Histories of outcomes\<close>

definition run_latches :: "(nat \<times> GeasValue) list \<Rightarrow> GeasContract \<Rightarrow> GeasContract" where
  "run_latches outs c = fold (\<lambda>(i, out) c. latch_pledge c i out) outs c"

definition outcome_latch :: "GeasValue \<Rightarrow> latch" where
  "outcome_latch out = (if is_err out then PLEDGE_BROKEN else PLEDGE_FULFILLED)"

definition first_outcome :: "nat \<Rightarrow> (nat \<times> GeasValue) list \<Rightarrow> GeasValue option" where
  "first_outcome i outs = map_option snd (find (\<lambda>(j, out). j = i) outs)"

definition latch_of :: "GeasContract \<Rightarrow> nat \<Rightarrow> latch" where
  "latch_of c i = the (c_pledge_state c) ! i"

definition err_of :: "GeasContract \<Rightarrow> nat \<Rightarrow> GeasValue" where
  "err_of c i = the (c_pledge_err c) ! i"

lemma latch_pledge_desc [simp]: "c_desc (latch_pledge c i out) = c_desc c"
  by (simp add: latch_pledge_def Let_def split: option.split)

lemma latch_pledge_ok [simp]: "latches_ok c \<Longrightarrow> latches_ok (latch_pledge c i out)"
  by (auto simp: latch_pledge_def latches_ok_def Let_def split: option.splits)

lemma latch_pledge_same:
  assumes "latches_ok c" "i < length (cd_pledges (c_desc c))" "latch_of c i = PLEDGE_PENDING"
  shows "latch_of (latch_pledge c i out) i = outcome_latch out"
    and "err_of (latch_pledge c i out) i =
      (if is_err out then (case box_payload out of None \<Rightarrow> err_of c i | Some e \<Rightarrow> e) else err_of c i)"
  using assms
  by (auto simp: latch_of_def err_of_def latch_pledge_def latches_ok_def outcome_latch_def Let_def
      split: option.splits)

lemma latch_pledge_other:
  assumes "j \<noteq> i \<or> latch_of c i \<noteq> PLEDGE_PENDING"
  shows "latch_of (latch_pledge c j out) i = latch_of c i" "err_of (latch_pledge c j out) i = err_of c i"
  using assms
  by (cases "j = i"; cases "c_pledge_err c";
      auto simp: latch_of_def err_of_def latch_pledge_def Let_def split: option.splits)+

lemma run_latches_settled:
  assumes "latch_of c i \<noteq> PLEDGE_PENDING"
  shows "latch_of (run_latches outs c) i = latch_of c i \<and> err_of (run_latches outs c) i = err_of c i"
  using assms
proof (induction outs arbitrary: c)
  case (Cons a outs)
  obtain j out where a: "a = (j, out)"
    by force
  have "latch_of (latch_pledge c j out) i = latch_of c i" "err_of (latch_pledge c j out) i = err_of c i"
    using latch_pledge_other[of j i c out] Cons.prems by auto
  then show ?case
    using Cons.IH[of "latch_pledge c j out"] Cons.prems by (simp add: a run_latches_def)
qed (simp add: run_latches_def)

text \<open>C25. Over any history of fulfillment outcomes, in any order and for any pledges, a pending
  pledge ends up latched by the first outcome that names it and never moves afterwards; the payload
  kept beside a broken latch is the one of that first outcome, and a pledge nothing was delivered
  for keeps its latch and its slot.\<close>

theorem first_outcome_latches:
  assumes "latches_ok c" "i < length (cd_pledges (c_desc c))" "latch_of c i = PLEDGE_PENDING"
  shows "latch_of (run_latches outs c) i =
           (case first_outcome i outs of None \<Rightarrow> PLEDGE_PENDING | Some out \<Rightarrow> outcome_latch out) \<and>
         err_of (run_latches outs c) i =
           (case first_outcome i outs of None \<Rightarrow> err_of c i
            | Some out \<Rightarrow> if is_err out \<and> box_payload out \<noteq> None then the (box_payload out) else err_of c i)"
  using assms
proof (induction outs arbitrary: c)
  case (Cons a outs)
  obtain j out where a: "a = (j, out)"
    by force
  show ?case
  proof (cases "j = i")
    case True
    have "latch_of (latch_pledge c i out) i \<noteq> PLEDGE_PENDING"
      using latch_pledge_same(1)[OF Cons.prems, of out] by (simp add: outcome_latch_def)
    from run_latches_settled[OF this, of outs] show ?thesis
      using latch_pledge_same[OF Cons.prems, of out]
      by (simp add: a True run_latches_def first_outcome_def split: option.split)
  next
    case False
    then show ?thesis
      using Cons.IH[of "latch_pledge c j out"] Cons.prems latch_pledge_other[of j i c out]
      by (auto simp: a run_latches_def first_outcome_def split: option.splits)
  qed
qed (simp add: run_latches_def first_outcome_def)

section \<open>The partial result\<close>

text \<open>The items of a contract in descriptor order, each with what it reads as.\<close>

definition sub_items :: "GeasContract \<Rightarrow> nat \<Rightarrow> string option list \<Rightarrow> (string \<times> GeasItemState) list" where
  "sub_items c s ns =
     concat (map (\<lambda>(i, n). case n of None \<Rightarrow> [] | Some n \<Rightarrow> [(n, sub_item_state c i)]) (enumerate s ns))"

definition loose_items :: "GeasContract \<Rightarrow> nat \<Rightarrow> GeasPledgeDesc list \<Rightarrow> (string \<times> GeasItemState) list" where
  "loose_items c i pds =
     concat (map (\<lambda>(i, pd). if pledge_is_loose (c_desc c) pd then [(pd_name pd, loose_item_state c i)] else [])
       (enumerate i pds))"

definition items :: "GeasContract \<Rightarrow> (string \<times> GeasItemState) list" where
  "items c = sub_items c 0 (cd_subs (c_desc c)) @ loose_items c 0 (cd_pledges (c_desc c))"

definition named :: "GeasItemState \<Rightarrow> (string \<times> GeasItemState) list \<Rightarrow> string list" where
  "named k its = map fst (filter (\<lambda>it. snd it = k) its)"

definition capture :: "nat \<Rightarrow> string list \<Rightarrow> nat \<times> string option \<Rightarrow> nat \<times> string option" where
  "capture want names acc =
     (fst acc + length names,
      if fst acc \<le> want \<and> want < fst acc + length names then Some (names ! (want - fst acc)) else snd acc)"

lemma capture_Nil [simp]: "capture want [] acc = acc"
  by (cases acc) (auto simp: capture_def)

lemma capture_Cons: "capture want (x # xs) (n, got) = capture want xs (Suc n, if n = want then Some x else got)"
  by (auto simp: capture_def nth_Cons' Suc_diff_Suc)

lemma capture_append: "capture want (xs @ ys) acc = capture want ys (capture want xs acc)"
proof (induction xs arbitrary: acc)
  case (Cons x xs)
  then show ?case
    by (cases acc) (simp add: capture_Cons)
qed simp

lemma scan_subs_capture: "scan_subs c k want s ns acc = capture want (named k (sub_items c s ns)) acc"
  by (induction c k want s ns acc rule: scan_subs.induct)
    (simp_all add: sub_items_def named_def capture_Cons)

lemma scan_loose_capture: "scan_loose c k want i pds acc = capture want (named k (loose_items c i pds)) acc"
  by (induction c k want i pds acc rule: scan_loose.induct)
    (simp_all add: loose_items_def named_def capture_Cons)

lemma partial_scan_capture: "partial_scan c k want = capture want (named k (items c)) (0, None)"
  by (simp add: partial_scan_def scan_subs_capture scan_loose_capture items_def named_def capture_append)

lemma named_total:
  "length (named GEAS_ITEM_FULFILLED its) + length (named GEAS_ITEM_PENDING its) +
   length (named GEAS_ITEM_BROKEN its) = length its"
proof (induction its)
  case (Cons a its)
  then show ?case
    by (cases a; cases "snd a") (simp_all add: named_def)
qed (simp add: named_def)

text \<open>C26. The partial result enumerates the items of the contract: for each of the three states the
  names handed out by index are exactly the items that read so, in descriptor order, an index past
  the count reads NULL, and the three counts partition the items.\<close>

theorem partial_result_exact:
  "(\<forall>k i. geas_partial_name c k i =
      (if i < geas_partial_count c k then Some (named k (items c) ! i) else None)) \<and>
   (\<forall>k. geas_partial_count c k = length (named k (items c))) \<and>
   geas_partial_count c GEAS_ITEM_FULFILLED + geas_partial_count c GEAS_ITEM_PENDING +
     geas_partial_count c GEAS_ITEM_BROKEN = length (items c)"
  using named_total[of "items c"]
  by (simp add: geas_partial_name_def geas_partial_count_def partial_scan_capture capture_def)

lemma count_broken_filter: "count_broken ls = length (filter (\<lambda>l. l = PLEDGE_BROKEN) ls)"
  by (induction ls) simp_all

lemma find_broken_nth:
  "find_broken p ls i =
     (let bs = filter (\<lambda>(j, l). l = PLEDGE_BROKEN) (enumerate p ls)
      in if i < length bs then Some (fst (bs ! i)) else None)"
proof (induction p ls i rule: find_broken.induct)
  case (2 p l ls i)
  then show ?case
    by (cases i) (simp_all add: Let_def)
qed simp

lemma length_broken_enumerate:
  "length (filter (\<lambda>(j, l). l = PLEDGE_BROKEN) (enumerate p ls)) = count_broken ls"
  by (induction ls arbitrary: p) simp_all

text \<open>C27. The error surface reports exactly the broken pledges: an index below the error count
  yields the name and the kept payload of a pledge whose latch is broken, distinct indices yield
  distinct pledges in declaration order, every broken pledge is reached, and any other index is the
  name error.\<close>

theorem partial_errors_exact:
  assumes "latches_ok c"
  shows "\<exists>bs. sorted_wrt (<) bs \<and>
    set bs = {p. p < length (cd_pledges (c_desc c)) \<and> latch_of c p = PLEDGE_BROKEN} \<and>
    geas_partial_nerrors c = length bs \<and>
    (\<forall>i. geas_partial_error c i =
       (if i < length bs then Inr (pd_name (cd_pledges (c_desc c) ! (bs ! i)), err_of c (bs ! i))
        else Inl GEAS_ERR_NAME))"
proof (cases "c_pledge_state c")
  case None
  with assms show ?thesis
    by (auto simp: latches_ok_def geas_partial_nerrors_def geas_partial_error_def intro!: exI[of _ "[]"])
next
  case (Some ps)
  define bs where "bs = map fst (filter (\<lambda>(j, l). l = PLEDGE_BROKEN) (enumerate 0 ps))"
  have len: "length bs = count_broken ps"
    by (simp add: bs_def length_broken_enumerate)
  have "sorted_wrt (<) (map fst (enumerate 0 ps))"
    by (simp add: enumerate_eq_zip)
  then have "sorted_wrt (<) bs"
    unfolding bs_def sorted_wrt_map by (rule sorted_wrt_filter)
  moreover have "set bs = {p. p < length (cd_pledges (c_desc c)) \<and> latch_of c p = PLEDGE_BROKEN}"
    using assms Some by (force simp: bs_def latches_ok_def latch_of_def in_set_enumerate_eq)
  moreover have "geas_partial_nerrors c = length bs"
    using Some len by (simp add: geas_partial_nerrors_def)
  moreover have "find_broken 0 ps i = (if i < length bs then Some (bs ! i) else None)" for i
    by (simp add: find_broken_nth bs_def Let_def)
  ultimately show ?thesis
    using Some by (intro exI[of _ bs]) (simp add: geas_partial_error_def err_of_def)
qed

section \<open>A concrete instance\<close>

text \<open>Two pledges in one subcontract and a loose one, with no requirements data.\<close>

definition demo_pledge :: "string \<Rightarrow> int \<Rightarrow> GeasPledgeDesc" where
  "demo_pledge n s = \<lparr>pd_name = n, pd_mangled = None, pd_nargs = 0, pd_fn = Some 1, pd_sub = s\<rparr>"

definition demo_policy_desc :: GeasContractDesc where
  "demo_policy_desc = \<lparr>cd_name = ''Order'', cd_shape_hash = 7, cd_version = 1,
     cd_pledges = [demo_pledge ''a'' 0, demo_pledge ''b'' 0, demo_pledge ''c'' (- 1)],
     cd_vows = [], cd_subs = [Some ''Pay''], cd_atoms = [], cd_has_reqs = False,
     cd_req_fulfill = [], cd_req_partial = [], cd_req_break = [], cd_schemas = [],
     cd_sub_flags = None\<rparr>"

definition demo_instance :: GeasContract where
  "demo_instance = \<lparr>c_desc = demo_policy_desc, c_state = GEAS_SIGNED, c_heap = \<lparr>owned = [], mcalls = 0\<rparr>,
     c_vow_vals = None, c_fns = Some [1, 1, 1], c_futures = [], c_shape_hash = 7, c_signed_at = 0,
     c_pledge_state = Some [PLEDGE_FULFILLED, PLEDGE_FULFILLED, PLEDGE_PENDING],
     c_pledge_err = Some [VUnit 0, VUnit 0, VUnit 0], c_sub_txn = None, c_store = None\<rparr>"

lemmas demo_instance_defs = demo_instance_def demo_policy_desc_def demo_pledge_def

theorem policy_default_meaning_witness:
  "c_state (eval_policy demo_instance) = GEAS_PARTIAL"
  using policy_default_meaning[of demo_instance "[PLEDGE_FULFILLED, PLEDGE_FULFILLED, PLEDGE_PENDING]"]
  by (simp add: demo_instance_defs has_trees_def latches_ok_def sub_populated_def in_sub_def Let_def
      less_Suc_eq numeral_3_eq_3)

theorem first_outcome_latches_witness:
  "latch_of (run_latches [(0, VUnit 0), (2, VBox KResult 1 (Some (VBool 0 1))), (2, VUnit 0)] demo_instance) 2
     = PLEDGE_BROKEN"
  using first_outcome_latches[of demo_instance 2
    "[(0, VUnit 0), (2, VBox KResult 1 (Some (VBool 0 1))), (2, VUnit 0)]"]
  by (simp add: demo_instance_defs latches_ok_def latch_of_def first_outcome_def outcome_latch_def is_err_def)

theorem partial_errors_exact_witness:
  "\<forall>i. geas_partial_error demo_instance i = Inl GEAS_ERR_NAME"
proof -
  have "latches_ok demo_instance"
    by (simp add: demo_instance_defs latches_ok_def)
  from partial_errors_exact[OF this] obtain bs where
    bs: "set bs = {p. p < length (cd_pledges (c_desc demo_instance)) \<and> latch_of demo_instance p = PLEDGE_BROKEN}"
    "\<forall>i. geas_partial_error demo_instance i =
       (if i < length bs then Inr (pd_name (cd_pledges (c_desc demo_instance) ! (bs ! i)), err_of demo_instance (bs ! i))
        else Inl GEAS_ERR_NAME)"
    by blast
  have "set bs = {}"
    unfolding bs(1) by (auto simp: demo_instance_defs latch_of_def less_Suc_eq numeral_3_eq_3 nth_Cons')
  then show ?thesis
    using bs(2) by simp
qed

end
