(* ===== verification/Geas_Store.thy ===== *)
theory Geas_Store
  imports Geas_Value_Facts Geas_Sql
begin

text \<open>
  The store driver of \<^verbatim>\<open>runtime/src/store.c\<close>.  SQLite is third party code: the record \<open>sqlite\<close> holds
  the calls the driver makes, over a state \<open>'w\<close> of the whole backend (files and connections), and
  every definition takes it as the parameter \<open>S\<close>.  A prepared statement is its connection and text
  together with the cells bound so far; a run of it yields the rows its steps return and whether
  they ended in \<^verbatim>\<open>SQLITE_DONE\<close>.  The allocator hook \<^verbatim>\<open>GeasStoreAlloc\<close> is the parameter \<open>bytes\<close>.
\<close>

section \<open>The backend\<close>

datatype cell = CInt u64 | CReal u64 | CBlob bytes | CText string | CNull | CBadLen

type_synonym conn = nat

record 'w sqlite =
  sq_malloc :: "nat \<Rightarrow> 'w \<Rightarrow> bool \<times> 'w"
  sq_open :: "string \<Rightarrow> 'w \<Rightarrow> conn option \<times> 'w"
  sq_close :: "conn \<Rightarrow> 'w \<Rightarrow> 'w"
  sq_exec :: "conn \<Rightarrow> string \<Rightarrow> 'w \<Rightarrow> bool \<times> 'w"
  sq_prepare :: "conn \<Rightarrow> string \<Rightarrow> 'w \<Rightarrow> (nat \<times> nat) option"
  sq_bind :: "conn \<Rightarrow> string \<Rightarrow> nat \<Rightarrow> cell \<Rightarrow> 'w \<Rightarrow> bool"
  sq_run :: "conn \<Rightarrow> string \<Rightarrow> cell list \<Rightarrow> 'w \<Rightarrow> cell list list \<times> bool \<times> 'w"
  sq_reset :: "conn \<Rightarrow> string \<Rightarrow> 'w \<Rightarrow> bool"
  sq_changes :: "conn \<Rightarrow> 'w \<Rightarrow> u64"
  sq_col_int :: "cell \<Rightarrow> u64"
  sq_col_double :: "cell \<Rightarrow> u64"
  sq_col_blob :: "cell \<Rightarrow> bytes"
  sq_col_text :: "cell \<Rightarrow> string option"

type_synonym 'h alloc_hook = "u64 \<Rightarrow> 'h \<Rightarrow> bool \<times> 'h"

section \<open>The scalar type map\<close>

definition tag_scalar :: "u32 \<Rightarrow> bool" where
  "tag_scalar ty =
     (case ty_cast ty of
        Some t \<Rightarrow> t \<in> {GEAS_TY_INT, GEAS_TY_UINT, GEAS_TY_FLOAT, GEAS_TY_BOOL, GEAS_TY_BYTE,
                       GEAS_TY_CHAR, GEAS_TY_STRING}
      | None \<Rightarrow> False)"

text \<open>The cell \<^verbatim>\<open>bind_one\<close> hands to SQLite, \<open>None\<close> for a type it refuses.  A string crosses with its
  length cast to \<^verbatim>\<open>int\<close>: the low 32 bits, as a signed number.\<close>

definition blob_arg :: "GeasString \<Rightarrow> cell" where
  "blob_arg s =
     (let n = ucast (str_len s) :: u32 in
      if sint n < 0 then CBadLen else CBlob (take (unat n) (str_bytes s)))"

fun bind_cell :: "GeasValue \<Rightarrow> cell option" where
  "bind_cell (VInt g i) = Some (CInt i)"
| "bind_cell (VUInt g u) = Some (CInt u)"
| "bind_cell (VFloat g f) = Some (CReal f)"
| "bind_cell (VBool g b) = Some (CInt (ucast b))"
| "bind_cell (VByte g b) = Some (CInt (ucast b))"
| "bind_cell (VChar g c) = Some (CInt (ucast c))"
| "bind_cell (VString g s) = Some (blob_arg s)"
| "bind_cell v = None"

definition bind_one :: "'w sqlite \<Rightarrow> conn \<Rightarrow> string \<Rightarrow> nat \<Rightarrow> GeasValue \<Rightarrow> 'w \<Rightarrow> GeasStatus + cell" where
  "bind_one S db sql idx v w =
     (case bind_cell v of
        None \<Rightarrow> Inl GEAS_ERR_TYPE
      | Some x \<Rightarrow> if sq_bind S db sql idx x w then Inr x else Inl GEAS_ERR_STORE)"

fun bind_rest ::
    "'w sqlite \<Rightarrow> conn \<Rightarrow> string \<Rightarrow> nat \<Rightarrow> GeasValue list \<Rightarrow> 'w \<Rightarrow> GeasStatus + cell list" where
  "bind_rest S db sql i [] w = Inr []"
| "bind_rest S db sql i (v # vs) w =
     (case bind_one S db sql (i + 1) v w of
        Inl st \<Rightarrow> Inl st
      | Inr x \<Rightarrow> (case bind_rest S db sql (i + 1) vs w of Inl st \<Rightarrow> Inl st | Inr xs \<Rightarrow> Inr (x # xs)))"

definition bind_params ::
    "'w sqlite \<Rightarrow> conn \<Rightarrow> string \<Rightarrow> nat \<Rightarrow> GeasValue list \<Rightarrow> 'w \<Rightarrow> GeasStatus + cell list" where
  "bind_params S db sql nplace params w =
     (if nplace \<noteq> length params then Inl GEAS_ERR_STORE else bind_rest S db sql 0 params w)"

section \<open>Reading a row\<close>

definition read_field ::
    "'w sqlite \<Rightarrow> 'h alloc_hook \<Rightarrow> u32 \<Rightarrow> cell \<Rightarrow> 'h \<Rightarrow> (GeasStatus + GeasValue) \<times> 'h" where
  "read_field S bytes ty x h =
     (if \<not> tag_scalar ty then (Inl GEAS_ERR_TYPE, h)
      else case ty_cast ty of
        Some GEAS_TY_INT \<Rightarrow> (Inr (VInt 0 (sq_col_int S x)), h)
      | Some GEAS_TY_UINT \<Rightarrow> (Inr (VUInt 0 (sq_col_int S x)), h)
      | Some GEAS_TY_FLOAT \<Rightarrow> (Inr (VFloat 0 (sq_col_double S x)), h)
      | Some GEAS_TY_BOOL \<Rightarrow> (Inr (VBool 0 (if sq_col_int S x \<noteq> 0 then 1 else 0)), h)
      | Some GEAS_TY_BYTE \<Rightarrow> (Inr (VByte 0 (ucast (sq_col_int S x))), h)
      | Some GEAS_TY_CHAR \<Rightarrow> (Inr (VChar 0 (ucast (sq_col_int S x))), h)
      | Some GEAS_TY_STRING \<Rightarrow>
          (let blob = sq_col_blob S x in
           if blob \<noteq> [] then
             (case bytes (of_nat (length blob)) h of
                (True, h) \<Rightarrow> (Inr (VString 0 (SBytes blob)), h)
              | (False, h) \<Rightarrow> (Inl GEAS_ERR_OOM, h))
           else (Inr (VString 0 (SNull 0)), h))
      | _ \<Rightarrow> (Inl GEAS_ERR_TYPE, h))"

fun read_fields ::
    "'w sqlite \<Rightarrow> 'h alloc_hook \<Rightarrow> u32 list \<Rightarrow> cell list \<Rightarrow> 'h \<Rightarrow> (GeasStatus + GeasValue list) \<times> 'h" where
  "read_fields S bytes [] xs h = (Inr [], h)"
| "read_fields S bytes (ty # tys) xs h =
     (case read_field S bytes ty (case xs of [] \<Rightarrow> CNull | x # _ \<Rightarrow> x) h of
        (Inl st, h) \<Rightarrow> (Inl st, h)
      | (Inr f, h) \<Rightarrow>
          (case read_fields S bytes tys (tl xs) h of
             (Inl st, h) \<Rightarrow> (Inl st, h)
           | (Inr fs, h) \<Rightarrow> (Inr (f # fs), h)))"

definition record_of :: "GeasValue list \<Rightarrow> GeasValue" where
  "record_of fs = VArr KRecord 0 (if fs = [] then LNull 0 0 0 else LData fs (of_nat (length fs)) 0)"

definition read_row ::
    "'w sqlite \<Rightarrow> 'h alloc_hook \<Rightarrow> u32 list \<Rightarrow> cell list \<Rightarrow> 'h \<Rightarrow> (GeasStatus + GeasValue) \<times> 'h" where
  "read_row S bytes col_types xs h =
     (if col_types = [] then (Inr (record_of []), h)
      else (case bytes (of_nat (length col_types) * SIZEOF_VALUE) h of
          (False, h) \<Rightarrow> (Inl GEAS_ERR_OOM, h)
        | (True, h) \<Rightarrow>
            (case read_fields S bytes col_types xs h of
               (Inl st, h) \<Rightarrow> (Inl st, h)
             | (Inr fs, h) \<Rightarrow> (Inr (record_of fs), h))))"

section \<open>Connections\<close>

definition geas_store_open :: "'w sqlite \<Rightarrow> string \<Rightarrow> 'w \<Rightarrow> (GeasStatus + conn) \<times> 'w" where
  "geas_store_open S dsn w =
     (case sq_malloc S 8 w of
        (False, w) \<Rightarrow> (Inl GEAS_ERR_OOM, w)
      | (True, w) \<Rightarrow>
          (case sq_open S dsn w of
             (None, w) \<Rightarrow> (Inl GEAS_ERR_STORE, w)
           | (Some db, w) \<Rightarrow> (Inr db, w)))"

definition geas_store_close :: "'w sqlite \<Rightarrow> conn \<Rightarrow> 'w \<Rightarrow> 'w" where
  "geas_store_close S db w = sq_close S db w"

definition geas_store_exec :: "'w sqlite \<Rightarrow> conn \<Rightarrow> string \<Rightarrow> 'w \<Rightarrow> GeasStatus \<times> 'w" where
  "geas_store_exec S db sql w =
     (case sq_exec S db sql w of
        (ok, w) \<Rightarrow> (if ok then GEAS_OK else GEAS_ERR_STORE, w))"

definition geas_store_begin :: "'w sqlite \<Rightarrow> conn \<Rightarrow> 'w \<Rightarrow> GeasStatus \<times> 'w" where
  "geas_store_begin S db w = geas_store_exec S db ''BEGIN'' w"

definition geas_store_commit :: "'w sqlite \<Rightarrow> conn \<Rightarrow> 'w \<Rightarrow> GeasStatus \<times> 'w" where
  "geas_store_commit S db w = geas_store_exec S db ''COMMIT'' w"

definition geas_store_rollback :: "'w sqlite \<Rightarrow> conn \<Rightarrow> 'w \<Rightarrow> GeasStatus \<times> 'w" where
  "geas_store_rollback S db w = geas_store_exec S db ''ROLLBACK'' w"

section \<open>Schema reconcile\<close>

definition store_sql_type :: "u32 \<Rightarrow> string option" where
  "store_sql_type ty =
     (case ty_cast ty of
        Some t \<Rightarrow>
          if t \<in> {GEAS_TY_INT, GEAS_TY_UINT, GEAS_TY_BOOL, GEAS_TY_BYTE, GEAS_TY_CHAR} then Some ''INTEGER''
          else if t = GEAS_TY_FLOAT then Some ''REAL''
          else if t = GEAS_TY_STRING then Some ''TEXT''
          else None
      | None \<Rightarrow> None)"

definition ident_alpha :: "char \<Rightarrow> bool" where
  "ident_alpha c = (CHR ''a'' \<le> c \<and> c \<le> CHR ''z'' \<or> CHR ''A'' \<le> c \<and> c \<le> CHR ''Z'' \<or> c = CHR ''_'')"

definition ident_digit :: "char \<Rightarrow> bool" where
  "ident_digit c = (CHR ''0'' \<le> c \<and> c \<le> CHR ''9'')"

definition store_ident_ok :: "string \<Rightarrow> bool" where
  "store_ident_ok s =
     (case s of [] \<Rightarrow> False
      | c # cs \<Rightarrow> ident_alpha c \<and> list_all (\<lambda>c. ident_alpha c \<or> ident_digit c) cs)"

definition ascii_lower :: "char \<Rightarrow> char" where
  "ascii_lower c = (if CHR ''A'' \<le> c \<and> c \<le> CHR ''Z'' then char_of (of_char c + 32 :: nat) else c)"

fun store_ieq :: "string \<Rightarrow> string \<Rightarrow> bool" where
  "store_ieq [] [] = True"
| "store_ieq (a # as) (b # bs) = (ascii_lower a = ascii_lower b \<and> store_ieq as bs)"
| "store_ieq as bs = False"

text \<open>The sizing pass of \<^verbatim>\<open>store_create_table\<close>, which also refuses a column, and the fill.\<close>

fun create_need :: "GeasSchemaCol list \<Rightarrow> nat \<Rightarrow> GeasStatus + nat" where
  "create_need [] need = Inr need"
| "create_need (c # cs) need =
     (case store_sql_type (sc_ty c) of
        None \<Rightarrow> Inl GEAS_ERR_TYPE
      | Some ct \<Rightarrow>
          if \<not> store_ident_ok (sc_name c) then Inl GEAS_ERR_STORE
          else create_need cs (need + (length (sc_name c) + length ct + 24)))"

definition create_piece :: "nat \<Rightarrow> GeasSchemaCol \<Rightarrow> string" where
  "create_piece i c =
     (if i \<noteq> 0 then '', '' else '''') @ sc_name c @ '' '' @ the (store_sql_type (sc_ty c)) @
     (if i = 0 then '' PRIMARY KEY'' else '''')"

fun put_create :: "nat \<Rightarrow> nat \<Rightarrow> GeasSchemaCol list \<Rightarrow> string option \<Rightarrow> string option" where
  "put_create need i [] b = b"
| "put_create need i (c # cs) b = put_create need (Suc i) cs (sput need (create_piece i c) b)"

definition create_sql :: "nat \<Rightarrow> GeasSchemaDesc \<Rightarrow> string option" where
  "create_sql need s =
     sput need '')''
       (put_create need 0 (sd_cols s) (sput need (''CREATE TABLE '' @ sd_table s @ ''('') (Some '''')))"

text \<open>A statement that did not fit its buffer is not a case the driver handles; \<open>the\<close> is applied to
  builders that are shown never to be \<open>None\<close>.\<close>

definition store_create_table :: "'w sqlite \<Rightarrow> conn \<Rightarrow> GeasSchemaDesc \<Rightarrow> 'w \<Rightarrow> GeasStatus \<times> 'w" where
  "store_create_table S db s w =
     (case create_need (sd_cols s) (64 + length (sd_table s)) of
        Inl st \<Rightarrow> (st, w)
      | Inr need \<Rightarrow>
          (case sq_malloc S need w of
             (False, w) \<Rightarrow> (GEAS_ERR_OOM, w)
           | (True, w) \<Rightarrow> geas_store_exec S db (the (create_sql need s)) w))"

definition pragma_sql :: "GeasSchemaDesc \<Rightarrow> string" where
  "pragma_sql s = butlast (snd (snprintf 192 (''PRAGMA table_info('' @ sd_table s @ '')'')))"

text \<open>The loop over the rows of \<^verbatim>\<open>table_info\<close> from column \<open>i\<close>: the number of columns that matched, or
  the divergence.\<close>

definition row_cell :: "cell list \<Rightarrow> nat \<Rightarrow> cell" where
  "row_cell r i = (if i < length r then r ! i else CNull)"

fun validate_rows :: "'w sqlite \<Rightarrow> GeasSchemaCol list \<Rightarrow> nat \<Rightarrow> cell list list \<Rightarrow> GeasStatus + nat" where
  "validate_rows S cols i [] = Inr i"
| "validate_rows S cols i (r # rs) =
     (if length cols \<le> i then Inl GEAS_ERR_TYPE
      else case (sq_col_text S (row_cell r 1), sq_col_text S (row_cell r 2), store_sql_type (sc_ty (cols ! i))) of
          (Some nm, Some tp, Some want) \<Rightarrow>
            if strcmp nm (sc_name (cols ! i)) \<noteq> 0 \<or> \<not> store_ieq tp want then Inl GEAS_ERR_TYPE
            else validate_rows S cols (Suc i) rs
        | _ \<Rightarrow> Inl GEAS_ERR_TYPE)"

definition store_validate_table :: "'w sqlite \<Rightarrow> conn \<Rightarrow> GeasSchemaDesc \<Rightarrow> 'w \<Rightarrow> GeasStatus \<times> 'w" where
  "store_validate_table S db s w =
     (case sq_prepare S db (pragma_sql s) w of
        None \<Rightarrow> (GEAS_ERR_STORE, w)
      | Some _ \<Rightarrow>
          (case sq_run S db (pragma_sql s) [] w of
             (rows, done, w) \<Rightarrow>
               (case validate_rows S (sd_cols s) 0 rows of
                  Inl st \<Rightarrow> (st, w)
                | Inr i \<Rightarrow>
                    if \<not> done then (GEAS_ERR_STORE, w)
                    else if i \<noteq> length (sd_cols s) then (GEAS_ERR_TYPE, w)
                    else (GEAS_OK, w))))"

definition geas_store_reconcile :: "'w sqlite \<Rightarrow> conn \<Rightarrow> GeasSchemaDesc \<Rightarrow> 'w \<Rightarrow> GeasStatus \<times> 'w" where
  "geas_store_reconcile S db s w =
     (if sd_cols s = [] then (GEAS_ERR_TYPE, w)
      else if \<not> store_ident_ok (sd_table s) then (GEAS_ERR_STORE, w)
      else (case sq_prepare S db (pragma_sql s) w of
          None \<Rightarrow> (GEAS_ERR_STORE, w)
        | Some _ \<Rightarrow>
            (case sq_run S db (pragma_sql s) [] w of
               (rows, done, w) \<Rightarrow>
                 if rows \<noteq> [] then store_validate_table S db s w else store_create_table S db s w)))"

section \<open>Statements with parameters\<close>

definition geas_store_exec_params ::
    "'w sqlite \<Rightarrow> conn \<Rightarrow> string \<Rightarrow> GeasValue list \<Rightarrow> 'w \<Rightarrow> (GeasStatus + u64) \<times> 'w" where
  "geas_store_exec_params S db sql params w =
     (case sq_prepare S db sql w of
        None \<Rightarrow> (Inl GEAS_ERR_STORE, w)
      | Some (nplace, ncols) \<Rightarrow>
          (case bind_params S db sql nplace params w of
             Inl st \<Rightarrow> (Inl st, w)
           | Inr cells \<Rightarrow>
               (case sq_run S db sql cells w of
                  (rows, done, w) \<Rightarrow>
                    if \<not> done then (Inl GEAS_ERR_STORE, w) else (Inr (sq_changes S db w), w))))"

text \<open>The second pass of a query reads at most \<open>n\<close> rows into the backbone; a pass that returns fewer
  leaves the zeroed slots.\<close>

fun read_rows ::
    "'w sqlite \<Rightarrow> 'h alloc_hook \<Rightarrow> u32 list \<Rightarrow> nat \<Rightarrow> cell list list \<Rightarrow> 'h \<Rightarrow>
     (GeasStatus + GeasValue list) \<times> 'h" where
  "read_rows S bytes tys 0 rs h = (Inr [], h)"
| "read_rows S bytes tys (Suc n) [] h = (Inr (replicate (Suc n) gv_zero), h)"
| "read_rows S bytes tys (Suc n) (r # rs) h =
     (case read_row S bytes tys r h of
        (Inl st, h) \<Rightarrow> (Inl st, h)
      | (Inr v, h) \<Rightarrow>
          (case read_rows S bytes tys n rs h of
             (Inl st, h) \<Rightarrow> (Inl st, h)
           | (Inr vs, h) \<Rightarrow> (Inr (v # vs), h)))"

definition rows_of :: "GeasValue list \<Rightarrow> GeasValue" where
  "rows_of vs =
     VArr KList 0 (if vs = [] then LNull 0 0 (ty_num GEAS_TY_RECORD)
                   else LData vs (of_nat (length vs)) (ty_num GEAS_TY_RECORD))"

text \<open>The backbone and the second pass, for a first pass that counted \<open>n\<close> rows.\<close>

definition query_fill ::
    "'w sqlite \<Rightarrow> 'h alloc_hook \<Rightarrow> conn \<Rightarrow> string \<Rightarrow> cell list \<Rightarrow> u32 list \<Rightarrow> nat \<Rightarrow> 'h \<Rightarrow> 'w \<Rightarrow>
     (GeasStatus + GeasValue) \<times> 'h \<times> 'w" where
  "query_fill S bytes db sql cells col_types n h w =
     (case (if n = 0 then (True, h) else bytes (of_nat n * SIZEOF_VALUE) h) of
        (False, h) \<Rightarrow> (Inl GEAS_ERR_OOM, h, w)
      | (True, h) \<Rightarrow>
          (case sq_run S db sql cells w of
             (rows2, done2, w) \<Rightarrow>
               (case read_rows S bytes col_types n rows2 h of
                  (Inl st, h) \<Rightarrow> (Inl st, h, w)
                | (Inr vs, h) \<Rightarrow>
                    if length rows2 \<le> n \<and> \<not> done2 then (Inl GEAS_ERR_STORE, h, w)
                    else (Inr (rows_of vs), h, w))))"

definition geas_store_query ::
    "'w sqlite \<Rightarrow> 'h alloc_hook \<Rightarrow> conn \<Rightarrow> string \<Rightarrow> GeasValue list \<Rightarrow> u32 list \<Rightarrow> 'h \<Rightarrow> 'w \<Rightarrow>
     (GeasStatus + GeasValue) \<times> 'h \<times> 'w" where
  "geas_store_query S bytes db sql params col_types h w =
     (if \<not> list_all tag_scalar col_types then (Inl GEAS_ERR_TYPE, h, w)
      else case sq_prepare S db sql w of
        None \<Rightarrow> (Inl GEAS_ERR_STORE, h, w)
      | Some (nplace, ncols) \<Rightarrow>
          if ncols \<noteq> length col_types then (Inl GEAS_ERR_TYPE, h, w)
          else (case bind_params S db sql nplace params w of
              Inl st \<Rightarrow> (Inl st, h, w)
            | Inr cells \<Rightarrow>
                (case sq_run S db sql cells w of
                   (rows, done, w) \<Rightarrow>
                     if \<not> done then (Inl GEAS_ERR_STORE, h, w)
                     else if \<not> sq_reset S db sql w then (Inl GEAS_ERR_STORE, h, w)
                     else query_fill S bytes db sql cells col_types (length rows) h w)))"

end
