(* ===== verification/Geas_Float.thy ===== *)
theory Geas_Float
  imports Geas_Values
begin

text \<open>
  The double arithmetic the runtime performs, on IEEE 754 binary64 bit patterns: the conversion of
  a 64 bit integer and the division, both rounded to nearest with ties to even.  A finite double is
  the fraction of two naturals with a sign; \<open>f64_round\<close> rounds such a fraction.
\<close>

section \<open>Rounding\<close>

fun bit_length :: "nat \<Rightarrow> nat" where
  "bit_length n = (if n = 0 then 0 else Suc (bit_length (n div 2)))"

declare bit_length.simps [simp del]

text \<open>\<open>p / q\<close> rounded to an integer, ties to even.\<close>

definition round_even :: "nat \<Rightarrow> nat \<Rightarrow> nat" where
  "round_even p q =
     (let d = p div q; r = p mod q
      in if 2 * r < q \<or> (2 * r = q \<and> even d) then d else d + 1)"

text \<open>The exponent of \<open>p / q\<close>: the largest \<open>e\<close> with \<open>2 ^ e \<le> p / q\<close>, at least the least normal one.\<close>

definition le_scaled :: "nat \<Rightarrow> nat \<Rightarrow> int \<Rightarrow> bool" where
  "le_scaled p q e = (if 0 \<le> e then q * 2 ^ nat e \<le> p else q \<le> p * 2 ^ nat (- e))"

definition f64_exponent :: "nat \<Rightarrow> nat \<Rightarrow> int" where
  "f64_exponent p q =
     (let e = int (bit_length p) - int (bit_length q)
      in max (- 1022) (if le_scaled p q e then e else e - 1))"

definition f64_inf :: nat where
  "f64_inf = 2047 * 2 ^ 52"

definition f64_magnitude :: "nat \<Rightarrow> nat \<Rightarrow> nat" where
  "f64_magnitude p q =
     (if p = 0 then 0
      else
        let e = f64_exponent p q;
            m = (if e \<le> 52 then round_even (p * 2 ^ nat (52 - e)) q else round_even p (q * 2 ^ nat (e - 52)))
        in min f64_inf (nat (e + 1022) * 2 ^ 52 + m))"

definition f64_round :: "bool \<Rightarrow> nat \<Rightarrow> nat \<Rightarrow> u64" where
  "f64_round neg p q = of_nat ((if neg then 2 ^ 63 else 0) + f64_magnitude p q)"

section \<open>Decoding\<close>

definition f64_neg :: "u64 \<Rightarrow> bool" where
  "f64_neg w = (2 ^ 63 \<le> unat w)"

definition f64_exp_field :: "u64 \<Rightarrow> nat" where
  "f64_exp_field w = unat w div 2 ^ 52 mod 2048"

definition f64_frac_field :: "u64 \<Rightarrow> nat" where
  "f64_frac_field w = unat w mod 2 ^ 52"

definition f64_is_inf :: "u64 \<Rightarrow> bool" where
  "f64_is_inf w = (f64_exp_field w = 2047 \<and> f64_frac_field w = 0)"

text \<open>The magnitude of a finite double, over \<open>2 ^ 1074\<close>.\<close>

definition f64_scaled :: "u64 \<Rightarrow> nat" where
  "f64_scaled w =
     (if f64_exp_field w = 0 then f64_frac_field w
      else (2 ^ 52 + f64_frac_field w) * 2 ^ (f64_exp_field w - 1))"

section \<open>Operations\<close>

definition f64_of_int :: "u64 \<Rightarrow> u64" where
  "f64_of_int i = f64_round (sint i < 0) (nat \<bar>sint i\<bar>) 1"

definition f64_quiet :: "u64 \<Rightarrow> u64" where
  "f64_quiet w = w OR 0x0008000000000000"

definition f64_signed :: "bool \<Rightarrow> nat \<Rightarrow> u64" where
  "f64_signed neg m = of_nat ((if neg then 2 ^ 63 else 0) + m)"

definition f64_div :: "u64 \<Rightarrow> u64 \<Rightarrow> u64" where
  "f64_div a b =
     (let neg = (f64_neg a \<noteq> f64_neg b) in
      if f64_nan a then f64_quiet a
      else if f64_nan b then f64_quiet b
      else if f64_is_inf a \<and> f64_is_inf b \<or> f64_is_zero a \<and> f64_is_zero b then 0xFFF8000000000000
      else if f64_is_inf a \<or> f64_is_zero b then f64_signed neg f64_inf
      else if f64_is_inf b then f64_signed neg 0
      else f64_round neg (f64_scaled a) (f64_scaled b))"

end
