(* ===== verification/Geas_Store_Ops.thy ===== *)
theory Geas_Store_Ops
  imports Geas_Store Geas_Policy Geas_Float
begin

text \<open>
  The store operations of \<^verbatim>\<open>runtime.c\<close>, the calls a compiled pledge body makes: each validates its
  arguments, builds one statement, runs it through the driver on the connection of the instance and
  hands back \<^verbatim>\<open>Ok(payload)\<close> on the instance heap.  A plain \<^verbatim>\<open>malloc\<close> consumes the next call of
  the allocation pattern \<open>M\<close> and is freed before the call returns, so only the count of calls
  remains of it.  A term array is a list; a call that also carries group lengths reads exactly
  their total of terms.
\<close>

section \<open>Allocation hooks\<close>

definition SIZEOF_SCRATCH :: u64 where
  "SIZEOF_SCRATCH = 32"

definition instance_store_bytes :: "malloc \<Rightarrow> heap alloc_hook" where
  "instance_store_bytes M n h = geas_bytes M n h"

text \<open>The scratch arena is a block list like the instance heap, but its size check cannot wrap.\<close>

definition scratch_store_bytes :: "malloc \<Rightarrow> heap alloc_hook" where
  "scratch_store_bytes M n h =
     (if - 1 - SIZEOF_SCRATCH < n then (False, h)
      else if M (mcalls h)
      then (True, h\<lparr>owned := (SIZEOF_SCRATCH + n) # owned h, mcalls := Suc (mcalls h)\<rparr>)
      else (False, h\<lparr>mcalls := Suc (mcalls h)\<rparr>))"

definition scratch_store_free :: "heap \<Rightarrow> heap" where
  "scratch_store_free h = h\<lparr>owned := []\<rparr>"

text \<open>\<open>n\<close> plain allocations, all attempted before the results are tested.\<close>

fun plain_mallocs :: "malloc \<Rightarrow> nat \<Rightarrow> GeasContract \<Rightarrow> bool \<times> GeasContract" where
  "plain_mallocs M 0 c = (True, c)"
| "plain_mallocs M (Suc n) c =
     (let h = c_heap c;
          (ok, c') = plain_mallocs M n (c\<lparr>c_heap := h\<lparr>mcalls := Suc (mcalls h)\<rparr>\<rparr>)
      in (M (mcalls h) \<and> ok, c'))"

section \<open>Results\<close>

definition store_ok :: "malloc \<Rightarrow> GeasContract \<Rightarrow> GeasValue \<Rightarrow> (GeasStatus + GeasValue) \<times> GeasContract" where
  "store_ok M c payload =
     (case geas_box M (c_heap c) of
        (False, h) \<Rightarrow> (Inl GEAS_ERR_OOM, c\<lparr>c_heap := h\<rparr>)
      | (True, h) \<Rightarrow> (Inr (VBox KResult 0 (Some payload)), c\<lparr>c_heap := h\<rparr>))"

definition store_ok_unit :: "malloc \<Rightarrow> GeasContract \<Rightarrow> (GeasStatus + GeasValue) \<times> GeasContract" where
  "store_ok_unit M c = store_ok M c (VUnit 0)"

definition store_row_params :: "GeasSchemaDesc \<Rightarrow> GeasValue \<Rightarrow> GeasValue list option" where
  "store_row_params s row =
     (case row of
        VArr KRecord g l \<Rightarrow>
          if list_len l \<noteq> of_nat (length (sd_cols s)) then None
          else (case l of LNull n cap e \<Rightarrow> None | LData fs cap e \<Rightarrow> Some fs)
      | _ \<Rightarrow> None)"

type_synonym 'w store_result = "(GeasStatus + GeasValue) \<times> GeasContract \<times> 'w"

definition deliver :: "(GeasStatus + GeasValue) \<times> GeasContract \<Rightarrow> 'w \<Rightarrow> 'w store_result" where
  "deliver rc w = (fst rc, snd rc, w)"

text \<open>A query whose rows land on the instance heap.\<close>

definition instance_query ::
    "'w sqlite \<Rightarrow> malloc \<Rightarrow> GeasContract \<Rightarrow> conn \<Rightarrow> string \<Rightarrow> GeasValue list \<Rightarrow> u32 list \<Rightarrow> 'w \<Rightarrow> 'w store_result"
where
  "instance_query S M c db sql params cts w =
     (case geas_store_query S (instance_store_bytes M) db sql params cts (c_heap c) w of
        (r, h, w) \<Rightarrow> (r, c\<lparr>c_heap := h\<rparr>, w))"

text \<open>A query whose rows land in a scratch arena that does not outlive the call.\<close>

definition scratch_query ::
    "'w sqlite \<Rightarrow> malloc \<Rightarrow> GeasContract \<Rightarrow> conn \<Rightarrow> string \<Rightarrow> GeasValue list \<Rightarrow> u32 list \<Rightarrow> 'w \<Rightarrow> 'w store_result"
where
  "scratch_query S M c db sql params cts w =
     (case geas_store_query S (scratch_store_bytes M) db sql params cts
             \<lparr>owned = [], mcalls = mcalls (c_heap c)\<rparr> w of
        (r, h, w) \<Rightarrow> (r, c\<lparr>c_heap := (c_heap c)\<lparr>mcalls := mcalls (scratch_store_free h)\<rparr>\<rparr>, w))"

section \<open>Reading rows\<close>

definition geas_store_find ::
    "'w sqlite \<Rightarrow> malloc \<Rightarrow> GeasContract \<Rightarrow> GeasSchemaDesc \<Rightarrow> GeasValue \<Rightarrow> 'w \<Rightarrow> 'w store_result" where
  "geas_store_find S M c schema key w =
     (case c_store c of
        None \<Rightarrow> (Inl GEAS_ERR_STORE, c, w)
      | Some db \<Rightarrow>
          if sd_cols schema = [] then (Inl GEAS_ERR_STORE, c, w)
          else (case plain_mallocs M 2 c of
              (False, c) \<Rightarrow> (Inl GEAS_ERR_OOM, c, w)
            | (True, c) \<Rightarrow>
                (case instance_query S M c db (the (store_sql_select schema)) [key]
                        (store_col_types schema) w of
                   (Inl st, c, w) \<Rightarrow> (Inl st, c, w)
                 | (Inr (VArr KList g (LData (r # rs) cap e)), c, w) \<Rightarrow>
                     (case geas_box M (c_heap c) of
                        (False, h) \<Rightarrow> (Inl GEAS_ERR_OOM, c\<lparr>c_heap := h\<rparr>, w)
                      | (True, h) \<Rightarrow>
                          deliver (store_ok M (c\<lparr>c_heap := h\<rparr>) (VBox KOption 1 (Some r))) w)
                 | (Inr rows, c, w) \<Rightarrow> deliver (store_ok M c (VBox KOption 0 None)) w)))"

text \<open>The part the row queries share once their arguments are valid: \<open>n\<close> plain allocations (the
  statement, the column types and, with terms, the parameter frame), the query, and the \<^verbatim>\<open>Ok\<close>.\<close>

definition query_rows ::
    "'w sqlite \<Rightarrow> malloc \<Rightarrow> nat \<Rightarrow> GeasContract \<Rightarrow> GeasSchemaDesc \<Rightarrow> string option \<Rightarrow> GeasValue list \<Rightarrow> 'w \<Rightarrow>
     'w store_result" where
  "query_rows S M n c schema sql params w =
     (case c_store c of
        None \<Rightarrow> (Inl GEAS_ERR_STORE, c, w)
      | Some db \<Rightarrow>
          (case plain_mallocs M n c of
             (False, c) \<Rightarrow> (Inl GEAS_ERR_OOM, c, w)
           | (True, c) \<Rightarrow>
               (case instance_query S M c db (the sql) params (store_col_types schema) w of
                  (Inl st, c, w) \<Rightarrow> (Inl st, c, w)
                | (Inr rows, c, w) \<Rightarrow> deliver (store_ok M c rows) w)))"

definition geas_store_query_eq ::
    "'w sqlite \<Rightarrow> malloc \<Rightarrow> GeasContract \<Rightarrow> GeasSchemaDesc \<Rightarrow> nat \<Rightarrow> GeasValue \<Rightarrow> 'w \<Rightarrow> 'w store_result" where
  "geas_store_query_eq S M c schema col v w =
     (if sd_cols schema = [] \<or> length (sd_cols schema) \<le> col then (Inl GEAS_ERR_TYPE, c, w)
      else if gv_ty v \<noteq> sc_ty (sd_cols schema ! col) then (Inl GEAS_ERR_TYPE, c, w)
      else query_rows S M 2 c schema (store_sql_select_eq schema col) [v] w)"

text \<open>The check every term goes through, and the frame of their values.\<close>

definition term_ok :: "GeasSchemaDesc \<Rightarrow> GeasStoreTerm \<Rightarrow> bool" where
  "term_ok schema t =
     (if length (sd_cols schema) \<le> t_col t then False
      else if GEAS_CMP_GE < t_cmp t then False
      else case t_value t of
        None \<Rightarrow> False
      | Some v \<Rightarrow> gv_ty v = sc_ty (sd_cols schema ! t_col t))"

definition term_params :: "GeasStoreTerm list \<Rightarrow> GeasValue list" where
  "term_params terms = map (\<lambda>t. the (t_value t)) terms"

definition terms_valid :: "GeasSchemaDesc \<Rightarrow> GeasStoreTerm list \<Rightarrow> bool" where
  "terms_valid schema terms =
     (sd_cols schema \<noteq> [] \<and> terms \<noteq> [] \<and> list_all (term_ok schema) terms)"

definition limit_ok :: "GeasValue \<Rightarrow> bool" where
  "limit_ok v = (case v of VInt g i \<Rightarrow> 0 \<le> sint i | _ \<Rightarrow> False)"

definition geas_store_query_where ::
    "'w sqlite \<Rightarrow> malloc \<Rightarrow> GeasContract \<Rightarrow> GeasSchemaDesc \<Rightarrow> GeasStoreTerm list \<Rightarrow> 'w \<Rightarrow> 'w store_result" where
  "geas_store_query_where S M c schema terms w =
     (if \<not> terms_valid schema terms then (Inl GEAS_ERR_TYPE, c, w)
      else query_rows S M 3 c schema (store_sql_select_where schema terms) (term_params terms) w)"

definition geas_store_query_ordered ::
    "'w sqlite \<Rightarrow> malloc \<Rightarrow> GeasContract \<Rightarrow> GeasSchemaDesc \<Rightarrow> GeasStoreTerm list \<Rightarrow> nat \<Rightarrow> nat \<Rightarrow> 'w \<Rightarrow>
     'w store_result" where
  "geas_store_query_ordered S M c schema terms order_col order_desc w =
     (if \<not> terms_valid schema terms then (Inl GEAS_ERR_TYPE, c, w)
      else if length (sd_cols schema) \<le> order_col then (Inl GEAS_ERR_TYPE, c, w)
      else if 1 < order_desc then (Inl GEAS_ERR_TYPE, c, w)
      else query_rows S M 3 c schema (store_sql_select_ordered schema terms order_col order_desc)
             (term_params terms) w)"

definition geas_store_query_page ::
    "'w sqlite \<Rightarrow> malloc \<Rightarrow> GeasContract \<Rightarrow> GeasSchemaDesc \<Rightarrow> GeasStoreTerm list \<Rightarrow> nat \<Rightarrow> nat \<Rightarrow>
     GeasValue \<Rightarrow> 'w \<Rightarrow> 'w store_result" where
  "geas_store_query_page S M c schema terms order_col order_desc limit w =
     (if \<not> terms_valid schema terms then (Inl GEAS_ERR_TYPE, c, w)
      else if length (sd_cols schema) \<le> order_col then (Inl GEAS_ERR_TYPE, c, w)
      else if 1 < order_desc then (Inl GEAS_ERR_TYPE, c, w)
      else if \<not> limit_ok limit then (Inl GEAS_ERR_TYPE, c, w)
      else query_rows S M 3 c schema (store_sql_select_page schema terms order_col order_desc)
             (term_params terms @ [limit]) w)"

section \<open>Groups of terms\<close>

text \<open>The 32 bit total of the group lengths, refused when a group is empty or the sum would wrap.\<close>

fun group_total :: "u32 \<Rightarrow> u32 list \<Rightarrow> u32 option" where
  "group_total n [] = Some n"
| "group_total n (g # gs) =
     (if g = 0 then None
      else if - 1 - n < g then None
      else group_total (n + g) gs)"

text \<open>The terms of a grouped call, when its arguments are valid.\<close>

definition group_terms ::
    "GeasSchemaDesc \<Rightarrow> GeasStoreTerm list \<Rightarrow> u32 list \<Rightarrow> GeasStoreTerm list option" where
  "group_terms schema terms group_lens =
     (if sd_cols schema = [] \<or> group_lens = [] then None
      else case group_total 0 group_lens of
        None \<Rightarrow> None
      | Some n \<Rightarrow>
          if list_all (term_ok schema) (take (unat n) terms) then Some (take (unat n) terms) else None)"

definition UINT32_MAX :: nat where
  "UINT32_MAX = 4294967295"

definition geas_store_select ::
    "'w sqlite \<Rightarrow> malloc \<Rightarrow> GeasContract \<Rightarrow> GeasSchemaDesc \<Rightarrow> GeasStoreTerm list \<Rightarrow> u32 list \<Rightarrow> nat \<Rightarrow>
     nat \<Rightarrow> GeasValue option \<Rightarrow> 'w \<Rightarrow> 'w store_result" where
  "geas_store_select S M c schema terms group_lens order_col order_desc limit w =
     (case group_terms schema terms group_lens of
        None \<Rightarrow> (Inl GEAS_ERR_TYPE, c, w)
      | Some ts \<Rightarrow>
          let bounded = (limit \<noteq> None) in
          if order_col = GEAS_STORE_NO_ORDER \<and> bounded then (Inl GEAS_ERR_TYPE, c, w)
          else if order_col \<noteq> GEAS_STORE_NO_ORDER \<and> length (sd_cols schema) \<le> order_col then
            (Inl GEAS_ERR_TYPE, c, w)
          else if order_col \<noteq> GEAS_STORE_NO_ORDER \<and> 1 < order_desc then (Inl GEAS_ERR_TYPE, c, w)
          else if bounded \<and> (\<not> limit_ok (the limit) \<or> length ts = UINT32_MAX) then (Inl GEAS_ERR_TYPE, c, w)
          else query_rows S M 3 c schema
                 (store_sql_select_any schema ts (map unat group_lens) order_col order_desc bounded)
                 (term_params ts @ (case limit of None \<Rightarrow> [] | Some v \<Rightarrow> [v])) w)"

section \<open>Aggregates\<close>

text \<open>The first record of a result of \<open>n\<close> rows, and the fields of a record of width \<open>n\<close>.\<close>

definition list_first :: "u64 \<Rightarrow> GeasValue \<Rightarrow> GeasValue option" where
  "list_first n v =
     (case v of
        VArr KList g l \<Rightarrow>
          if list_len l \<noteq> n then None
          else (case l of LData (x # xs) cap e \<Rightarrow> Some x | _ \<Rightarrow> None)
      | _ \<Rightarrow> None)"

definition record_fields :: "u64 \<Rightarrow> GeasValue \<Rightarrow> GeasValue list option" where
  "record_fields n v =
     (case v of
        VArr KRecord g l \<Rightarrow>
          if list_len l \<noteq> n then None
          else (case l of LData xs cap e \<Rightarrow> Some xs | _ \<Rightarrow> None)
      | _ \<Rightarrow> None)"

definition single_field :: "u32 \<Rightarrow> GeasValue \<Rightarrow> GeasValue option" where
  "single_field ty rows =
     (case list_first 1 rows of
        None \<Rightarrow> None
      | Some rec \<Rightarrow>
          (case record_fields 1 rec of
             Some (f # fs) \<Rightarrow> if gv_ty f \<noteq> ty then None else Some f
           | _ \<Rightarrow> None))"

text \<open>The fresh Int or Float an aggregate reports.\<close>

fun fresh_number :: "GeasValue \<Rightarrow> GeasValue" where
  "fresh_number (VInt g i) = VInt 0 i"
| "fresh_number (VFloat g f) = VFloat 0 f"
| "fresh_number v = v"

definition query_number ::
    "'w sqlite \<Rightarrow> malloc \<Rightarrow> GeasContract \<Rightarrow> string option \<Rightarrow> u32 \<Rightarrow> GeasValue list \<Rightarrow> 'w \<Rightarrow> 'w store_result"
where
  "query_number S M c sql ty params w =
     (case c_store c of
        None \<Rightarrow> (Inl GEAS_ERR_STORE, c, w)
      | Some db \<Rightarrow>
          (case plain_mallocs M 2 c of
             (False, c) \<Rightarrow> (Inl GEAS_ERR_OOM, c, w)
           | (True, c) \<Rightarrow>
               (case scratch_query S M c db (the sql) params [ty] w of
                  (Inl st, c, w) \<Rightarrow> (Inl st, c, w)
                | (Inr rows, c, w) \<Rightarrow>
                    (case single_field ty rows of
                       None \<Rightarrow> (Inl GEAS_ERR_STORE, c, w)
                     | Some f \<Rightarrow> deliver (store_ok M c (fresh_number f)) w))))"

definition geas_store_count_any ::
    "'w sqlite \<Rightarrow> malloc \<Rightarrow> GeasContract \<Rightarrow> GeasSchemaDesc \<Rightarrow> GeasStoreTerm list \<Rightarrow> u32 list \<Rightarrow> 'w \<Rightarrow>
     'w store_result" where
  "geas_store_count_any S M c schema terms group_lens w =
     (case group_terms schema terms group_lens of
        None \<Rightarrow> (Inl GEAS_ERR_TYPE, c, w)
      | Some ts \<Rightarrow>
          query_number S M c (store_sql_count_any schema ts (map unat group_lens))
            (ty_num GEAS_TY_INT) (term_params ts) w)"

definition summable :: "GeasSchemaDesc \<Rightarrow> nat \<Rightarrow> bool" where
  "summable schema col =
     (if length (sd_cols schema) \<le> col then False
      else sc_ty (sd_cols schema ! col) = ty_num GEAS_TY_INT \<or>
           sc_ty (sd_cols schema ! col) = ty_num GEAS_TY_FLOAT)"

definition geas_store_sum_any ::
    "'w sqlite \<Rightarrow> malloc \<Rightarrow> GeasContract \<Rightarrow> GeasSchemaDesc \<Rightarrow> nat \<Rightarrow> GeasStoreTerm list \<Rightarrow> u32 list \<Rightarrow> 'w \<Rightarrow>
     'w store_result" where
  "geas_store_sum_any S M c schema sum_col terms group_lens w =
     (case group_terms schema terms group_lens of
        None \<Rightarrow> (Inl GEAS_ERR_TYPE, c, w)
      | Some ts \<Rightarrow>
          if \<not> summable schema sum_col then (Inl GEAS_ERR_TYPE, c, w)
          else query_number S M c (store_sql_sum_any schema sum_col ts (map unat group_lens))
                 (sc_ty (sd_cols schema ! sum_col)) (term_params ts) w)"

definition geas_store_count_where ::
    "'w sqlite \<Rightarrow> malloc \<Rightarrow> GeasContract \<Rightarrow> GeasSchemaDesc \<Rightarrow> GeasStoreTerm list \<Rightarrow> 'w \<Rightarrow> 'w store_result" where
  "geas_store_count_where S M c schema terms w =
     (if \<not> terms_valid schema terms then (Inl GEAS_ERR_TYPE, c, w)
      else query_number S M c (store_sql_count_where schema terms) (ty_num GEAS_TY_INT)
             (term_params terms) w)"

definition geas_store_sum_where ::
    "'w sqlite \<Rightarrow> malloc \<Rightarrow> GeasContract \<Rightarrow> GeasSchemaDesc \<Rightarrow> nat \<Rightarrow> GeasStoreTerm list \<Rightarrow> 'w \<Rightarrow>
     'w store_result" where
  "geas_store_sum_where S M c schema sum_col terms w =
     (if \<not> terms_valid schema terms then (Inl GEAS_ERR_TYPE, c, w)
      else if \<not> summable schema sum_col then (Inl GEAS_ERR_TYPE, c, w)
      else query_number S M c (store_sql_sum_where schema sum_col terms)
             (sc_ty (sd_cols schema ! sum_col)) (term_params terms) w)"

definition GEAS_AGG_MIN :: nat where
  "GEAS_AGG_MIN = 0"

definition GEAS_AGG_MAX :: nat where
  "GEAS_AGG_MAX = 1"

definition GEAS_AGG_AVG :: nat where
  "GEAS_AGG_AVG = 2"

text \<open>The average of the two fields \<^verbatim>\<open>COUNT(*), SUM(col)\<close>, none over no rows.\<close>

definition avg_value :: "GeasValue \<Rightarrow> GeasValue \<Rightarrow> GeasValue option" where
  "avg_value n tot =
     (case n of
        VInt g i \<Rightarrow>
          if i = 0 then None
          else Some (VFloat 0 (f64_div (case tot of VInt g s \<Rightarrow> f64_of_int s | VFloat g s \<Rightarrow> s | _ \<Rightarrow> 0)
                                 (f64_of_int i)))
      | _ \<Rightarrow> None)"

definition agg_avg ::
    "malloc \<Rightarrow> GeasContract \<Rightarrow> u32 \<Rightarrow> GeasValue \<Rightarrow> (GeasStatus + GeasValue) \<times> GeasContract" where
  "agg_avg M c agg_ty rows =
     (case list_first 1 rows of
        None \<Rightarrow> (Inl GEAS_ERR_STORE, c)
      | Some rec \<Rightarrow>
          (case record_fields 2 rec of
             Some (n # tot # fs) \<Rightarrow>
               if gv_ty n \<noteq> ty_num GEAS_TY_INT \<or> gv_ty tot \<noteq> agg_ty then (Inl GEAS_ERR_STORE, c)
               else (case avg_value n tot of
                   None \<Rightarrow> store_ok M c (VBox KOption 0 None)
                 | Some v \<Rightarrow>
                     (case geas_box M (c_heap c) of
                        (False, h) \<Rightarrow> (Inl GEAS_ERR_OOM, c\<lparr>c_heap := h\<rparr>)
                      | (True, h) \<Rightarrow> store_ok M (c\<lparr>c_heap := h\<rparr>) (VBox KOption 1 (Some v))))
           | _ \<Rightarrow> (Inl GEAS_ERR_STORE, c)))"

definition agg_extreme ::
    "malloc \<Rightarrow> GeasContract \<Rightarrow> u32 \<Rightarrow> GeasValue \<Rightarrow> (GeasStatus + GeasValue) \<times> GeasContract" where
  "agg_extreme M c agg_ty rows =
     (case rows of
        VArr KList g l \<Rightarrow>
          if 1 < list_len l then (Inl GEAS_ERR_STORE, c)
          else if list_len l = 0 then store_ok M c (VBox KOption 0 None)
          else (case single_field agg_ty rows of
              None \<Rightarrow> (Inl GEAS_ERR_STORE, c)
            | Some f \<Rightarrow>
                (case geas_box M (c_heap c) of
                   (False, h) \<Rightarrow> (Inl GEAS_ERR_OOM, c\<lparr>c_heap := h\<rparr>)
                 | (True, h) \<Rightarrow>
                     (case geas_value_deep_copy M f h of
                        (Inl st, h) \<Rightarrow> (Inl st, c\<lparr>c_heap := h\<rparr>)
                      | (Inr v, h) \<Rightarrow> store_ok M (c\<lparr>c_heap := h\<rparr>) (VBox KOption 1 (Some v)))))
      | _ \<Rightarrow> (Inl GEAS_ERR_STORE, c))"

definition geas_store_agg_any ::
    "'w sqlite \<Rightarrow> malloc \<Rightarrow> GeasContract \<Rightarrow> GeasSchemaDesc \<Rightarrow> nat \<Rightarrow> nat \<Rightarrow> GeasStoreTerm list \<Rightarrow> u32 list \<Rightarrow>
     'w \<Rightarrow> 'w store_result" where
  "geas_store_agg_any S M c schema agg agg_col terms group_lens w =
     (if GEAS_AGG_AVG < agg then (Inl GEAS_ERR_TYPE, c, w)
      else case group_terms schema terms group_lens of
        None \<Rightarrow> (Inl GEAS_ERR_TYPE, c, w)
      | Some ts \<Rightarrow>
          if length (sd_cols schema) \<le> agg_col then (Inl GEAS_ERR_TYPE, c, w)
          else if agg = GEAS_AGG_AVG \<and> \<not> summable schema agg_col then (Inl GEAS_ERR_TYPE, c, w)
          else
            let agg_ty = sc_ty (sd_cols schema ! agg_col) in
            (case c_store c of
               None \<Rightarrow> (Inl GEAS_ERR_STORE, c, w)
             | Some db \<Rightarrow>
                 (case plain_mallocs M 2 c of
                    (False, c) \<Rightarrow> (Inl GEAS_ERR_OOM, c, w)
                  | (True, c) \<Rightarrow>
                      if agg = GEAS_AGG_AVG then
                        (case scratch_query S M c db
                                (the (store_sql_avg_any schema agg_col ts (map unat group_lens)))
                                (term_params ts) [ty_num GEAS_TY_INT, agg_ty] w of
                           (Inl st, c, w) \<Rightarrow> (Inl st, c, w)
                         | (Inr rows, c, w) \<Rightarrow> deliver (agg_avg M c agg_ty rows) w)
                      else
                        (case scratch_query S M c db
                                (the (store_sql_extreme_any schema agg_col
                                   (if agg = GEAS_AGG_MAX then 1 else 0) ts (map unat group_lens)))
                                (term_params ts) [agg_ty] w of
                           (Inl st, c, w) \<Rightarrow> (Inl st, c, w)
                         | (Inr rows, c, w) \<Rightarrow> deliver (agg_extreme M c agg_ty rows) w))))"

section \<open>Writes\<close>

definition exec_unit ::
    "'w sqlite \<Rightarrow> malloc \<Rightarrow> nat \<Rightarrow> GeasContract \<Rightarrow> string option \<Rightarrow> GeasValue list \<Rightarrow> 'w \<Rightarrow> 'w store_result" where
  "exec_unit S M n c sql params w =
     (case c_store c of
        None \<Rightarrow> (Inl GEAS_ERR_STORE, c, w)
      | Some db \<Rightarrow>
          (case plain_mallocs M n c of
             (False, c) \<Rightarrow> (Inl GEAS_ERR_OOM, c, w)
           | (True, c) \<Rightarrow>
               (case geas_store_exec_params S db (the sql) params w of
                  (Inl st, w) \<Rightarrow> (Inl st, c, w)
                | (Inr changes, w) \<Rightarrow> deliver (store_ok_unit M c) w)))"

definition geas_store_insert ::
    "'w sqlite \<Rightarrow> malloc \<Rightarrow> GeasContract \<Rightarrow> GeasSchemaDesc \<Rightarrow> GeasValue \<Rightarrow> 'w \<Rightarrow> 'w store_result" where
  "geas_store_insert S M c schema row w =
     (case store_row_params schema row of
        None \<Rightarrow> (Inl GEAS_ERR_TYPE, c, w)
      | Some params \<Rightarrow> exec_unit S M 1 c (store_sql_insert schema) params w)"

definition geas_store_update ::
    "'w sqlite \<Rightarrow> malloc \<Rightarrow> GeasContract \<Rightarrow> GeasSchemaDesc \<Rightarrow> GeasValue \<Rightarrow> GeasValue \<Rightarrow> 'w \<Rightarrow> 'w store_result"
where
  "geas_store_update S M c schema key row w =
     (case store_row_params schema row of
        None \<Rightarrow> (Inl GEAS_ERR_TYPE, c, w)
      | Some params \<Rightarrow> exec_unit S M 2 c (store_sql_update schema) (params @ [key]) w)"

definition geas_store_delete ::
    "'w sqlite \<Rightarrow> malloc \<Rightarrow> GeasContract \<Rightarrow> GeasSchemaDesc \<Rightarrow> GeasValue \<Rightarrow> 'w \<Rightarrow> 'w store_result" where
  "geas_store_delete S M c schema key w =
     (if sd_cols schema = [] then (Inl GEAS_ERR_STORE, c, w)
      else exec_unit S M 1 c (store_sql_delete schema) [key] w)"

end
