(* ===== verification/Geas_Store_Facts.thy ===== *)
theory Geas_Store_Facts
  imports Geas_Store_Ops
begin

text \<open>
  The interface between the store driver and its allocator, as a locale, with what the driver's
  readers do to the owner's blocks proved once for any allocator; and the facts on the schema
  statements that the properties of the store rest on.
\<close>

section \<open>The allocator interface\<close>

text \<open>The driver relies on a hook that hands out one block of the requested size, or nothing.\<close>

locale store_alloc =
  fixes bytes :: "'h alloc_hook"
    and held :: "'h \<Rightarrow> u64 list"
  assumes grant: "bytes n h = (True, h') \<Longrightarrow> held h' = n # held h"
    and refuse: "bytes n h = (False, h') \<Longrightarrow> held h' = held h"

text \<open>The blocks a value read from a row occupies, newest first.\<close>

fun field_blocks :: "GeasValue \<Rightarrow> u64 list" where
  "field_blocks (VString g (SBytes b)) = [of_nat (length b)]"
| "field_blocks v = []"

definition fields_blocks :: "GeasValue list \<Rightarrow> u64 list" where
  "fields_blocks fs = concat (map field_blocks (rev fs))"

fun row_blocks :: "GeasValue \<Rightarrow> u64 list" where
  "row_blocks (VArr KRecord g (LData fs cap e)) = fields_blocks fs @ [cap * SIZEOF_VALUE]"
| "row_blocks v = []"

fun rows_blocks :: "GeasValue \<Rightarrow> u64 list" where
  "rows_blocks (VArr KList g (LData rs cap e)) = concat (map row_blocks (rev rs)) @ [cap * SIZEOF_VALUE]"
| "rows_blocks v = []"

lemma fields_blocks_simps [simp]:
  "fields_blocks [] = []"
  "fields_blocks (f # fs) = fields_blocks fs @ field_blocks f"
  by (simp_all add: fields_blocks_def)

definition held_grows :: "u64 list \<Rightarrow> u64 list \<Rightarrow> bool" where
  "held_grows xs ys = (\<exists>zs. ys = zs @ xs)"

lemma held_grows_refl [simp]: "held_grows xs xs"
  by (simp add: held_grows_def)

lemma held_grows_append [simp]: "held_grows xs (zs @ xs)" "held_grows xs (z # xs)"
  by (auto simp: held_grows_def)

lemma held_grows_trans: "held_grows xs ys \<Longrightarrow> held_grows ys zs \<Longrightarrow> held_grows xs zs"
  by (auto simp: held_grows_def)

lemma read_field_result:
  assumes "read_field S bytes ty x h = (Inr f, h')"
  shows "(bytes (of_nat (length (sq_col_blob S x))) h = (True, h') \<and> f = VString 0 (SBytes (sq_col_blob S x))) \<or>
         (h' = h \<and> field_blocks f = [])"
  using assms
  by (auto simp: read_field_def Let_def split: if_splits option.splits GeasTypeTag.splits prod.splits bool.splits)

lemma read_field_error:
  assumes "read_field S bytes ty x h = (Inl st, h')"
  shows "h' = h \<or> bytes (of_nat (length (sq_col_blob S x))) h = (False, h')"
  using assms
  by (auto simp: read_field_def Let_def split: if_splits option.splits GeasTypeTag.splits prod.splits bool.splits)

text \<open>A query either stops before the owner is touched, or fills its rows.\<close>

lemma query_filled:
  assumes "geas_store_query S bytes db sql params tys h w = (r, h', w')"
  obtains st where "r = Inl st" "h' = h"
  | cells n w1 where "query_fill S bytes db sql cells tys n h w1 = (r, h', w')"
  using assms unfolding geas_store_query_def
  by (auto split: if_splits option.splits prod.splits sum.splits)

definition backbone :: "'h alloc_hook \<Rightarrow> nat \<Rightarrow> 'h \<Rightarrow> bool \<times> 'h" where
  "backbone bytes n h = (if n = 0 then (True, h) else bytes (of_nat n * SIZEOF_VALUE) h)"

lemma query_fill_cases:
  assumes "query_fill S bytes db sql cells tys n h w = (r, h', w')"
  obtains "backbone bytes n h = (False, h')" "r = Inl GEAS_ERR_OOM"
  | h1 rows2 vs where "backbone bytes n h = (True, h1)" "read_rows S bytes tys n rows2 h1 = (Inr vs, h')"
      "r = Inr (rows_of vs)"
  | h1 rows2 st q where "backbone bytes n h = (True, h1)" "read_rows S bytes tys n rows2 h1 = (q, h')"
      "r = Inl st"
  using assms unfolding query_fill_def backbone_def[symmetric]
  by (auto split: if_splits prod.splits sum.splits bool.splits)

context store_alloc
begin

lemma read_field_held:
  "read_field S bytes ty x h = (Inr f, h') \<Longrightarrow> held h' = field_blocks f @ held h"
  by (drule read_field_result) (auto simp: grant)

lemma read_field_held_error:
  "read_field S bytes ty x h = (Inl st, h') \<Longrightarrow> held h' = held h"
  by (drule read_field_error) (auto dest: refuse)

lemma read_fields_held:
  "read_fields S bytes tys xs h = (Inr fs, h') \<Longrightarrow> held h' = fields_blocks fs @ held h \<and> length fs = length tys"
proof (induction tys arbitrary: xs h fs h')
  case (Cons ty tys)
  then obtain f h1 fs' where
      f: "read_field S bytes ty (case xs of [] \<Rightarrow> CNull | x # _ \<Rightarrow> x) h = (Inr f, h1)"
      and r: "read_fields S bytes tys (tl xs) h1 = (Inr fs', h')" and fs: "fs = f # fs'"
    by (auto split: prod.splits sum.splits)
  show ?case
    using read_field_held[OF f] Cons.IH[OF r] by (simp add: fs)
qed simp

lemma read_fields_held_error:
  "read_fields S bytes tys xs h = (Inl st, h') \<Longrightarrow> held_grows (held h) (held h')"
proof (induction tys arbitrary: xs h h')
  case (Cons ty tys)
  let ?x = "case xs of [] \<Rightarrow> CNull | x # _ \<Rightarrow> x"
  show ?case
  proof (cases "read_field S bytes ty ?x h")
    case (Pair r h1)
    show ?thesis
    proof (cases r)
      case (Inl e)
      then show ?thesis
        using Cons.prems Pair read_field_held_error[of S ty ?x h e h1] by simp
    next
      case (Inr f)
      then have "read_fields S bytes tys (tl xs) h1 = (Inl st, h')"
        using Cons.prems Pair by (auto split: prod.splits sum.splits)
      then have "held_grows (held h1) (held h')"
        by (rule Cons.IH)
      moreover have "held h1 = field_blocks f @ held h"
        using Pair Inr by (intro read_field_held) simp
      ultimately show ?thesis
        by (auto simp: held_grows_def)
    qed
  qed
qed simp

lemma read_row_held:
  assumes "read_row S bytes tys xs h = (Inr v, h')"
  shows "held h' = row_blocks v @ held h"
proof (cases "tys = []")
  case False
  then obtain h1 fs where b: "bytes (of_nat (length tys) * SIZEOF_VALUE) h = (True, h1)"
      and fs: "read_fields S bytes tys xs h1 = (Inr fs, h')" and v: "v = record_of fs"
    using assms by (auto simp: read_row_def split: prod.splits bool.splits sum.splits)
  show ?thesis
    using read_fields_held[OF fs] grant[OF b] False by (cases fs) (auto simp: v record_of_def)
qed (use assms in \<open>auto simp: read_row_def record_of_def\<close>)

lemma read_row_held_error:
  assumes "read_row S bytes tys xs h = (Inl st, h')"
  shows "held_grows (held h) (held h')"
proof (cases "bytes (of_nat (length tys) * SIZEOF_VALUE) h")
  case (Pair ok h1)
  show ?thesis
  proof (cases ok)
    case True
    then have "read_fields S bytes tys xs h1 = (Inl st, h')"
      using assms Pair by (auto simp: read_row_def split: if_splits prod.splits sum.splits)
    from read_fields_held_error[OF this] show ?thesis
      using grant[of _ h h1] Pair True by (auto simp: held_grows_def)
  next
    case False
    then show ?thesis
      using assms Pair refuse[of _ h h1] by (auto simp: read_row_def split: if_splits)
  qed
qed

lemma read_rows_held:
  "read_rows S bytes tys n rs h = (Inr vs, h') \<Longrightarrow>
     held h' = concat (map row_blocks (rev vs)) @ held h \<and> length vs = n"
proof (induction n arbitrary: rs h vs)
  case (Suc n)
  show ?case
  proof (cases rs)
    case Nil
    then show ?thesis
      using Suc.prems by (auto simp: gv_zero_def simp flip: replicate_append_same)
  next
    case (Cons r rs')
    then obtain v h1 vs' where v: "read_row S bytes tys r h = (Inr v, h1)"
        and r: "read_rows S bytes tys n rs' h1 = (Inr vs', h')" and vs: "vs = v # vs'"
      using Suc.prems by (auto split: prod.splits sum.splits)
    show ?thesis
      using read_row_held[OF v] Suc.IH[OF r] by (simp add: vs)
  qed
qed simp

lemma read_rows_held_error:
  "read_rows S bytes tys n rs h = (Inl st, h') \<Longrightarrow> held_grows (held h) (held h')"
proof (induction n arbitrary: rs h)
  case (Suc n)
  then obtain r rs' where rs: "rs = r # rs'"
    by (cases rs) auto
  show ?case
  proof (cases "read_row S bytes tys r h")
    case (Pair res h1)
    show ?thesis
    proof (cases res)
      case (Inl e)
      then show ?thesis
        using Suc.prems Pair read_row_held_error[of S tys r h e h1] by (simp add: rs)
    next
      case (Inr v)
      then have "read_rows S bytes tys n rs' h1 = (Inl st, h')"
        using Suc.prems Pair by (auto simp: rs split: prod.splits sum.splits)
      then have "held_grows (held h1) (held h')"
        by (rule Suc.IH)
      moreover have "held h1 = row_blocks v @ held h"
        using Pair Inr by (intro read_row_held) simp
      ultimately show ?thesis
        by (auto simp: held_grows_def)
    qed
  qed
qed simp

lemma query_held:
  assumes "geas_store_query S bytes db sql params tys h w = (Inr v, h', w')"
  shows "held h' = rows_blocks v @ held h"
proof (rule query_filled[OF assms])
  fix cells n w1
  assume "query_fill S bytes db sql cells tys n h w1 = (Inr v, h', w')"
  then show ?thesis
  proof (rule query_fill_cases)
    fix h1 rows2 vs
    assume b: "backbone bytes n h = (True, h1)"
      and r: "read_rows S bytes tys n rows2 h1 = (Inr vs, h')" and v: "Inr v = (Inr (rows_of vs) :: GeasStatus + GeasValue)"
    show ?thesis
      using read_rows_held[OF r] b v
      by (cases vs) (auto simp: rows_of_def backbone_def dest: grant split: if_splits)
  qed auto
qed auto

lemma query_held_error:
  assumes "geas_store_query S bytes db sql params tys h w = (Inl st, h', w')"
  shows "held_grows (held h) (held h')"
proof (rule query_filled[OF assms])
  fix cells n w1
  assume "query_fill S bytes db sql cells tys n h w1 = (Inl st, h', w')"
  then show ?thesis
  proof (rule query_fill_cases)
    fix h1 rows2 e q
    assume b: "backbone bytes n h = (True, h1)" and r: "read_rows S bytes tys n rows2 h1 = (q, h')"
      and "Inl st = (Inl e :: GeasStatus + GeasValue)"
    have "held_grows (held h) (held h1)"
      using b by (auto simp: backbone_def dest: grant split: if_splits)
    moreover have "held_grows (held h1) (held h')"
      using r read_rows_held[of S tys n rows2 h1 _ h'] read_rows_held_error[of S tys n rows2 h1 _ h']
      by (cases q) auto
    ultimately show ?thesis
      by (rule held_grows_trans)
  qed (auto simp: backbone_def dest: refuse split: if_splits)
qed auto

end

text \<open>Both hooks of the runtime provide the interface.\<close>

definition instance_held :: "heap \<Rightarrow> u64 list" where
  "instance_held h = map (\<lambda>b. b - 8) (owned h)"

definition scratch_held :: "heap \<Rightarrow> u64 list" where
  "scratch_held h = map (\<lambda>b. b - SIZEOF_SCRATCH) (owned h)"

interpretation instance_hook: store_alloc "instance_store_bytes M" instance_held
  by unfold_locales (auto simp: instance_store_bytes_def geas_bytes_def instance_held_def split: if_splits)

interpretation scratch_hook: store_alloc "scratch_store_bytes M" scratch_held
  by unfold_locales (auto simp: scratch_store_bytes_def scratch_held_def split: if_splits)

section \<open>The schema statements\<close>

fun create_pieces :: "nat \<Rightarrow> GeasSchemaCol list \<Rightarrow> string" where
  "create_pieces i [] = ''''"
| "create_pieces i (c # cs) = create_piece i c @ create_pieces (Suc i) cs"

lemma create_need_pieces:
  assumes "create_need cs k = Inr need"
  shows "k + length (create_pieces i cs) + 9 * length cs \<le> need \<and>
         list_all (\<lambda>c. store_ident_ok (sc_name c) \<and> store_sql_type (sc_ty c) \<noteq> None) cs"
  using assms
proof (induction cs arbitrary: k i)
  case (Cons c cs)
  obtain t where t: "store_sql_type (sc_ty c) = Some t" "store_ident_ok (sc_name c)"
      "create_need cs (k + (length (sc_name c) + length t + 24)) = Inr need"
    using Cons.prems by (auto split: option.splits if_splits)
  from Cons.IH[OF t(3), of "Suc i"] show ?case
    using t by (auto simp: create_piece_def)
qed simp

lemma put_create_fits:
  "length b + length (create_pieces i cs) < need \<Longrightarrow>
     put_create need i cs (Some b) = Some (b @ create_pieces i cs)"
  by (induction cs arbitrary: i b) (simp_all add: sput_fits)

lemma create_sql_text:
  assumes "create_need (sd_cols s) (64 + length (sd_table s)) = Inr need"
  shows "create_sql need s = Some (''CREATE TABLE '' @ sd_table s @ ''('' @ create_pieces 0 (sd_cols s) @ '')'')"
  using create_need_pieces[OF assms, of 0] by (simp add: create_sql_def sput_fits put_create_fits)

section \<open>What a store operation touches\<close>

definition only_heap :: "GeasContract \<Rightarrow> GeasContract \<Rightarrow> bool" where
  "only_heap c c' \<longleftrightarrow>
     (\<exists>h. c' = c\<lparr>c_heap := h\<rparr> \<and> held_grows (owned (c_heap c)) (owned h))"

definition store_keeps :: "GeasContract \<Rightarrow> 'w \<Rightarrow> 'w store_result \<Rightarrow> bool" where
  "store_keeps c w res =
     (case res of (r, c', w') \<Rightarrow> only_heap c c' \<and> (c_store c = None \<longrightarrow> w' = w \<and> c' = c \<and> isl r))"

lemma only_heap_refl [simp]: "only_heap c c"
  unfolding only_heap_def by (intro exI[of _ "c_heap c"]) simp

lemma only_heap_trans: "only_heap a b \<Longrightarrow> only_heap b c \<Longrightarrow> only_heap a c"
  unfolding only_heap_def by (force intro: held_grows_trans)

lemma only_heap_store: "only_heap c c' \<Longrightarrow> c_store c' = c_store c"
  by (auto simp: only_heap_def)

lemma geas_bytes_grows: "geas_bytes M n h = (b, h') \<Longrightarrow> held_grows (owned h) (owned h')"
  by (auto simp: geas_bytes_def split: if_splits)

lemma only_heap_bytes: "geas_bytes M n (c_heap c) = (b, h) \<Longrightarrow> only_heap c (c\<lparr>c_heap := h\<rparr>)"
  unfolding only_heap_def using geas_bytes_grows by blast

lemma only_heap_mallocs: "plain_mallocs M n c = (b, c') \<Longrightarrow> only_heap c c'"
proof (induction n arbitrary: c b)
  case (Suc n)
  let ?c = "c\<lparr>c_heap := (c_heap c)\<lparr>mcalls := Suc (mcalls (c_heap c))\<rparr>\<rparr>"
  have "only_heap c ?c"
    unfolding only_heap_def by (intro exI[of _ "(c_heap c)\<lparr>mcalls := Suc (mcalls (c_heap c))\<rparr>"]) simp
  moreover obtain b' where "plain_mallocs M n ?c = (b', c')"
    using Suc.prems by (auto simp: Let_def split: prod.splits)
  ultimately show ?case
    using Suc.IH only_heap_trans by blast
qed simp

lemma only_heap_ok: "store_ok M c v = (r, c') \<Longrightarrow> only_heap c c'"
  by (auto simp: store_ok_def geas_box_def dest: only_heap_bytes split: prod.splits bool.splits)

lemma only_heap_box: "geas_box M (c_heap c) = (b, h) \<Longrightarrow> only_heap c (c\<lparr>c_heap := h\<rparr>)"
  by (simp add: geas_box_def only_heap_bytes)

lemma held_grows_map:
  assumes "held_grows (map f xs) (map f ys)" "inj f"
  shows "held_grows xs ys"
  using assms by (auto simp: held_grows_def map_eq_append_conv inj_map_eq_map)

lemma only_heap_query:
  assumes "instance_query S M c db sql params tys w = (r, c', w')"
  shows "only_heap c c'"
proof -
  obtain h where q: "geas_store_query S (instance_store_bytes M) db sql params tys (c_heap c) w = (r, h, w')"
      and c': "c' = c\<lparr>c_heap := h\<rparr>"
    using assms by (auto simp: instance_query_def split: prod.splits)
  have "held_grows (instance_held (c_heap c)) (instance_held h)"
    using q instance_hook.query_held[of S M db sql params tys "c_heap c" w]
      instance_hook.query_held_error[of S M db sql params tys "c_heap c" w]
    by (cases r) auto
  then have "held_grows (owned (c_heap c)) (owned h)"
    unfolding instance_held_def by (rule held_grows_map) (simp add: inj_def)
  then show ?thesis
    by (auto simp: only_heap_def c')
qed

lemma only_heap_scratch: "scratch_query S M c db sql params tys w = (r, c', w') \<Longrightarrow> only_heap c c'"
  unfolding scratch_query_def only_heap_def
  by (auto split: prod.splits intro!: exI[of _ "(c_heap c)\<lparr>mcalls := mcalls (scratch_store_free _)\<rparr>"])

lemma only_heap_copy: "geas_value_deep_copy M v (c_heap c) = (r, h) \<Longrightarrow> only_heap c (c\<lparr>c_heap := h\<rparr>)"
  using deep_copy_outcome(1)[of M v "c_heap c"]
  by (auto simp: copy_outcome_def heap_grows_def only_heap_def held_grows_def)

lemma only_heap_copy_on:
  "only_heap c (c\<lparr>c_heap := h\<rparr>) \<Longrightarrow> geas_value_deep_copy M v h = (r, h') \<Longrightarrow> only_heap c (c\<lparr>c_heap := h'\<rparr>)"
  using only_heap_copy[of M v "c\<lparr>c_heap := h\<rparr>" r h'] only_heap_trans by fastforce

lemma only_heap_extreme: "agg_extreme M c ty rows = (r, c') \<Longrightarrow> only_heap c c'"
  unfolding agg_extreme_def
  by (auto split: GeasValue.splits ArrKind.splits if_splits option.splits prod.splits bool.splits sum.splits
      dest!: only_heap_box only_heap_ok) (blast intro: only_heap_trans only_heap_copy_on)+

lemma only_heap_avg: "agg_avg M c ty rows = (r, c') \<Longrightarrow> only_heap c c'"
  unfolding agg_avg_def
  by (auto split: if_splits option.splits prod.splits bool.splits list.splits
      dest!: only_heap_box only_heap_ok intro: only_heap_trans)

lemma only_heap_snd:
  "only_heap c a \<Longrightarrow> only_heap c (snd (store_ok M a v))"
  "only_heap c a \<Longrightarrow> only_heap c (snd (agg_extreme M a ty v))"
  "only_heap c a \<Longrightarrow> only_heap c (snd (agg_avg M a ty v))"
  by (metis only_heap_trans only_heap_ok only_heap_extreme only_heap_avg prod.collapse)+

lemmas only_heap_steps = only_heap_box only_heap_query only_heap_scratch only_heap_mallocs

lemma store_keepsI:
  "only_heap c (fst (snd res)) \<Longrightarrow> (c_store c = None \<Longrightarrow> snd (snd res) = w \<and> fst (snd res) = c \<and> isl (fst res)) \<Longrightarrow>
     store_keeps c w res"
  by (cases res) (simp add: store_keeps_def)

lemma store_keeps_refuse [simp]: "store_keeps c w (Inl st, c, w)"
  by (simp add: store_keeps_def)

lemma query_rows_keeps [simp]: "store_keeps c w (query_rows S M n c s sql ps w)"
proof (rule store_keepsI)
  show "only_heap c (fst (snd (query_rows S M n c s sql ps w)))"
    unfolding query_rows_def deliver_def
    by (auto split: option.splits prod.splits bool.splits sum.splits
        dest!: only_heap_steps intro: only_heap_trans only_heap_snd)
qed (simp add: query_rows_def)

lemma query_number_keeps [simp]: "store_keeps c w (query_number S M c sql ty ps w)"
proof (rule store_keepsI)
  show "only_heap c (fst (snd (query_number S M c sql ty ps w)))"
    unfolding query_number_def deliver_def
    by (auto split: option.splits prod.splits bool.splits sum.splits
        dest!: only_heap_steps intro: only_heap_trans only_heap_snd)
qed (simp add: query_number_def)

lemma exec_unit_keeps [simp]: "store_keeps c w (exec_unit S M n c sql ps w)"
proof (rule store_keepsI)
  show "only_heap c (fst (snd (exec_unit S M n c sql ps w)))"
    unfolding exec_unit_def deliver_def store_ok_unit_def
    by (auto split: option.splits prod.splits bool.splits sum.splits
        dest!: only_heap_steps intro: only_heap_trans only_heap_snd)
qed (simp add: exec_unit_def)

lemma find_keeps: "store_keeps c w (geas_store_find S M c s key w)"
proof (rule store_keepsI)
  show "only_heap c (fst (snd (geas_store_find S M c s key w)))"
    unfolding geas_store_find_def deliver_def
    by (auto split: option.splits if_splits prod.splits bool.splits sum.splits GeasValue.splits
          ArrKind.splits GeasList.splits list.splits
        dest!: only_heap_steps intro: only_heap_trans only_heap_snd)
qed (simp add: geas_store_find_def)

lemma agg_any_keeps: "store_keeps c w (geas_store_agg_any S M c s agg col ts gs w)"
proof (rule store_keepsI)
  show "only_heap c (fst (snd (geas_store_agg_any S M c s agg col ts gs w)))"
    unfolding geas_store_agg_any_def deliver_def Let_def
    by (auto split: option.splits if_splits prod.splits bool.splits sum.splits
        dest!: only_heap_steps intro: only_heap_trans only_heap_snd)
qed (auto simp: geas_store_agg_any_def Let_def split: option.splits)

end
