(* ===== verification/Geas_Report.thy ===== *)
theory Geas_Report
  imports Geas_Policy
begin

text \<open>
  The partial result as a value of the language: a record of the state name and the three lists of
  item names, built on the heap of an owner instance.
\<close>

definition geas_state_name :: "GeasContractState \<Rightarrow> string" where
  "geas_state_name s =
     (case s of
        GEAS_UNSIGNED \<Rightarrow> ''Unsigned''
      | GEAS_SIGNED \<Rightarrow> ''Signed''
      | GEAS_FULFILLED \<Rightarrow> ''Fulfilled''
      | GEAS_PARTIAL \<Rightarrow> ''Partial''
      | GEAS_BROKEN \<Rightarrow> ''Broken'')"

definition string_bytes :: "string \<Rightarrow> bytes" where
  "string_bytes z = map (\<lambda>c. of_nat (of_char c)) z"

definition geas_state_value :: "GeasContract \<Rightarrow> GeasValue" where
  "geas_state_value c = VString 0 (SBytes (string_bytes (geas_state_name (c_state c))))"

text \<open>The loop over the names of one state from index \<open>i\<close>, \<open>n\<close> of them.\<close>

fun copy_names ::
    "malloc \<Rightarrow> GeasContract \<Rightarrow> GeasItemState \<Rightarrow> nat \<Rightarrow> nat \<Rightarrow> heap \<Rightarrow> (GeasStatus + GeasValue list) \<times> heap" where
  "copy_names M c k i 0 h = (Inr [], h)"
| "copy_names M c k i (Suc n) h =
     (case snd (partial_scan c k i) of
        None \<Rightarrow> (Inl GEAS_ERR_NAME, h)
      | Some name \<Rightarrow>
          (case geas_string_copy M (string_bytes name) h of
             (s, h) \<Rightarrow>
               if s = VString 0 (SNull 0) \<and> name \<noteq> [] then (Inl GEAS_ERR_OOM, h)
               else (case copy_names M c k (Suc i) n h of
                   (Inl st, h) \<Rightarrow> (Inl st, h)
                 | (Inr vs, h) \<Rightarrow> (Inr (s # vs), h))))"

definition partial_names_value ::
    "malloc \<Rightarrow> GeasContract \<Rightarrow> GeasItemState \<Rightarrow> heap \<Rightarrow> (GeasStatus + GeasValue) \<times> heap" where
  "partial_names_value M c k h =
     (let n = fst (partial_scan c k 0) in
      if n = 0 then (Inr (VArr KList 0 (LNull 0 0 (ty_num GEAS_TY_STRING))), h)
      else (case geas_bytes M (of_nat n * SIZEOF_VALUE) h of
          (False, h) \<Rightarrow> (Inl GEAS_ERR_OOM, h)
        | (True, h) \<Rightarrow>
            (case copy_names M c k 0 n h of
               (Inl st, h) \<Rightarrow> (Inl st, h)
             | (Inr vs, h) \<Rightarrow> (Inr (VArr KList 0 (LData vs (of_nat n) (ty_num GEAS_TY_STRING))), h))))"

definition geas_partial_value ::
    "malloc \<Rightarrow> GeasContract \<Rightarrow> heap \<Rightarrow> (GeasStatus + GeasValue) \<times> heap" where
  "geas_partial_value M c h =
     (case geas_bytes M (4 * SIZEOF_VALUE) h of
        (False, h) \<Rightarrow> (Inl GEAS_ERR_OOM, h)
      | (True, h) \<Rightarrow>
          (case partial_names_value M c GEAS_ITEM_FULFILLED h of
             (Inl st, h) \<Rightarrow> (Inl st, h)
           | (Inr ful, h) \<Rightarrow>
               (case partial_names_value M c GEAS_ITEM_PENDING h of
                  (Inl st, h) \<Rightarrow> (Inl st, h)
                | (Inr pend, h) \<Rightarrow>
                    (case partial_names_value M c GEAS_ITEM_BROKEN h of
                       (Inl st, h) \<Rightarrow> (Inl st, h)
                     | (Inr brk, h) \<Rightarrow>
                         (Inr (VArr KRecord 0 (LData [geas_state_value c, ful, pend, brk] 4 0)), h)))))"

end
