(* ===== verification/Geas_Sign.thy ===== *)
theory Geas_Sign
  imports Geas_Store_Ops Geas_Iname
begin

text \<open>
  The parts of \<^verbatim>\<open>runtime.c\<close> that build and take down one contract instance: resolving the descriptor
  and the dispatch table, binding vows, opening the store, the argument frame with its references,
  the transaction around a pledge, and the reclaim.  Pointer identity of a pledge descriptor is the
  name of its contract (unique in the registry) with its index.
\<close>

section \<open>Descriptors and bindings\<close>

definition find_desc :: "registry \<Rightarrow> string \<Rightarrow> GeasContractDesc option" where
  "find_desc rt name = find (\<lambda>d. strcmp (cd_name d) name = 0) (descs rt)"

fun find_index :: "('a \<Rightarrow> bool) \<Rightarrow> nat \<Rightarrow> 'a list \<Rightarrow> nat option" where
  "find_index P i [] = None"
| "find_index P i (x # xs) = (if P x then Some i else find_index P (Suc i) xs)"

definition find_vow_desc :: "GeasContractDesc \<Rightarrow> string \<Rightarrow> nat option" where
  "find_vow_desc d name = find_index (\<lambda>v. strcmp (vd_name v) name = 0) 0 (cd_vows d)"

definition find_pledge :: "GeasContractDesc \<Rightarrow> string \<Rightarrow> nat option" where
  "find_pledge d name = find_index (\<lambda>p. strcmp (pd_name p) name = 0) 0 (cd_pledges d)"

type_synonym pledge_ptr = "string \<times> nat"

type_synonym GeasBinding = "pledge_ptr \<times> fn_addr"

definition GEAS_MAX_BINDINGS :: nat where
  "GEAS_MAX_BINDINGS = 128"

definition GEAS_MAX_INSTANCES :: nat where
  "GEAS_MAX_INSTANCES = 256"

definition find_binding :: "GeasBinding list \<Rightarrow> pledge_ptr \<Rightarrow> fn_addr option" where
  "find_binding bs pd = map_option snd (find (\<lambda>b. fst b = pd) bs)"

text \<open>\<^verbatim>\<open>Contract.pledge\<close>, or a mangled symbol.\<close>

definition split_dot :: "string \<Rightarrow> (string \<times> string) option" where
  "split_dot name =
     (case dropWhile (\<lambda>c. c \<noteq> CHR ''.'') name of
        [] \<Rightarrow> None
      | dot # rest \<Rightarrow>
          if takeWhile (\<lambda>c. c \<noteq> CHR ''.'') name = [] \<or> rest = [] then None
          else Some (takeWhile (\<lambda>c. c \<noteq> CHR ''.'') name, rest))"

fun find_mangled :: "GeasContractDesc list \<Rightarrow> string \<Rightarrow> pledge_ptr option" where
  "find_mangled [] name = None"
| "find_mangled (d # ds) name =
     (case find_index (\<lambda>p. case pd_mangled p of None \<Rightarrow> False | Some m \<Rightarrow> strcmp m name = 0) 0 (cd_pledges d) of
        Some j \<Rightarrow> Some (cd_name d, j)
      | None \<Rightarrow> find_mangled ds name)"

definition resolve_pledge_name :: "registry \<Rightarrow> string \<Rightarrow> pledge_ptr option" where
  "resolve_pledge_name rt name =
     (case split_dot name of
        Some (cname, pname) \<Rightarrow>
          (case find_desc rt cname of
             None \<Rightarrow> None
           | Some d \<Rightarrow> map_option (\<lambda>j. (cd_name d, j)) (find_pledge d pname))
      | None \<Rightarrow> find_mangled (descs rt) name)"

fun rebind :: "GeasBinding list \<Rightarrow> pledge_ptr \<Rightarrow> fn_addr \<Rightarrow> GeasBinding list option" where
  "rebind [] pd f = None"
| "rebind (b # bs) pd f =
     (if fst b = pd then Some ((pd, f) # bs) else map_option (\<lambda>bs. b # bs) (rebind bs pd f))"

definition geas_pledge_bind ::
    "registry \<Rightarrow> GeasBinding list \<Rightarrow> string \<Rightarrow> fn_addr \<Rightarrow> GeasStatus \<times> GeasBinding list" where
  "geas_pledge_bind rt bs name f =
     (if frozen rt then (GEAS_ERR_STATE, bs)
      else case resolve_pledge_name rt name of
        None \<Rightarrow> (GEAS_ERR_NAME, bs)
      | Some pd \<Rightarrow>
          (case rebind bs pd f of
             Some bs' \<Rightarrow> (GEAS_OK, bs')
           | None \<Rightarrow>
               if length bs = GEAS_MAX_BINDINGS then (GEAS_ERR_OOM, bs) else (GEAS_OK, bs @ [(pd, f)])))"

text \<open>The dispatch table: the host binding beats the compiled body.\<close>

fun resolve_fns :: "GeasBinding list \<Rightarrow> string \<Rightarrow> nat \<Rightarrow> GeasPledgeDesc list \<Rightarrow> fn_addr list option" where
  "resolve_fns bs cname i [] = Some []"
| "resolve_fns bs cname i (p # ps) =
     (case (case find_binding bs (cname, i) of Some f \<Rightarrow> Some f | None \<Rightarrow> pd_fn p) of
        None \<Rightarrow> None
      | Some f \<Rightarrow> map_option (\<lambda>fs. f # fs) (resolve_fns bs cname (Suc i) ps))"

definition resolve_dispatch ::
    "bool \<Rightarrow> GeasBinding list \<Rightarrow> GeasContractDesc \<Rightarrow> GeasStatus + fn_addr list" where
  "resolve_dispatch calloc_ok bs d =
     (if cd_pledges d = [] then Inr []
      else if \<not> calloc_ok then Inl GEAS_ERR_OOM
      else case resolve_fns bs (cd_name d) 0 (cd_pledges d) of
        None \<Rightarrow> Inl GEAS_ERR_UNBOUND
      | Some fns \<Rightarrow> Inr fns)"

section \<open>Vows\<close>

definition copy_vow_value :: "malloc \<Rightarrow> GeasValue \<Rightarrow> heap \<Rightarrow> (GeasStatus + GeasValue) \<times> heap" where
  "copy_vow_value M src h =
     (if gv_ty src = ty_num GEAS_TY_INSTANCE then (Inl GEAS_ERR_TYPE, h)
      else geas_value_deep_copy M src h)"

text \<open>The two loops of \<^verbatim>\<open>bind_vows\<close>: the overrides, with the slots they bound, and the defaults.\<close>

fun bind_overrides ::
    "malloc \<Rightarrow> GeasContractDesc \<Rightarrow> GeasVowBinding list \<Rightarrow> GeasValue list \<Rightarrow> nat list \<Rightarrow> heap \<Rightarrow>
     (GeasStatus + GeasValue list \<times> nat list) \<times> heap" where
  "bind_overrides M d [] vals bound h = (Inr (vals, bound), h)"
| "bind_overrides M d (b # bs) vals bound h =
     (case find_vow_desc d (vb_name b) of
        None \<Rightarrow> (Inl GEAS_ERR_NAME, h)
      | Some slot \<Rightarrow>
          if gv_ty (vb_value b) \<noteq> vd_ty (cd_vows d ! slot) then (Inl GEAS_ERR_TYPE, h)
          else (case copy_vow_value M (vb_value b) h of
              (Inl st, h) \<Rightarrow> (Inl st, h)
            | (Inr v, h) \<Rightarrow> bind_overrides M d bs (vals[slot := v]) (slot # bound) h))"

fun bind_defaults ::
    "malloc \<Rightarrow> nat \<Rightarrow> GeasVowDesc list \<Rightarrow> GeasValue list \<Rightarrow> nat list \<Rightarrow> heap \<Rightarrow>
     (GeasStatus + GeasValue list) \<times> heap" where
  "bind_defaults M j [] vals bound h = (Inr vals, h)"
| "bind_defaults M j (v # vs) vals bound h =
     (if j \<in> set bound then bind_defaults M (Suc j) vs vals bound h
      else if \<not> vd_has_default v then (Inl GEAS_ERR_UNBOUND, h)
      else (case copy_vow_value M (vd_default_value v) h of
          (Inl st, h) \<Rightarrow> (Inl st, h)
        | (Inr x, h) \<Rightarrow> bind_defaults M (Suc j) vs (vals[j := x]) bound h))"

definition bind_vows :: "malloc \<Rightarrow> GeasContract \<Rightarrow> GeasVowBinding list \<Rightarrow> GeasStatus \<times> GeasContract" where
  "bind_vows M c vows =
     (let d = c_desc c; n = length (cd_vows d) in
      if n = 0 then (if vows = [] then GEAS_OK else GEAS_ERR_NAME, c)
      else (case geas_bytes M (of_nat n * SIZEOF_VALUE) (c_heap c) of
          (False, h) \<Rightarrow> (GEAS_ERR_OOM, c\<lparr>c_heap := h\<rparr>)
        | (True, h) \<Rightarrow>
            let zeros = replicate n gv_zero in
            if GEAS_MAX_CONTRACT_TYPES < n then (GEAS_ERR_OOM, c\<lparr>c_heap := h, c_vow_vals := Some zeros\<rparr>)
            else (case bind_overrides M d vows zeros [] h of
                (Inl st, h) \<Rightarrow> (st, c\<lparr>c_heap := h, c_vow_vals := Some zeros\<rparr>)
              | (Inr (vals, bound), h) \<Rightarrow>
                  (case bind_defaults M 0 (cd_vows d) vals bound h of
                     (Inl st, h) \<Rightarrow> (st, c\<lparr>c_heap := h, c_vow_vals := Some vals\<rparr>)
                   | (Inr vals, h) \<Rightarrow> (GEAS_OK, c\<lparr>c_heap := h, c_vow_vals := Some vals\<rparr>)))))"

definition geas_vow_ref :: "GeasContract \<Rightarrow> string \<Rightarrow> GeasValue option" where
  "geas_vow_ref c name =
     (case c_vow_vals c of
        None \<Rightarrow> None
      | Some vals \<Rightarrow> map_option (\<lambda>i. vals ! i) (find_vow_desc (c_desc c) name))"

section \<open>The store side of sign\<close>

text \<open>The bytes of a string as a C string: up to the first NUL.\<close>

definition cstr :: "bytes \<Rightarrow> string" where
  "cstr bs = map (\<lambda>b. char_of (unat b)) (takeWhile (\<lambda>b. b \<noteq> 0) bs)"

fun reconcile_all :: "'w sqlite \<Rightarrow> conn \<Rightarrow> GeasSchemaDesc list \<Rightarrow> 'w \<Rightarrow> GeasStatus \<times> 'w" where
  "reconcile_all S db [] w = (GEAS_OK, w)"
| "reconcile_all S db (s # ss) w =
     (case geas_store_reconcile S db s w of
        (st, w) \<Rightarrow> if st \<noteq> GEAS_OK then (st, geas_store_close S db w) else reconcile_all S db ss w)"

definition store_sign_reconcile ::
    "'w sqlite \<Rightarrow> malloc \<Rightarrow> GeasContract \<Rightarrow> 'w \<Rightarrow> GeasStatus \<times> GeasContract \<times> 'w" where
  "store_sign_reconcile S M c w =
     (if cd_schemas (c_desc c) = [] then (GEAS_OK, c, w)
      else case find_index (\<lambda>v. strcmp (vd_name v) ''dsn'' = 0) 0 (cd_vows (c_desc c)) of
        None \<Rightarrow> (GEAS_ERR_UNBOUND, c, w)
      | Some slot \<Rightarrow>
          (case c_vow_vals c of
             None \<Rightarrow> (GEAS_ERR_UNBOUND, c, w)
           | Some vals \<Rightarrow>
               (case vals ! slot of
                  VString g s \<Rightarrow>
                    (case plain_mallocs M 1 c of
                       (False, c) \<Rightarrow> (GEAS_ERR_OOM, c, w)
                     | (True, c) \<Rightarrow>
                         (case geas_store_open S (cstr (str_bytes s)) w of
                            (Inl st, w) \<Rightarrow> (st, c, w)
                          | (Inr db, w) \<Rightarrow>
                              (case reconcile_all S db (cd_schemas (c_desc c)) w of
                                 (st, w) \<Rightarrow>
                                   if st \<noteq> GEAS_OK then (st, c, w)
                                   else (GEAS_OK, c\<lparr>c_store := Some db\<rparr>, w))))
                | _ \<Rightarrow> (GEAS_ERR_UNBOUND, c, w))))"

section \<open>Building an instance\<close>

definition fresh_contract :: "GeasContractDesc \<Rightarrow> GeasContract" where
  "fresh_contract d = \<lparr>c_desc = d, c_state = GEAS_UNSIGNED, c_heap = \<lparr>owned = [], mcalls = 0\<rparr>,
     c_vow_vals = None, c_fns = None, c_futures = [], c_shape_hash = 0, c_signed_at = 0,
     c_pledge_state = None, c_pledge_err = None, c_sub_txn = None, c_store = None\<rparr>"

definition contract_free_owned :: "GeasContract \<Rightarrow> GeasContract" where
  "contract_free_owned c =
     c\<lparr>c_heap := (c_heap c)\<lparr>owned := []\<rparr>, c_vow_vals := None, c_fns := None\<rparr>"

text \<open>The dispatch table moves onto the instance; the latches and the transaction slots are plain heap.\<close>

definition sign_fns :: "malloc \<Rightarrow> GeasContract \<Rightarrow> fn_addr list \<Rightarrow> GeasStatus \<times> GeasContract" where
  "sign_fns M c fns =
     (if cd_pledges (c_desc c) = [] then (GEAS_OK, c)
      else (case geas_bytes M (of_nat (length (cd_pledges (c_desc c))) * 8) (c_heap c) of
          (False, h) \<Rightarrow> (GEAS_ERR_OOM, c\<lparr>c_heap := h\<rparr>)
        | (True, h) \<Rightarrow> (GEAS_OK, c\<lparr>c_heap := h, c_fns := Some fns\<rparr>)))"

definition sign_latches :: "malloc \<Rightarrow> GeasContract \<Rightarrow> GeasStatus \<times> GeasContract" where
  "sign_latches M c =
     (let n = length (cd_pledges (c_desc c)) in
      if n = 0 then (GEAS_OK, c)
      else (case plain_mallocs M 2 c of
          (False, c) \<Rightarrow> (GEAS_ERR_OOM, c)
        | (True, c) \<Rightarrow>
            (GEAS_OK, c\<lparr>c_pledge_state := Some (replicate n PLEDGE_PENDING),
                        c_pledge_err := Some (replicate n gv_zero)\<rparr>)))"

definition sign_txn :: "malloc \<Rightarrow> GeasContract \<Rightarrow> GeasStatus \<times> GeasContract" where
  "sign_txn M c =
     (let n = length (cd_subs (c_desc c)) in
      if n = 0 then (GEAS_OK, c)
      else (case plain_mallocs M 1 c of
          (False, c) \<Rightarrow> (GEAS_ERR_OOM, c)
        | (True, c) \<Rightarrow> (GEAS_OK, c\<lparr>c_sub_txn := Some (replicate n TXN_NONE)\<rparr>)))"

text \<open>Phase two of sign: everything between the resolved dispatch table and the publication.\<close>

definition sign_build ::
    "'w sqlite \<Rightarrow> malloc \<Rightarrow> u64 \<Rightarrow> GeasContractDesc \<Rightarrow> fn_addr list \<Rightarrow> GeasVowBinding list \<Rightarrow> 'w \<Rightarrow>
     GeasStatus \<times> GeasContract \<times> 'w" where
  "sign_build S M now d fns vows w =
     (case sign_fns M (fresh_contract d) fns of (st, c) \<Rightarrow>
      if st \<noteq> GEAS_OK then (st, c, w) else
      case bind_vows M c vows of (st, c) \<Rightarrow>
      if st \<noteq> GEAS_OK then (st, c, w) else
      case sign_latches M c of (st, c) \<Rightarrow>
      if st \<noteq> GEAS_OK then (st, c, w) else
      case sign_txn M c of (st, c) \<Rightarrow>
      if st \<noteq> GEAS_OK then (st, c, w) else
      case store_sign_reconcile S M c w of (st, c, w) \<Rightarrow>
      if st \<noteq> GEAS_OK then (st, c, w) else
      (GEAS_OK, c\<lparr>c_state := GEAS_SIGNED, c_shape_hash := cd_shape_hash d, c_signed_at := now\<rparr>, w))"

definition geas_contract_state :: "GeasContract \<Rightarrow> GeasContractState" where
  "geas_contract_state c = c_state c"

definition geas_contract_hash :: "GeasContract \<Rightarrow> u64" where
  "geas_contract_hash c = c_shape_hash c"

definition geas_contract_signed_at :: "GeasContract \<Rightarrow> u64" where
  "geas_contract_signed_at c = c_signed_at c"

text \<open>The instance's own part of a break: the payloads are zeroed, the connection is rolled back and
  closed, then the heap goes.\<close>

definition break_contract :: "'w sqlite \<Rightarrow> GeasContract \<Rightarrow> 'w \<Rightarrow> GeasContract \<times> 'w" where
  "break_contract S c w =
     (let c1 = c\<lparr>c_pledge_err := map_option (map (\<lambda>_. gv_zero)) (c_pledge_err c)\<rparr>;
          w1 = (case c_store c of
                  None \<Rightarrow> w
                | Some db \<Rightarrow> geas_store_close S db (snd (geas_store_rollback S db w)));
          c2 = contract_free_owned (c1\<lparr>c_store := None\<rparr>)
      in (c2\<lparr>c_state := GEAS_BROKEN\<rparr>, w1))"

section \<open>References\<close>

text \<open>A host object a reference points at: its first eight bytes (little endian) and, for a string, the
  struct.\<close>

record hobj =
  ho_bits :: u64
  ho_str :: GeasString

record GeasRef =
  r_host :: "nat option"
  r_ty :: u32
  r_cap :: u64
  r_write_back :: "nat option"
  r_user :: nat

type_synonym hostmem = "nat \<Rightarrow> hobj"

definition ref_copy_in ::
    "malloc \<Rightarrow> hostmem \<Rightarrow> GeasRef \<Rightarrow> heap \<Rightarrow> (GeasStatus + GeasValue) \<times> heap" where
  "ref_copy_in M H r h =
     (case r_host r of
        None \<Rightarrow> (Inl GEAS_ERR_TYPE, h)
      | Some p \<Rightarrow>
          (case ty_cast (r_ty r) of
             Some GEAS_TY_INT \<Rightarrow> (Inr (VInt 0 (ho_bits (H p))), h)
           | Some GEAS_TY_UINT \<Rightarrow> (Inr (VUInt 0 (ho_bits (H p))), h)
           | Some GEAS_TY_FLOAT \<Rightarrow> (Inr (VFloat 0 (ho_bits (H p))), h)
           | Some GEAS_TY_BOOL \<Rightarrow> (Inr (VBool 0 (ucast (ho_bits (H p)))), h)
           | Some GEAS_TY_BYTE \<Rightarrow> (Inr (VByte 0 (ucast (ho_bits (H p)))), h)
           | Some GEAS_TY_CHAR \<Rightarrow> (Inr (VChar 0 (ucast (ho_bits (H p)))), h)
           | Some GEAS_TY_STRING \<Rightarrow>
               (case geas_string_copy M (str_bytes (ho_str (H p))) h of
                  (v, h) \<Rightarrow>
                    if str_len (ho_str (H p)) \<noteq> 0 \<and> v = VString 0 (SNull 0) then (Inl GEAS_ERR_OOM, h)
                    else (Inr v, h))
           | _ \<Rightarrow> (Inl GEAS_ERR_TYPE, h)))"

definition set_low8 :: "u64 \<Rightarrow> u8 \<Rightarrow> u64" where
  "set_low8 x b = (x AND 0xFFFFFFFFFFFFFF00) OR ucast b"

definition set_low32 :: "u64 \<Rightarrow> u32 \<Rightarrow> u64" where
  "set_low32 x c = (x AND 0xFFFFFFFF00000000) OR ucast c"

text \<open>What the default write back leaves in the host object.\<close>

fun write_obj :: "GeasValue \<Rightarrow> hobj \<Rightarrow> hobj option" where
  "write_obj (VInt g i) ob = Some (ob\<lparr>ho_bits := i\<rparr>)"
| "write_obj (VUInt g u) ob = Some (ob\<lparr>ho_bits := u\<rparr>)"
| "write_obj (VFloat g f) ob = Some (ob\<lparr>ho_bits := f\<rparr>)"
| "write_obj (VBool g b) ob = Some (ob\<lparr>ho_bits := set_low8 (ho_bits ob) b\<rparr>)"
| "write_obj (VByte g b) ob = Some (ob\<lparr>ho_bits := set_low8 (ho_bits ob) b\<rparr>)"
| "write_obj (VChar g c) ob = Some (ob\<lparr>ho_bits := set_low32 (ho_bits ob) c\<rparr>)"
| "write_obj (VString g s) ob = Some (ob\<lparr>ho_str := s\<rparr>)"
| "write_obj v ob = None"

text \<open>A callback is external code: it may do anything to host memory.  Without one the C code writes
  through \<^verbatim>\<open>host_ptr\<close>; a NULL there was refused when the frame was prepared.\<close>

type_synonym write_back_fn = "nat \<Rightarrow> nat option \<Rightarrow> GeasValue \<Rightarrow> nat \<Rightarrow> hostmem \<Rightarrow> hostmem"

definition ref_write_back ::
    "write_back_fn \<Rightarrow> GeasRef \<Rightarrow> GeasValue \<Rightarrow> hostmem \<Rightarrow> GeasStatus \<times> hostmem" where
  "ref_write_back WB r slot H =
     (if gv_ty slot \<noteq> r_ty r then (GEAS_ERR_TYPE, H)
      else case r_write_back r of
        Some cb \<Rightarrow> (GEAS_OK, WB cb (r_host r) slot (r_user r) H)
      | None \<Rightarrow>
          (case r_host r of
             None \<Rightarrow> (GEAS_ERR_TYPE, H)
           | Some p \<Rightarrow>
               (case write_obj slot (H p) of
                  None \<Rightarrow> (GEAS_ERR_TYPE, H)
                | Some ob \<Rightarrow> (GEAS_OK, H(p := ob)))))"

fun write_back_loop ::
    "write_back_fn \<Rightarrow> GeasRef list \<Rightarrow> GeasValue list \<Rightarrow> hostmem \<Rightarrow> GeasStatus \<times> hostmem" where
  "write_back_loop WB (r # rs) (s # ss) H =
     (case ref_write_back WB r s H of
        (st, H) \<Rightarrow> if st \<noteq> GEAS_OK then (st, H) else write_back_loop WB rs ss H)"
| "write_back_loop WB rs ss H = (GEAS_OK, H)"

definition write_back_refs ::
    "write_back_fn \<Rightarrow> GeasRef list \<Rightarrow> GeasValue list \<Rightarrow> hostmem \<Rightarrow> GeasStatus \<times> hostmem" where
  "write_back_refs WB refs slots H =
     (if \<not> list_all (\<lambda>(r, s). gv_ty s = r_ty r) (zip refs slots) then (GEAS_ERR_TYPE, H)
      else write_back_loop WB refs slots H)"

fun copy_refs ::
    "malloc \<Rightarrow> hostmem \<Rightarrow> GeasRef list \<Rightarrow> heap \<Rightarrow> (GeasStatus + GeasValue list) \<times> heap" where
  "copy_refs M H [] h = (Inr [], h)"
| "copy_refs M H (r # rs) h =
     (case ref_copy_in M H r h of
        (Inl st, h) \<Rightarrow> (Inl st, h)
      | (Inr v, h) \<Rightarrow>
          (case copy_refs M H rs h of
             (Inl st, h) \<Rightarrow> (Inl st, h)
           | (Inr vs, h) \<Rightarrow> (Inr (v # vs), h)))"

text \<open>The frame, a NULL frame for no parameters.\<close>

definition prepare_frame ::
    "malloc \<Rightarrow> hostmem \<Rightarrow> GeasValue list \<Rightarrow> GeasRef list \<Rightarrow> heap \<Rightarrow>
     (GeasStatus + GeasValue list option) \<times> heap" where
  "prepare_frame M H args refs h =
     (let n = length args + length refs in
      if n = 0 then (Inr None, h)
      else (case geas_bytes M (of_nat n * SIZEOF_VALUE) h of
          (False, h) \<Rightarrow> (Inl GEAS_ERR_OOM, h)
        | (True, h) \<Rightarrow>
            (case deep_copy_elems M args h of
               (Inl st, h) \<Rightarrow> (Inl st, h)
             | (Inr vs, h) \<Rightarrow>
                 (case copy_refs M H refs h of
                    (Inl st, h) \<Rightarrow> (Inl st, h)
                  | (Inr ss, h) \<Rightarrow> (Inr (Some (vs @ ss)), h)))))"

section \<open>Transactional subcontracts\<close>

definition pledge_txn_sub :: "GeasContractDesc \<Rightarrow> nat \<Rightarrow> nat option" where
  "pledge_txn_sub d pidx =
     (if length (cd_pledges d) \<le> pidx then None
      else
        let s = pd_sub (cd_pledges d ! pidx) in
        if s < 0 \<or> int (length (cd_subs d)) \<le> s then None
        else case cd_sub_flags d of
          None \<Rightarrow> None
        | Some fl \<Rightarrow> if fl ! nat s AND GEAS_SUB_TRANSACTIONAL = 0 then None else Some (nat s))"

definition txn_before :: "'w sqlite \<Rightarrow> GeasContract \<Rightarrow> nat \<Rightarrow> 'w \<Rightarrow> GeasStatus \<times> GeasContract \<times> 'w" where
  "txn_before S c pidx w =
     (case (pledge_txn_sub (c_desc c) pidx, c_sub_txn c, c_store c) of
        (Some s, Some ts, Some db) \<Rightarrow>
          if ts ! s = TXN_DONE then (GEAS_ERR_STATE, c, w)
          else if ts ! s = TXN_NONE then
            (case geas_store_begin S db w of
               (st, w) \<Rightarrow>
                 if st \<noteq> GEAS_OK then (st, c, w)
                 else (GEAS_OK, c\<lparr>c_sub_txn := Some (ts[s := TXN_OPEN])\<rparr>, w))
          else (GEAS_OK, c, w)
      | _ \<Rightarrow> (GEAS_OK, c, w))"

definition txn_after ::
    "'w sqlite \<Rightarrow> GeasContract \<Rightarrow> nat \<Rightarrow> GeasStatus \<Rightarrow> GeasValue \<Rightarrow> 'w \<Rightarrow> GeasStatus \<times> GeasContract \<times> 'w" where
  "txn_after S c pidx st out w =
     (case (pledge_txn_sub (c_desc c) pidx, c_sub_txn c, c_store c) of
        (Some s, Some ts, Some db) \<Rightarrow>
          if ts ! s \<noteq> TXN_OPEN then (st, c, w)
          else
            let closed = c\<lparr>c_sub_txn := Some (ts[s := TXN_DONE])\<rparr> in
            if st \<noteq> GEAS_OK then (st, closed, snd (geas_store_rollback S db w))
            else if is_err out then (st, closed, snd (geas_store_rollback S db w))
            else if sub_all c s PLEDGE_FULFILLED then
              (case geas_store_commit S db w of
                 (cs, w) \<Rightarrow>
                   if cs \<noteq> GEAS_OK then (GEAS_ERR_STORE, closed, snd (geas_store_rollback S db w))
                   else (st, closed, w))
            else (st, c, w)
      | _ \<Rightarrow> (st, c, w))"

end
