(* ===== verification/Geas_System.thy ===== *)
theory Geas_System
  imports Geas_Sign
begin

text \<open>
  The runtime as a whole: instances, futures, the pool queue and the threads between two critical
  sections.  Every critical section of \<^verbatim>\<open>runtime.c\<close> (under the runtime lock, an instance lock, a
  future's lock or the queue lock) is one function on the system state, and \<open>api\<close> is the relation
  of all of them, in any order.  A pledge body is external code: the definitions that run it take it
  as the parameter \<open>T\<close>, and \<open>api\<close> lets it do anything a sequence of API calls can do.  Instances and
  futures have numbers for addresses, taken in order, so a freed address is never reused.
\<close>

section \<open>State\<close>

record GeasFuture =
  f_c :: nat
  f_fn :: fn_addr
  f_pidx :: nat
  f_frame :: "GeasValue list option"
  f_status :: GeasStatus
  f_done :: bool
  f_waited :: bool
  f_value :: GeasValue
  f_refs :: "GeasRef list"
  f_slots :: "nat option"
  f_refcnt :: nat

text \<open>The points where a thread stands between two critical sections of a fulfillment: a future exists
  and its call is still to be validated, it is validated and still to be queued, a worker has taken
  it, is running it, or has run it and still holds it.\<close>

datatype thread =
    TPrepare nat string "GeasValue list" "GeasRef list"
  | TEnqueue nat
  | TRun nat
  | TRunning nat
  | TDrop nat

record 'w sys =
  s_reg :: registry
  s_bindings :: "GeasBinding list"
  s_instances :: "nat list"
  s_con :: "nat \<Rightarrow> GeasContract option"
  s_fut :: "nat \<Rightarrow> GeasFuture option"
  s_queue :: "nat list"
  s_qstop :: bool
  s_nworkers :: nat
  s_threads :: "thread list"
  s_next :: nat
  s_calls :: nat
  s_host :: hostmem
  s_world :: 'w

text \<open>A thread that stood at \<open>t\<close> moves on.\<close>

definition swap_thread :: "thread \<Rightarrow> thread list \<Rightarrow> 'w sys \<Rightarrow> 'w sys" where
  "swap_thread t ts s = s\<lparr>s_threads := ts @ remove1 t (s_threads s)\<rparr>"

text \<open>What the runtime gets from its environment: allocation outcomes, SQLite, host callbacks, the clock.\<close>

record 'w env =
  e_malloc :: "nat \<Rightarrow> malloc"
  e_alloc :: malloc
  e_sqlite :: "'w sqlite"
  e_write_back :: write_back_fn
  e_time :: "nat \<Rightarrow> u64"

definition set_con :: "nat \<Rightarrow> GeasContract \<Rightarrow> 'w sys \<Rightarrow> 'w sys" where
  "set_con i c s = s\<lparr>s_con := (s_con s)(i \<mapsto> c)\<rparr>"

definition set_fut :: "nat \<Rightarrow> GeasFuture \<Rightarrow> 'w sys \<Rightarrow> 'w sys" where
  "set_fut i f s = s\<lparr>s_fut := (s_fut s)(i \<mapsto> f)\<rparr>"

text \<open>One allocation (or lock initialisation) of the runtime itself.\<close>

definition sys_alloc :: "'w env \<Rightarrow> 'w sys \<Rightarrow> bool \<times> 'w sys" where
  "sys_alloc E s = (e_alloc E (s_calls s), s\<lparr>s_calls := Suc (s_calls s)\<rparr>)"

section \<open>Futures\<close>

definition future_free :: "nat \<Rightarrow> 'w sys \<Rightarrow> 'w sys" where
  "future_free fid s = s\<lparr>s_fut := (s_fut s)(fid := None)\<rparr>"

definition fresh_future :: "nat \<Rightarrow> GeasFuture" where
  "fresh_future i = \<lparr>f_c = i, f_fn = 0, f_pidx = 0, f_frame = None, f_status = GEAS_OK, f_done = False,
     f_waited = False, f_value = gv_zero, f_refs = [], f_slots = None, f_refcnt = 1\<rparr>"

definition future_new :: "'w env \<Rightarrow> nat \<Rightarrow> 'w sys \<Rightarrow> nat option \<times> 'w sys" where
  "future_new E i s =
     (case sys_alloc E s of
        (False, s) \<Rightarrow> (None, s)
      | (True, s) \<Rightarrow>
          (case sys_alloc E s of
             (False, s) \<Rightarrow> (None, s)
           | (True, s) \<Rightarrow>
               (case sys_alloc E s of
                  (False, s) \<Rightarrow> (None, s)
                | (True, s) \<Rightarrow>
                    let fid = s_next s; c = the (s_con s i) in
                    (Some fid,
                     set_con i (c\<lparr>c_futures := fid # c_futures c\<rparr>)
                       (set_fut fid (fresh_future i) (s\<lparr>s_next := Suc fid\<rparr>))))))"

definition future_unref :: "nat \<Rightarrow> 'w sys \<Rightarrow> 'w sys" where
  "future_unref fid s =
     (case s_fut s fid of
        None \<Rightarrow> s
      | Some f \<Rightarrow>
          let left = f_refcnt f - 1 in
          if left = 0 then future_free fid s else set_fut fid (f\<lparr>f_refcnt := left\<rparr>) s)"

definition finish :: "GeasStatus \<Rightarrow> GeasValue option \<Rightarrow> GeasFuture \<Rightarrow> GeasFuture" where
  "finish st val f =
     (if f_done f then f
      else f\<lparr>f_status := st, f_value := (case val of None \<Rightarrow> f_value f | Some v \<Rightarrow> v), f_done := True\<rparr>)"

definition future_finish :: "nat \<Rightarrow> GeasStatus \<Rightarrow> GeasValue option \<Rightarrow> 'w sys \<Rightarrow> 'w sys" where
  "future_finish fid st val s =
     (case s_fut s fid of None \<Rightarrow> s | Some f \<Rightarrow> set_fut fid (finish st val f) s)"

definition forfeit :: "GeasFuture \<Rightarrow> GeasFuture" where
  "forfeit f =
     (if f_waited f then f
      else f\<lparr>f_status := GEAS_ERR_STATE, f_value := gv_zero, f_frame := None, f_refs := [],
             f_slots := None, f_done := True\<rparr>)"

definition future_forfeit :: "nat \<Rightarrow> 'w sys \<Rightarrow> 'w sys" where
  "future_forfeit fid s =
     (case s_fut s fid of None \<Rightarrow> s | Some f \<Rightarrow> set_fut fid (forfeit f) s)"

definition future_release :: "nat \<Rightarrow> 'w sys \<Rightarrow> 'w sys" where
  "future_release fid s =
     (case s_fut s fid of
        None \<Rightarrow> s
      | Some f \<Rightarrow>
          (case s_con s (f_c f) of
             None \<Rightarrow> s
           | Some c \<Rightarrow> future_unref fid (set_con (f_c f) (c\<lparr>c_futures := remove1 fid (c_futures c)\<rparr>) s)))"

section \<open>The pool queue\<close>

definition pool_enqueue :: "nat \<Rightarrow> 'w sys \<Rightarrow> 'w sys" where
  "pool_enqueue fid s = s\<lparr>s_queue := s_queue s @ [fid]\<rparr>"

definition pool_dequeue :: "'w sys \<Rightarrow> (nat \<times> 'w sys) option" where
  "pool_dequeue s = (case s_queue s of [] \<Rightarrow> None | fid # q \<Rightarrow> Some (fid, s\<lparr>s_queue := q\<rparr>))"

section \<open>Running a pledge\<close>

type_synonym 'w thunk =
  "fn_addr \<Rightarrow> nat \<Rightarrow> GeasValue list option \<Rightarrow> 'w sys \<Rightarrow>
   GeasStatus \<times> GeasValue \<times> GeasValue list option \<times> 'w sys"

definition runnable :: "GeasContractState \<Rightarrow> bool" where
  "runnable st = (st = GEAS_SIGNED \<or> st = GEAS_PARTIAL \<or> st = GEAS_FULFILLED)"

text \<open>The latch and the policy after a thunk, when it returned at all.\<close>

definition latch_outcome :: "GeasStatus \<Rightarrow> nat \<Rightarrow> GeasValue \<Rightarrow> GeasContract \<Rightarrow> GeasContract" where
  "latch_outcome st pidx out c = (if st = GEAS_OK then eval_policy (latch_pledge c pidx out) else c)"

text \<open>The part a queued and an inline fulfillment share, under the instance lock: the transaction gate,
  the thunk, the latch with the policy, and the resolution of the transaction.  The result is the
  status, the outcome (none when the gate refused) and the frame.\<close>

definition run_body ::
    "'w env \<Rightarrow> 'w thunk \<Rightarrow> nat \<Rightarrow> fn_addr \<Rightarrow> nat \<Rightarrow> GeasValue list option \<Rightarrow> 'w sys \<Rightarrow>
     GeasStatus \<times> GeasValue option \<times> GeasValue list option \<times> 'w sys" where
  "run_body E T i fn pidx frame s =
     (case txn_before (e_sqlite E) (the (s_con s i)) pidx (s_world s) of
        (gate, c, w) \<Rightarrow>
          if gate \<noteq> GEAS_OK then (gate, None, frame, set_con i c (s\<lparr>s_world := w\<rparr>))
          else
            (case T fn i frame (set_con i c (s\<lparr>s_world := w\<rparr>)) of
               (st, out, frame', s1) \<Rightarrow>
                 (case txn_after (e_sqlite E) (latch_outcome st pidx out (the (s_con s1 i))) pidx st out
                         (s_world s1) of
                    (st', c3, w') \<Rightarrow> (st', Some out, frame', set_con i c3 (s1\<lparr>s_world := w'\<rparr>)))))"

definition set_frame :: "GeasValue list option \<Rightarrow> GeasFuture \<Rightarrow> GeasFuture" where
  "set_frame fr f = (if f_frame f = None then f else f\<lparr>f_frame := fr\<rparr>)"

definition run_task :: "'w env \<Rightarrow> 'w thunk \<Rightarrow> nat \<Rightarrow> 'w sys \<Rightarrow> 'w sys" where
  "run_task E T fid s =
     (case s_fut s fid of
        None \<Rightarrow> s
      | Some f \<Rightarrow>
          (case s_con s (f_c f) of
             None \<Rightarrow> s
           | Some c \<Rightarrow>
               if \<not> runnable (c_state c) then future_finish fid GEAS_ERR_STATE None s
               else
                 (case run_body E T (f_c f) (f_fn f) (f_pidx f) (f_frame f) s of
                    (st, val, frame', s1) \<Rightarrow>
                      (case s_fut s1 fid of
                         None \<Rightarrow> s1
                       | Some f1 \<Rightarrow> future_finish fid st val (set_fut fid (set_frame frame' f1) s1)))))"

section \<open>Fulfillment\<close>

text \<open>The checks of a call: its pledge, or the status.\<close>

definition fulfill_check :: "GeasContract \<Rightarrow> string \<Rightarrow> nat \<Rightarrow> nat \<Rightarrow> GeasStatus + nat" where
  "fulfill_check c name nargs nrefs =
     (if \<not> runnable (c_state c) then Inl GEAS_ERR_STATE
      else case find_pledge (c_desc c) name of
        None \<Rightarrow> Inl GEAS_ERR_NAME
      | Some p \<Rightarrow> if nargs + nrefs \<noteq> pd_nargs (cd_pledges (c_desc c) ! p) then Inl GEAS_ERR_TYPE else Inr p)"

definition SIZEOF_REF :: u64 where
  "SIZEOF_REF = 40"

text \<open>The critical section of \<^verbatim>\<open>geas_pledge_fulfill\<close> that validates and copies in: the status, and the
  heap and the future it leaves.\<close>

definition fulfill_prepare ::
    "malloc \<Rightarrow> hostmem \<Rightarrow> GeasContract \<Rightarrow> string \<Rightarrow> GeasValue list \<Rightarrow> GeasRef list \<Rightarrow> GeasFuture \<Rightarrow>
     GeasStatus \<times> heap \<times> GeasFuture" where
  "fulfill_prepare M H c name args refs f =
     (case fulfill_check c name (length args) (length refs) of
        Inl st \<Rightarrow> (st, c_heap c, f)
      | Inr p \<Rightarrow>
          (case (if refs = [] then (True, c_heap c)
                 else geas_bytes M (of_nat (length refs) * SIZEOF_REF) (c_heap c)) of
             (False, h) \<Rightarrow> (GEAS_ERR_OOM, h, f)
           | (True, h) \<Rightarrow>
               (case prepare_frame M H args refs h of
                  (Inl st, h) \<Rightarrow> (st, h, f\<lparr>f_refs := refs\<rparr>)
                | (Inr frame, h) \<Rightarrow>
                    (GEAS_OK, h,
                     f\<lparr>f_refs := refs, f_fn := the (c_fns c) ! p, f_pidx := p, f_frame := frame,
                       f_slots := (if refs \<noteq> [] \<and> frame \<noteq> None then Some (length args) else None)\<rparr>))))"

definition prepare_step ::
    "'w env \<Rightarrow> nat \<Rightarrow> string \<Rightarrow> GeasValue list \<Rightarrow> GeasRef list \<Rightarrow> 'w sys \<Rightarrow> GeasStatus \<times> 'w sys" where
  "prepare_step E fid name args refs s =
     (let f = the (s_fut s fid); i = f_c f; c = the (s_con s i) in
      case fulfill_prepare (e_malloc E i) (s_host s) c name args refs f of
        (st, h, f') \<Rightarrow>
          let s1 = set_fut fid f' (set_con i (c\<lparr>c_heap := h\<rparr>) s) in
          if st \<noteq> GEAS_OK then (st, future_finish fid st None s1) else (GEAS_OK, s1))"

definition enqueue_step :: "nat \<Rightarrow> 'w sys \<Rightarrow> 'w sys" where
  "enqueue_step fid s =
     (case s_fut s fid of
        None \<Rightarrow> s
      | Some f \<Rightarrow> pool_enqueue fid (set_fut fid (f\<lparr>f_refcnt := 2\<rparr>) s))"

text \<open>The whole call on one thread.\<close>

definition geas_pledge_fulfill ::
    "'w env \<Rightarrow> nat \<Rightarrow> string \<Rightarrow> GeasValue list \<Rightarrow> GeasRef list \<Rightarrow> 'w sys \<Rightarrow> nat option \<times> 'w sys" where
  "geas_pledge_fulfill E i name args refs s =
     (case future_new E i s of
        (None, s) \<Rightarrow> (None, s)
      | (Some fid, s) \<Rightarrow>
          (case prepare_step E fid name args refs s of
             (st, s) \<Rightarrow> if st \<noteq> GEAS_OK then (Some fid, s) else (Some fid, enqueue_step fid s)))"

text \<open>A wait; \<open>None\<close> while the outcome does not exist yet.  It yields the status and what it stored in
  \<^verbatim>\<open>*out\<close>, if it did.\<close>

definition deliver_refs :: "write_back_fn \<Rightarrow> GeasFuture \<Rightarrow> hostmem \<Rightarrow> GeasStatus \<times> hostmem" where
  "deliver_refs WB f H =
     (case (f_slots f, f_frame f) of
        (Some off, Some fr) \<Rightarrow>
          if f_status f = GEAS_OK \<and> f_refs f \<noteq> [] then write_back_refs WB (f_refs f) (drop off fr) H
          else (GEAS_OK, H)
      | _ \<Rightarrow> (GEAS_OK, H))"

definition geas_future_wait ::
    "'w env \<Rightarrow> nat \<Rightarrow> 'w sys \<Rightarrow> (GeasStatus \<times> GeasValue option \<times> 'w sys) option" where
  "geas_future_wait E fid s =
     (case s_fut s fid of
        None \<Rightarrow> None
      | Some f \<Rightarrow>
          if \<not> f_done f then None
          else if f_waited f then Some (GEAS_ERR_STATE, None, s)
          else
            (case deliver_refs (e_write_back E) f (s_host s) of
               (wb, H) \<Rightarrow>
                 let s1 = set_fut fid (f\<lparr>f_waited := True\<rparr>) (s\<lparr>s_host := H\<rparr>) in
                 if wb \<noteq> GEAS_OK then Some (wb, None, s1)
                 else Some (f_status f, Some (f_value f), s1)))"

definition fulfill_inline ::
    "'w env \<Rightarrow> 'w thunk \<Rightarrow> nat \<Rightarrow> string \<Rightarrow> GeasValue list \<Rightarrow> GeasRef list \<Rightarrow> 'w sys \<Rightarrow>
     GeasStatus \<times> GeasValue option \<times> 'w sys" where
  "fulfill_inline E T i name args refs s =
     (let c = the (s_con s i) in
      case fulfill_check c name (length args) (length refs) of
        Inl st \<Rightarrow> (st, None, s)
      | Inr p \<Rightarrow>
          (case prepare_frame (e_malloc E i) (s_host s) args refs (c_heap c) of
             (Inl st, h) \<Rightarrow> (st, None, set_con i (c\<lparr>c_heap := h\<rparr>) s)
           | (Inr frame, h) \<Rightarrow>
               (case run_body E T i (the (c_fns c) ! p) p frame (set_con i (c\<lparr>c_heap := h\<rparr>) s) of
                  (st, val, frame', s) \<Rightarrow>
                    if st \<noteq> GEAS_OK then (st, None, s)
                    else
                      (case (if refs = [] then None else frame') of
                         None \<Rightarrow> (GEAS_OK, val, s)
                       | Some fr \<Rightarrow>
                           (case write_back_refs (e_write_back E) refs (drop (length args) fr) (s_host s) of
                              (wb, H) \<Rightarrow>
                                if wb \<noteq> GEAS_OK then (wb, None, s\<lparr>s_host := H\<rparr>)
                                else (GEAS_OK, val, s\<lparr>s_host := H\<rparr>))))))"

section \<open>The worker loop and the synchronous call\<close>

text \<open>One turn of \<^verbatim>\<open>pool_worker\<close>, and \<open>n\<close> of them.\<close>

definition pool_turn :: "'w env \<Rightarrow> 'w thunk \<Rightarrow> 'w sys \<Rightarrow> 'w sys" where
  "pool_turn E T s =
     (case pool_dequeue s of
        None \<Rightarrow> s
      | Some (fid, s) \<Rightarrow>
          let s1 = run_task E T fid (swap_thread (TRun fid) [TRunning fid]
                     (s\<lparr>s_threads := TRun fid # s_threads s\<rparr>))
          in swap_thread (TDrop fid) [] (future_unref fid (swap_thread (TRunning fid) [TDrop fid] s1)))"

fun pool_worker :: "'w env \<Rightarrow> 'w thunk \<Rightarrow> nat \<Rightarrow> 'w sys \<Rightarrow> 'w sys" where
  "pool_worker E T 0 s = s"
| "pool_worker E T (Suc n) s = pool_worker E T n (pool_turn E T s)"

text \<open>The synchronous call: inline on a worker thread; elsewhere it queues, waits while the pool takes
  \<open>n\<close> turns, and releases the receipt.\<close>

definition geas_pledge_fulfill_sync ::
    "'w env \<Rightarrow> 'w thunk \<Rightarrow> bool \<Rightarrow> nat \<Rightarrow> nat \<Rightarrow> string \<Rightarrow> GeasValue list \<Rightarrow> GeasRef list \<Rightarrow> 'w sys \<Rightarrow>
     (GeasStatus \<times> GeasValue option \<times> 'w sys) option" where
  "geas_pledge_fulfill_sync E T t_pool_worker n i name args refs s =
     (if t_pool_worker then Some (fulfill_inline E T i name args refs s)
      else
        (case geas_pledge_fulfill E i name args refs s of
           (None, s) \<Rightarrow> Some (GEAS_ERR_OOM, None, s)
         | (Some fid, s) \<Rightarrow>
             (case geas_future_wait E fid (pool_worker E T n s) of
                None \<Rightarrow> None
              | Some (st, out, s) \<Rightarrow> Some (st, out, future_release fid s))))"

section \<open>Sign, break and the runtime itself\<close>

text \<open>Publication of a built instance, the code sign and resume share: a failed one is freed, and so is
  one that finds no slot.\<close>

definition publish_built ::
    "'w sqlite \<Rightarrow> GeasStatus \<times> GeasContract \<times> 'w \<Rightarrow> 'w sys \<Rightarrow> (GeasStatus + nat) \<times> 'w sys" where
  "publish_built S b s =
     (let i = s_next s; s = s\<lparr>s_next := Suc i\<rparr> in
      case b of
        (st, c, w) \<Rightarrow>
          if st \<noteq> GEAS_OK then
            (Inl st, s\<lparr>s_world := (case c_store c of None \<Rightarrow> w | Some db \<Rightarrow> geas_store_close S db w)\<rparr>)
          else if length (s_instances s) = GEAS_MAX_INSTANCES then
            (Inl GEAS_ERR_OOM,
             s\<lparr>s_world := (case c_store c of None \<Rightarrow> w | Some db \<Rightarrow> geas_store_close S db w)\<rparr>)
          else (Inr i, set_con i c (s\<lparr>s_instances := s_instances s @ [i], s_world := w\<rparr>)))"

text \<open>Phases two and three of sign: build the instance, then publish it if a slot is left.\<close>

definition sign_publish ::
    "'w env \<Rightarrow> GeasContractDesc \<Rightarrow> fn_addr list \<Rightarrow> GeasVowBinding list \<Rightarrow> 'w sys \<Rightarrow>
     (GeasStatus + nat) \<times> 'w sys" where
  "sign_publish E d fns vows s =
     publish_built (e_sqlite E)
       (sign_build (e_sqlite E) (e_malloc E (s_next s)) (e_time E (s_calls s)) d fns vows (s_world s)) s"

definition geas_contract_sign ::
    "'w env \<Rightarrow> string \<Rightarrow> GeasVowBinding list \<Rightarrow> u64 \<Rightarrow> 'w sys \<Rightarrow> (GeasStatus + nat) \<times> 'w sys" where
  "geas_contract_sign E name vows expected_hash s =
     (case find_desc (s_reg s) name of
        None \<Rightarrow> (Inl GEAS_ERR_NAME, s)
      | Some d \<Rightarrow>
          if expected_hash \<noteq> 0 \<and> expected_hash \<noteq> cd_shape_hash d then (Inl GEAS_ERR_VERSION, s)
          else
            (case (if cd_pledges d = [] then (True, s) else sys_alloc E s) of (ok, s) \<Rightarrow>
             case resolve_dispatch ok (s_bindings s) d of
               Inl st \<Rightarrow> (Inl st, s)
             | Inr fns \<Rightarrow>
                 (case sys_alloc E s of
                    (False, s) \<Rightarrow> (Inl GEAS_ERR_OOM, s)
                  | (True, s) \<Rightarrow>
                      (case sys_alloc E s of
                         (False, s) \<Rightarrow> (Inl GEAS_ERR_OOM, s)
                       | (True, s) \<Rightarrow> sign_publish E d fns vows s))))"

definition geas_contract_break :: "'w env \<Rightarrow> nat \<Rightarrow> 'w sys \<Rightarrow> GeasStatus \<times> 'w sys" where
  "geas_contract_break E i s =
     (case s_con s i of
        None \<Rightarrow> (GEAS_ERR_TYPE, s)
      | Some c \<Rightarrow>
          if c_state c = GEAS_UNSIGNED then (GEAS_ERR_STATE, s)
          else
            let s1 = fold future_forfeit (c_futures c) s in
            (case break_contract (e_sqlite E) c (s_world s1) of
               (c', w) \<Rightarrow> (GEAS_OK, set_con i c' (s1\<lparr>s_world := w\<rparr>))))"

definition empty_registry :: registry where
  "empty_registry = \<lparr>descs = [], modules = [], inames = [], iname_cap = 0, frozen = False, reg_mcalls = 0\<rparr>"

definition GEAS_POOL_DEFAULT_THREADS :: nat where
  "GEAS_POOL_DEFAULT_THREADS = 4"

definition GEAS_POOL_MAX_THREADS :: nat where
  "GEAS_POOL_MAX_THREADS = 256"

definition init_sys :: "nat \<Rightarrow> nat \<Rightarrow> hostmem \<Rightarrow> 'w \<Rightarrow> 'w sys" where
  "init_sys nworkers calls H w = \<lparr>s_reg = empty_registry, s_bindings = [], s_instances = [],
     s_con = (\<lambda>_. None), s_fut = (\<lambda>_. None), s_queue = [], s_qstop = False, s_nworkers = nworkers,
     s_threads = [], s_next = 0, s_calls = calls, s_host = H, s_world = w\<rparr>"

text \<open>The five allocations and lock initialisations, then the threads; the first failure undoes the
  rest.\<close>

definition geas_runtime_init :: "'w env \<Rightarrow> nat option \<Rightarrow> hostmem \<Rightarrow> 'w \<Rightarrow> GeasStatus + 'w sys" where
  "geas_runtime_init E max_threads H w =
     (let n = (case max_threads of None \<Rightarrow> GEAS_POOL_DEFAULT_THREADS
               | Some m \<Rightarrow> if m = 0 then GEAS_POOL_DEFAULT_THREADS else m)
      in if GEAS_POOL_MAX_THREADS < n then Inl GEAS_ERR_TYPE
         else if \<not> list_all (e_alloc E) [0..<5 + n] then Inl GEAS_ERR_OOM
         else Inr (init_sys n (5 + n) H w))"

definition free_instance :: "'w env \<Rightarrow> nat \<Rightarrow> 'w sys \<Rightarrow> 'w sys" where
  "free_instance E i s =
     (case s_con s i of
        None \<Rightarrow> s
      | Some c \<Rightarrow>
          let s1 = fold future_free (c_futures c) s;
              w = (case c_store c of None \<Rightarrow> s_world s1 | Some db \<Rightarrow> geas_store_close (e_sqlite E) db (s_world s1))
          in s1\<lparr>s_con := (s_con s1)(i := None), s_world := w\<rparr>)"

text \<open>The workers drain the queue in \<open>n\<close> turns; then every instance, future and table entry goes.\<close>

definition geas_runtime_shutdown :: "'w env \<Rightarrow> 'w thunk \<Rightarrow> nat \<Rightarrow> 'w sys \<Rightarrow> 'w sys" where
  "geas_runtime_shutdown E T n s =
     (let s1 = pool_worker E T n (s\<lparr>s_qstop := True\<rparr>);
          s2 = fold (free_instance E) (s_instances s1) s1
      in s2\<lparr>s_instances := [], s_reg := (s_reg s2)\<lparr>inames := [], modules := []\<rparr>\<rparr>)"

end
