(* ===== verification/Geas_Park.thy ===== *)
theory Geas_Park
  imports Geas_System Geas_Report Geas_Wire
begin

text \<open>
  The parked instance of \<^verbatim>\<open>runtime.c\<close>: writing an instance into one row of the \<^verbatim>\<open>geas_park\<close> table and
  standing it back up.  The database is the SQLite parameter of the store driver, the value blobs are
  the wire codec's.  A byte buffer is the list of the bytes written to it.
\<close>

section \<open>The encoded state\<close>

definition PARK_DDL :: string where
  "PARK_DDL = ''CREATE TABLE IF NOT EXISTS geas_park ('' @
     ''pkey TEXT PRIMARY KEY, contract TEXT, version INTEGER, '' @
     ''shape_hash INTEGER, state INTEGER, signed_at INTEGER, '' @
     ''vows BLOB, latches BLOB, errs BLOB, subtxn BLOB)''"

definition PARK_INSERT :: string where
  "PARK_INSERT = ''INSERT OR REPLACE INTO geas_park '' @ ''VALUES (?1,?2,?3,?4,?5,?6,?7,?8,?9,?10)''"

definition PARK_SELECT :: string where
  "PARK_SELECT = ''SELECT contract, version, shape_hash, state, signed_at, '' @
     ''vows, latches, errs, subtxn FROM geas_park WHERE pkey = ?1''"

fun latch_byte :: "latch \<Rightarrow> u8" where
  "latch_byte PLEDGE_PENDING = 0"
| "latch_byte PLEDGE_FULFILLED = 1"
| "latch_byte PLEDGE_BROKEN = 2"

definition byte_latch :: "u8 \<Rightarrow> latch option" where
  "byte_latch b = (if b = 0 then Some PLEDGE_PENDING else if b = 1 then Some PLEDGE_FULFILLED
     else if b = 2 then Some PLEDGE_BROKEN else None)"

fun txn_byte :: "txn \<Rightarrow> u8" where
  "txn_byte TXN_NONE = 0"
| "txn_byte TXN_OPEN = 1"
| "txn_byte TXN_DONE = 2"

text \<open>An open episode is refused like a byte out of range.\<close>

definition byte_txn :: "u8 \<Rightarrow> txn option" where
  "byte_txn b = (if b = 0 then Some TXN_NONE else if b = 2 then Some TXN_DONE else None)"

fun state_num :: "GeasContractState \<Rightarrow> u64" where
  "state_num GEAS_UNSIGNED = 0"
| "state_num GEAS_SIGNED = 1"
| "state_num GEAS_FULFILLED = 2"
| "state_num GEAS_PARTIAL = 3"
| "state_num GEAS_BROKEN = 4"

text \<open>The range check and the cast of the state column.\<close>

definition num_state :: "u64 \<Rightarrow> GeasContractState option" where
  "num_state n = (if n = 1 then Some GEAS_SIGNED else if n = 2 then Some GEAS_FULFILLED
     else if n = 3 then Some GEAS_PARTIAL else if n = 4 then Some GEAS_BROKEN else None)"

definition park_err_present :: "GeasValue \<Rightarrow> bool" where
  "park_err_present v \<longleftrightarrow> v \<noteq> gv_zero"

text \<open>The sizing pass: only a status other than the size protocol's is a fault.\<close>

definition sized :: "GeasValue \<Rightarrow> u64 \<Rightarrow> GeasStatus + u64" where
  "sized v tot =
     (case geas_wire_encode_value (Some v) False 0 of
        (st, need, _) \<Rightarrow>
          if st \<noteq> GEAS_OK \<and> st \<noteq> GEAS_ERR_OOM then Inl st
          else Inr (tot + (case need of None \<Rightarrow> 0 | Some n \<Rightarrow> n)))"

fun park_size :: "GeasValue list \<Rightarrow> u64 \<Rightarrow> GeasStatus + u64" where
  "park_size [] tot = Inr tot"
| "park_size (v # vs) tot = (case sized v tot of Inl st \<Rightarrow> Inl st | Inr tot \<Rightarrow> park_size vs tot)"

text \<open>The write pass; \<open>left\<close> is what remains of the buffer.\<close>

definition written :: "GeasValue \<Rightarrow> u64 \<Rightarrow> GeasStatus + bytes \<times> u64" where
  "written v left =
     (case geas_wire_encode_value (Some v) True left of
        (st, need, bs) \<Rightarrow>
          if st \<noteq> GEAS_OK then Inl st
          else Inr (case bs of None \<Rightarrow> [] | Some b \<Rightarrow> b, left - (case need of None \<Rightarrow> 0 | Some n \<Rightarrow> n)))"

fun park_write :: "GeasValue list \<Rightarrow> u64 \<Rightarrow> GeasStatus + bytes" where
  "park_write [] left = Inr []"
| "park_write (v # vs) left =
     (case written v left of
        Inl st \<Rightarrow> Inl st
      | Inr (b, left) \<Rightarrow> (case park_write vs left of Inl st \<Rightarrow> Inl st | Inr r \<Rightarrow> Inr (b @ r)))"

definition park_encode_values :: "'w env \<Rightarrow> GeasValue list \<Rightarrow> 'w sys \<Rightarrow> (GeasStatus + bytes) \<times> 'w sys" where
  "park_encode_values E vals s =
     (case park_size vals 0 of
        Inl st \<Rightarrow> (Inl st, s)
      | Inr tot \<Rightarrow>
          (case sys_alloc E s of
             (False, s) \<Rightarrow> (Inl GEAS_ERR_OOM, s)
           | (True, s) \<Rightarrow> (park_write vals tot, s)))"

fun park_size_errs :: "GeasValue list \<Rightarrow> u64 \<Rightarrow> GeasStatus + u64" where
  "park_size_errs [] tot = Inr tot"
| "park_size_errs (e # es) tot =
     (if \<not> park_err_present e then park_size_errs es tot
      else case sized e tot of Inl st \<Rightarrow> Inl st | Inr tot \<Rightarrow> park_size_errs es tot)"

fun park_write_errs :: "GeasValue list \<Rightarrow> u64 \<Rightarrow> GeasStatus + bytes" where
  "park_write_errs [] left = Inr []"
| "park_write_errs (e # es) left =
     (if \<not> park_err_present e then
        (case park_write_errs es (left - 1) of Inl st \<Rightarrow> Inl st | Inr r \<Rightarrow> Inr (0 # r))
      else
        (case written e (left - 1) of
           Inl st \<Rightarrow> Inl st
         | Inr (b, left) \<Rightarrow> (case park_write_errs es left of Inl st \<Rightarrow> Inl st | Inr r \<Rightarrow> Inr (1 # b @ r))))"

definition park_encode_errs :: "'w env \<Rightarrow> GeasValue list \<Rightarrow> 'w sys \<Rightarrow> (GeasStatus + bytes) \<times> 'w sys" where
  "park_encode_errs E es s =
     (case park_size_errs es (of_nat (length es)) of
        Inl st \<Rightarrow> (Inl st, s)
      | Inr tot \<Rightarrow>
          (case sys_alloc E s of
             (False, s) \<Rightarrow> (Inl GEAS_ERR_OOM, s)
           | (True, s) \<Rightarrow> (park_write_errs es tot, s)))"

section \<open>Park\<close>

definition park_str_param :: "bytes \<Rightarrow> GeasValue" where
  "park_str_param bs = VString 0 (SBytes bs)"

definition park_int_param :: "u64 \<Rightarrow> GeasValue" where
  "park_int_param i = VInt 0 i"

text \<open>The refusals of a state no row can carry.\<close>

definition park_ready :: "'w sys \<Rightarrow> GeasContract \<Rightarrow> bool" where
  "park_ready s c \<longleftrightarrow>
     c_state c \<noteq> GEAS_UNSIGNED \<and> \<not> (cd_pledges (c_desc c) \<noteq> [] \<and> owned (c_heap c) = []) \<and>
     list_all (\<lambda>fid. case s_fut s fid of None \<Rightarrow> True | Some f \<Rightarrow> f_waited f) (c_futures c) \<and>
     (case c_sub_txn c of None \<Rightarrow> True | Some ts \<Rightarrow> list_all (\<lambda>t. t \<noteq> TXN_OPEN) ts)"

definition park_params :: "GeasContract \<Rightarrow> string \<Rightarrow> bytes \<Rightarrow> bytes \<Rightarrow> GeasValue list" where
  "park_params c key vows errs =
     [park_str_param (string_bytes key),
      park_str_param (string_bytes (cd_name (c_desc c))),
      park_int_param (ucast (cd_version (c_desc c))),
      park_int_param (cd_shape_hash (c_desc c)),
      park_int_param (state_num (c_state c)),
      park_int_param (c_signed_at c),
      park_str_param vows,
      park_str_param (case c_pledge_state c of None \<Rightarrow> [] | Some ps \<Rightarrow> map latch_byte ps),
      park_str_param errs,
      park_str_param (case c_sub_txn c of None \<Rightarrow> [] | Some ts \<Rightarrow> map txn_byte ts)]"

definition park_store :: "'w sqlite \<Rightarrow> string \<Rightarrow> GeasValue list \<Rightarrow> 'w \<Rightarrow> GeasStatus \<times> 'w" where
  "park_store S dsn params w =
     (case geas_store_open S dsn w of
        (Inl st, w) \<Rightarrow> (st, w)
      | (Inr db, w) \<Rightarrow>
          (case geas_store_exec S db PARK_DDL w of
             (st, w) \<Rightarrow>
               if st \<noteq> GEAS_OK then (st, geas_store_close S db w)
               else (case geas_store_exec_params S db PARK_INSERT params w of
                   (Inl st, w) \<Rightarrow> (st, geas_store_close S db w)
                 | (Inr n, w) \<Rightarrow> (GEAS_OK, geas_store_close S db w))))"

text \<open>Both blobs.  A NULL vow array reaches the codec as a NULL value.\<close>

definition park_blobs :: "'w env \<Rightarrow> GeasContract \<Rightarrow> 'w sys \<Rightarrow> (GeasStatus + bytes \<times> bytes) \<times> 'w sys" where
  "park_blobs E c s =
     (case (if cd_vows (c_desc c) = [] then (Inr [], s)
            else case c_vow_vals c of
              None \<Rightarrow> (Inl (fst (geas_wire_encode_value None False 0)), s)
            | Some vals \<Rightarrow> park_encode_values E vals s) of
        (Inl st, s) \<Rightarrow> (Inl st, s)
      | (Inr vows, s) \<Rightarrow>
          (case (if cd_pledges (c_desc c) = [] then (Inr [], s)
                 else park_encode_errs E (the (c_pledge_err c)) s) of
             (Inl st, s) \<Rightarrow> (Inl st, s)
           | (Inr errs, s) \<Rightarrow> (Inr (vows, errs), s)))"

definition geas_instance_park :: "'w env \<Rightarrow> nat \<Rightarrow> string \<Rightarrow> string \<Rightarrow> 'w sys \<Rightarrow> GeasStatus \<times> 'w sys" where
  "geas_instance_park E i dsn key s =
     (case s_con s i of
        None \<Rightarrow> (GEAS_ERR_TYPE, s)
      | Some c \<Rightarrow>
          if \<not> park_ready s c then (GEAS_ERR_STATE, s)
          else (case park_blobs E c s of
              (Inl st, s) \<Rightarrow> (st, s)
            | (Inr (vows, errs), s) \<Rightarrow>
                (case park_store (e_sqlite E) dsn (park_params c key vows errs) (s_world s) of
                   (st, w) \<Rightarrow> (st, s\<lparr>s_world := w\<rparr>))))"


section \<open>Resume\<close>

definition SIZEOF_PARK_CHUNK :: u64 where
  "SIZEOF_PARK_CHUNK = 8"

definition park_arena_bytes :: "malloc \<Rightarrow> heap alloc_hook" where
  "park_arena_bytes M n h =
     (if M (mcalls h) then (True, h\<lparr>owned := (SIZEOF_PARK_CHUNK + n) # owned h, mcalls := Suc (mcalls h)\<rparr>)
      else (False, h\<lparr>mcalls := Suc (mcalls h)\<rparr>))"

definition park_arena_free :: "heap \<Rightarrow> heap" where
  "park_arena_free h = h\<lparr>owned := []\<rparr>"

record park_row =
  pr_name :: bytes
  pr_version :: u64
  pr_shape :: u64
  pr_state :: u64
  pr_signed :: u64
  pr_vows :: bytes
  pr_latches :: bytes
  pr_errs :: bytes
  pr_subtxn :: bytes

definition park_cols :: "u32 list" where
  "park_cols = map ty_num [GEAS_TY_STRING, GEAS_TY_INT, GEAS_TY_UINT, GEAS_TY_INT, GEAS_TY_INT,
     GEAS_TY_STRING, GEAS_TY_STRING, GEAS_TY_STRING, GEAS_TY_STRING]"

text \<open>The column types make every row that was read have this shape.  A row that vanished between the
  two passes of the query leaves a zeroed slot, which the C code reads through a NULL pointer: the
  result \<open>None\<close>.\<close>

fun str_field :: "GeasValue \<Rightarrow> bytes" where
  "str_field (VString g z) = str_bytes z"
| "str_field v = []"

fun num_field :: "GeasValue \<Rightarrow> u64" where
  "num_field (VInt g i) = i"
| "num_field (VUInt g u) = u"
| "num_field v = 0"

definition row_of :: "GeasValue \<Rightarrow> park_row option" where
  "row_of r =
     (case r of
        VArr KRecord g (LData f cap e) \<Rightarrow>
          if map gv_ty f \<noteq> park_cols then None
          else Some \<lparr>pr_name = str_field (f ! 0), pr_version = num_field (f ! 1), pr_shape = num_field (f ! 2),
            pr_state = num_field (f ! 3), pr_signed = num_field (f ! 4), pr_vows = str_field (f ! 5),
            pr_latches = str_field (f ! 6), pr_errs = str_field (f ! 7), pr_subtxn = str_field (f ! 8)\<rparr>
      | _ \<Rightarrow> None)"

text \<open>The row of a key: the connection is closed again, the arena lives until the end of the call.\<close>

definition park_load ::
    "'w env \<Rightarrow> string \<Rightarrow> string \<Rightarrow> 'w sys \<Rightarrow> (GeasStatus + GeasValue) \<times> 'w sys" where
  "park_load E dsn key s =
     (let S = e_sqlite E in
      case geas_store_open S dsn (s_world s) of
        (Inl st, w) \<Rightarrow> (Inl st, s\<lparr>s_world := w\<rparr>)
      | (Inr db, w) \<Rightarrow>
          (case geas_store_exec S db PARK_DDL w of
             (st, w) \<Rightarrow>
               if st \<noteq> GEAS_OK then (Inl st, s\<lparr>s_world := geas_store_close S db w\<rparr>)
               else (case geas_store_query S (park_arena_bytes (e_alloc E)) db PARK_SELECT
                        [park_str_param (string_bytes key)] park_cols \<lparr>owned = [], mcalls = s_calls s\<rparr> w of
                   (r, h, w) \<Rightarrow> (r, s\<lparr>s_calls := mcalls (park_arena_free h), s_world := geas_store_close S db w\<rparr>))))"

fun resume_vow_loop ::
    "malloc \<Rightarrow> GeasVowDesc list \<Rightarrow> bytes \<Rightarrow> heap \<Rightarrow> (GeasStatus + GeasValue list \<times> bytes) \<times> heap" where
  "resume_vow_loop M [] bs h = (Inr ([], bs), h)"
| "resume_vow_loop M (vd # vds) bs h =
     (case geas_wire_decode_value M (Some bs) h of
        (Inl st, h) \<Rightarrow> (Inl st, h)
      | (Inr (v, used), h) \<Rightarrow>
          if gv_ty v \<noteq> vd_ty vd then (Inl GEAS_ERR_TYPE, h)
          else (case resume_vow_loop M vds (drop used bs) h of
              (Inl st, h) \<Rightarrow> (Inl st, h)
            | (Inr (vs, bs), h) \<Rightarrow> (Inr (v # vs, bs), h)))"

text \<open>The stages of the rebuilt instance; the instance of a failing stage is freed by the caller, so the
  slots a failing loop filled are left out.\<close>

definition resume_vows :: "malloc \<Rightarrow> bytes \<Rightarrow> GeasContract \<Rightarrow> GeasStatus \<times> GeasContract" where
  "resume_vows M bs c =
     (let vds = cd_vows (c_desc c) in
      if vds = [] then (if bs \<noteq> [] then GEAS_ERR_TYPE else GEAS_OK, c)
      else (case geas_bytes M (of_nat (length vds) * SIZEOF_VALUE) (c_heap c) of
          (False, h) \<Rightarrow> (GEAS_ERR_OOM, c\<lparr>c_heap := h\<rparr>)
        | (True, h) \<Rightarrow>
            (case resume_vow_loop M vds bs h of
               (Inl st, h) \<Rightarrow> (st, c\<lparr>c_heap := h, c_vow_vals := Some (replicate (length vds) gv_zero)\<rparr>)
             | (Inr (vals, rest), h) \<Rightarrow>
                 (if rest \<noteq> [] then GEAS_ERR_TYPE else GEAS_OK,
                  c\<lparr>c_heap := h, c_vow_vals := Some vals\<rparr>))))"

fun resume_err_loop :: "malloc \<Rightarrow> nat \<Rightarrow> bytes \<Rightarrow> heap \<Rightarrow> (GeasStatus + GeasValue list \<times> bytes) \<times> heap" where
  "resume_err_loop M 0 bs h = (Inr ([], bs), h)"
| "resume_err_loop M (Suc n) bs h =
     (case bs of
        [] \<Rightarrow> (Inl GEAS_ERR_TYPE, h)
      | p # bs \<Rightarrow>
          if 1 < p then (Inl GEAS_ERR_TYPE, h)
          else (case (if p = 1 then geas_wire_decode_value M (Some bs) h else (Inr (gv_zero, 0), h)) of
              (Inl st, h) \<Rightarrow> (Inl st, h)
            | (Inr (e, used), h) \<Rightarrow>
                (case resume_err_loop M n (drop used bs) h of
                   (Inl st, h) \<Rightarrow> (Inl st, h)
                 | (Inr (es, bs), h) \<Rightarrow> (Inr (e # es, bs), h))))"

definition resume_latches :: "malloc \<Rightarrow> bytes \<Rightarrow> bytes \<Rightarrow> GeasContract \<Rightarrow> GeasStatus \<times> GeasContract" where
  "resume_latches M bl be c =
     (let n = length (cd_pledges (c_desc c)) in
      if n = 0 then (GEAS_OK, c)
      else (case plain_mallocs M 2 c of
          (False, c) \<Rightarrow> (GEAS_ERR_OOM, c)
        | (True, c) \<Rightarrow>
            if length bl \<noteq> n then (GEAS_ERR_TYPE, c)
            else (case those (map byte_latch bl) of
                None \<Rightarrow> (GEAS_ERR_TYPE, c)
              | Some ps \<Rightarrow>
                  (case resume_err_loop M n be (c_heap c) of
                     (Inl st, h) \<Rightarrow>
                       (st, c\<lparr>c_heap := h, c_pledge_state := Some ps, c_pledge_err := Some (replicate n gv_zero)\<rparr>)
                   | (Inr (es, rest), h) \<Rightarrow>
                       (if rest \<noteq> [] then GEAS_ERR_TYPE else GEAS_OK,
                        c\<lparr>c_heap := h, c_pledge_state := Some ps, c_pledge_err := Some es\<rparr>)))))"

definition resume_txn :: "malloc \<Rightarrow> bytes \<Rightarrow> GeasContract \<Rightarrow> GeasStatus \<times> GeasContract" where
  "resume_txn M bt c =
     (let n = length (cd_subs (c_desc c)) in
      if n = 0 then (GEAS_OK, c)
      else (case plain_mallocs M 1 c of
          (False, c) \<Rightarrow> (GEAS_ERR_OOM, c)
        | (True, c) \<Rightarrow>
            if length bt \<noteq> n then (GEAS_ERR_TYPE, c)
            else (case those (map byte_txn bt) of
                None \<Rightarrow> (GEAS_ERR_TYPE, c)
              | Some ts \<Rightarrow> (GEAS_OK, c\<lparr>c_sub_txn := Some ts\<rparr>))))"

definition resume_build ::
    "'w sqlite \<Rightarrow> malloc \<Rightarrow> GeasContractDesc \<Rightarrow> fn_addr list \<Rightarrow> GeasContractState \<Rightarrow> park_row \<Rightarrow> 'w \<Rightarrow>
     GeasStatus \<times> GeasContract \<times> 'w" where
  "resume_build S M d fns st0 row w =
     (case sign_fns M (fresh_contract d) fns of (st, c) \<Rightarrow>
      if st \<noteq> GEAS_OK then (st, c, w) else
      case resume_vows M (pr_vows row) c of (st, c) \<Rightarrow>
      if st \<noteq> GEAS_OK then (st, c, w) else
      case resume_latches M (pr_latches row) (pr_errs row) c of (st, c) \<Rightarrow>
      if st \<noteq> GEAS_OK then (st, c, w) else
      case resume_txn M (pr_subtxn row) c of (st, c) \<Rightarrow>
      if st \<noteq> GEAS_OK then (st, c, w) else
      case store_sign_reconcile S M c w of (st, c, w) \<Rightarrow>
      if st \<noteq> GEAS_OK then (st, c, w) else
      (GEAS_OK, c\<lparr>c_state := st0, c_shape_hash := cd_shape_hash d, c_signed_at := pr_signed row\<rparr>, w))"

definition resume_row ::
    "'w env \<Rightarrow> u64 \<Rightarrow> park_row \<Rightarrow> 'w sys \<Rightarrow> (GeasStatus + nat) \<times> 'w sys" where
  "resume_row E expected_hash row s =
     (case num_state (pr_state row) of
        None \<Rightarrow> (Inl GEAS_ERR_TYPE, s)
      | Some st0 \<Rightarrow>
          (case sys_alloc E s of
             (False, s) \<Rightarrow> (Inl GEAS_ERR_OOM, s)
           | (True, s) \<Rightarrow>
               (case find_desc (s_reg s) (cstr (pr_name row)) of
                  None \<Rightarrow> (Inl GEAS_ERR_NAME, s)
                | Some d \<Rightarrow>
                    if ucast (cd_version d) \<noteq> pr_version row \<or> cd_shape_hash d \<noteq> pr_shape row \<or>
                       expected_hash \<noteq> 0 \<and> expected_hash \<noteq> cd_shape_hash d then (Inl GEAS_ERR_VERSION, s)
                    else
                      (case (if cd_pledges d = [] then (True, s) else sys_alloc E s) of (ok, s) \<Rightarrow>
                       case resolve_dispatch ok (s_bindings s) d of
                         Inl st \<Rightarrow> (Inl st, s)
                       | Inr fns \<Rightarrow>
                           (case sys_alloc E s of
                              (False, s) \<Rightarrow> (Inl GEAS_ERR_OOM, s)
                            | (True, s) \<Rightarrow>
                                (case sys_alloc E s of
                                   (False, s) \<Rightarrow> (Inl GEAS_ERR_OOM, s)
                                 | (True, s) \<Rightarrow>
                                     publish_built (e_sqlite E)
                                       (resume_build (e_sqlite E) (e_malloc E (s_next s)) d fns st0 row (s_world s)) s))))))"

text \<open>\<open>None\<close> is the read through a NULL row.\<close>

definition geas_instance_resume ::
    "'w env \<Rightarrow> string \<Rightarrow> string \<Rightarrow> u64 \<Rightarrow> 'w sys \<Rightarrow> ((GeasStatus + nat) \<times> 'w sys) option" where
  "geas_instance_resume E dsn key expected_hash s =
     (case park_load E dsn key s of
        (Inl st, s) \<Rightarrow> Some (Inl st, s)
      | (Inr rows, s) \<Rightarrow>
          (case rows of
             VArr KList g (LData (r # rs) cap e) \<Rightarrow>
               map_option (\<lambda>row. resume_row E expected_hash row s) (row_of r)
           | _ \<Rightarrow> Some (Inl GEAS_ERR_NAME, s)))"

section \<open>The calls of a compiled body\<close>

definition park_cstr :: "'w env \<Rightarrow> GeasValue \<Rightarrow> 'w sys \<Rightarrow> string option \<times> 'w sys" where
  "park_cstr E v s =
     (case v of
        VString g str \<Rightarrow>
          (case sys_alloc E s of
             (False, s) \<Rightarrow> (None, s)
           | (True, s) \<Rightarrow> (Some (cstr (str_bytes str)), s))
      | _ \<Rightarrow> (None, s))"

definition is_string :: "GeasValue \<Rightarrow> bool" where
  "is_string v \<longleftrightarrow> gv_ty v = ty_num GEAS_TY_STRING"

definition geas_instance_park_v ::
    "'w env \<Rightarrow> nat \<Rightarrow> GeasValue \<Rightarrow> GeasValue \<Rightarrow> 'w sys \<Rightarrow> GeasStatus \<times> 'w sys" where
  "geas_instance_park_v E i dsn key s =
     (if \<not> is_string dsn \<or> \<not> is_string key then (GEAS_ERR_TYPE, s)
      else (case park_cstr E dsn s of (d, s) \<Rightarrow>
            case park_cstr E key s of (k, s) \<Rightarrow>
            case (d, k) of
              (Some d, Some k) \<Rightarrow> geas_instance_park E i d k s
            | _ \<Rightarrow> (GEAS_ERR_OOM, s)))"

definition geas_instance_resume_v ::
    "'w env \<Rightarrow> GeasValue \<Rightarrow> GeasValue \<Rightarrow> u64 \<Rightarrow> 'w sys \<Rightarrow> ((GeasStatus + nat) \<times> 'w sys) option" where
  "geas_instance_resume_v E dsn key expected_hash s =
     (if \<not> is_string dsn \<or> \<not> is_string key then Some (Inl GEAS_ERR_TYPE, s)
      else (case park_cstr E dsn s of (d, s) \<Rightarrow>
            case park_cstr E key s of (k, s) \<Rightarrow>
            case (d, k) of
              (Some d, Some k) \<Rightarrow> geas_instance_resume E d k expected_hash s
            | _ \<Rightarrow> Some (Inl GEAS_ERR_OOM, s)))"

end
