(* ===== verification/Geas_Sign_Facts.thy ===== *)
theory Geas_Sign_Facts
  imports Geas_Sign Geas_Store_Facts Geas_Policy_Props
begin

text \<open>
  What binding the vows and building an instance establish.
\<close>

section \<open>Vows\<close>

lemma find_index_Some:
  "find_index P i xs = Some j \<Longrightarrow> i \<le> j \<and> j - i < length xs \<and> P (xs ! (j - i)) \<and> (\<forall>k<j - i. \<not> P (xs ! k))"
proof (induction xs arbitrary: i)
  case (Cons x xs)
  show ?case
  proof (cases "P x")
    case False
    then have j: "Suc i \<le> j \<and> j - Suc i < length xs \<and> P (xs ! (j - Suc i)) \<and> (\<forall>k<j - Suc i. \<not> P (xs ! k))"
      using Cons by simp
    then have "j - i = Suc (j - Suc i)"
      by linarith
    then show ?thesis
      using j False by (auto simp: less_Suc_eq_0_disj)
  qed (use Cons.prems in auto)
qed simp

lemma find_index_None: "find_index P i xs = None \<longleftrightarrow> (\<forall>x\<in>set xs. \<not> P x)"
  by (induction xs arbitrary: i) auto

lemma find_vow_desc_less: "find_vow_desc d n = Some j \<Longrightarrow> j < length (cd_vows d) \<and> vd_name (cd_vows d ! j) = n"
  unfolding find_vow_desc_def by (drule find_index_Some) simp

lemma find_pledge_less: "find_pledge d n = Some j \<Longrightarrow> j < length (cd_pledges d) \<and> pd_name (cd_pledges d ! j) = n"
  unfolding find_pledge_def by (drule find_index_Some) simp

text \<open>The value a vow is meant to take: its last override, else its default.\<close>

fun override_for :: "GeasContractDesc \<Rightarrow> nat \<Rightarrow> GeasVowBinding list \<Rightarrow> GeasValue option" where
  "override_for d j [] = None"
| "override_for d j (b # bs) =
     (case override_for d j bs of
        Some v \<Rightarrow> Some v
      | None \<Rightarrow> if find_vow_desc d (vb_name b) = Some j then Some (vb_value b) else None)"

definition same_value :: "GeasValue \<Rightarrow> GeasValue \<Rightarrow> bool" where
  "same_value v w \<longleftrightarrow> norm_value v = norm_value w"

lemma copy_vow_same: "copy_vow_value M v h = (Inr w, h') \<Longrightarrow> wf_value v \<Longrightarrow> same_value w v"
  using deep_copy_same(1) by (auto simp: copy_vow_value_def same_value_def split: if_splits)

lemma overrides_spec:
  assumes "bind_overrides M d bs vals bound h = (Inr (vals', bound'), h')"
    and "\<forall>b\<in>set bs. wf_value (vb_value b)" "length vals = length (cd_vows d)"
  shows "length vals' = length vals \<and>
    (\<forall>j. j \<in> set bound' \<longleftrightarrow> j \<in> set bound \<or> override_for d j bs \<noteq> None) \<and>
    (\<forall>j<length vals. case override_for d j bs of None \<Rightarrow> vals' ! j = vals ! j
       | Some v \<Rightarrow> same_value (vals' ! j) v \<and> gv_ty v = vd_ty (cd_vows d ! j))"
  using assms
proof (induction bs arbitrary: vals bound h)
  case (Cons b bs)
  obtain slot v h1 where slot: "find_vow_desc d (vb_name b) = Some slot"
      and ty: "gv_ty (vb_value b) = vd_ty (cd_vows d ! slot)"
      and v: "copy_vow_value M (vb_value b) h = (Inr v, h1)"
      and rest: "bind_overrides M d bs (vals[slot := v]) (slot # bound) h1 = (Inr (vals', bound'), h')"
    using Cons.prems(1) by (auto split: option.splits if_splits prod.splits sum.splits)
  have same: "same_value v (vb_value b)"
    using copy_vow_same[OF v] Cons.prems(2) by simp
  have IH: "length vals' = length vals"
      "\<And>j. j \<in> set bound' \<longleftrightarrow> j = slot \<or> j \<in> set bound \<or> override_for d j bs \<noteq> None"
      "\<And>j. j < length vals \<Longrightarrow> case override_for d j bs of None \<Rightarrow> vals' ! j = vals[slot := v] ! j
         | Some v \<Rightarrow> same_value (vals' ! j) v \<and> gv_ty v = vd_ty (cd_vows d ! j)"
    using Cons.IH[OF rest] Cons.prems(2,3) by auto
  show ?case
  proof (intro conjI allI impI)
    fix j
    assume j: "j < length vals"
    show "case override_for d j (b # bs) of None \<Rightarrow> vals' ! j = vals ! j
       | Some v \<Rightarrow> same_value (vals' ! j) v \<and> gv_ty v = vd_ty (cd_vows d ! j)"
      using IH(3)[OF j] slot same ty j by (auto split: option.splits)
  qed (use IH slot in \<open>auto split: option.splits\<close>)
qed simp

lemma defaults_head:
  assumes "length vals' = length vals" "\<And>k. k < j \<Longrightarrow> vals' ! k = vals ! k"
    and "if j \<in> set bound then vals' ! j = vals ! j
         else vd_has_default v \<and> same_value (vals' ! j) (vd_default_value v)"
    and "\<And>k. k < length vs \<Longrightarrow> if Suc (j + k) \<in> set bound then vals' ! Suc (j + k) = vals ! Suc (j + k)
         else vd_has_default (vs ! k) \<and> same_value (vals' ! Suc (j + k)) (vd_default_value (vs ! k))"
  shows "length vals' = length vals \<and> (\<forall>k<j. vals' ! k = vals ! k) \<and>
    (\<forall>k<length (v # vs). if j + k \<in> set bound then vals' ! (j + k) = vals ! (j + k)
       else vd_has_default ((v # vs) ! k) \<and> same_value (vals' ! (j + k)) (vd_default_value ((v # vs) ! k)))"
proof (intro conjI allI impI)
  fix k
  assume "k < length (v # vs)"
  then show "if j + k \<in> set bound then vals' ! (j + k) = vals ! (j + k)
       else vd_has_default ((v # vs) ! k) \<and> same_value (vals' ! (j + k)) (vd_default_value ((v # vs) ! k))"
    using assms(3,4) by (cases k) auto
qed (use assms in auto)

lemma defaults_spec:
  assumes "bind_defaults M j vs vals bound h = (Inr vals', h')"
    and "\<forall>v\<in>set vs. vd_has_default v \<longrightarrow> wf_value (vd_default_value v)" "length vals = j + length vs"
  shows "length vals' = length vals \<and> (\<forall>k<j. vals' ! k = vals ! k) \<and>
    (\<forall>k<length vs. if j + k \<in> set bound then vals' ! (j + k) = vals ! (j + k)
       else vd_has_default (vs ! k) \<and> same_value (vals' ! (j + k)) (vd_default_value (vs ! k)))"
  using assms
proof (induction vs arbitrary: j vals h)
  case (Cons v vs)
  show ?case
  proof (cases "j \<in> set bound")
    case True
    then have "bind_defaults M (Suc j) vs vals bound h = (Inr vals', h')"
      using Cons.prems(1) by simp
    from Cons.IH[OF this] Cons.prems(2,3) have IH: "length vals' = length vals"
        "\<And>k. k < Suc j \<Longrightarrow> vals' ! k = vals ! k"
        "\<And>k. k < length vs \<Longrightarrow> if Suc (j + k) \<in> set bound then vals' ! Suc (j + k) = vals ! Suc (j + k)
          else vd_has_default (vs ! k) \<and> same_value (vals' ! Suc (j + k)) (vd_default_value (vs ! k))"
      by auto
    show ?thesis
      by (rule defaults_head) (use IH True in auto)
  next
    case False
    then obtain x h1 where x: "copy_vow_value M (vd_default_value v) h = (Inr x, h1)" "vd_has_default v"
        and rest: "bind_defaults M (Suc j) vs (vals[j := x]) bound h1 = (Inr vals', h')"
      using Cons.prems(1) by (auto split: if_splits prod.splits sum.splits)
    have "same_value x (vd_default_value v)"
      using copy_vow_same[OF x(1)] Cons.prems(2) x(2) by simp
    moreover from Cons.IH[OF rest] Cons.prems(2,3) have IH: "length vals' = length vals"
        "\<And>k. k < Suc j \<Longrightarrow> vals' ! k = vals[j := x] ! k"
        "\<And>k. k < length vs \<Longrightarrow> if Suc (j + k) \<in> set bound then vals' ! Suc (j + k) = vals[j := x] ! Suc (j + k)
          else vd_has_default (vs ! k) \<and> same_value (vals' ! Suc (j + k)) (vd_default_value (vs ! k))"
      by auto
    ultimately show ?thesis
      by (intro defaults_head) (use False x(2) Cons.prems(3) in auto)
  qed
qed simp

definition vows_wf :: "GeasContractDesc \<Rightarrow> GeasVowBinding list \<Rightarrow> bool" where
  "vows_wf d bs \<longleftrightarrow> (\<forall>b\<in>set bs. wf_value (vb_value b)) \<and>
     (\<forall>v\<in>set (cd_vows d). vd_has_default v \<longrightarrow> wf_value (vd_default_value v))"

lemma bind_vows_frame:
  "bind_vows M c bs = (st, c') \<Longrightarrow> c' = c\<lparr>c_heap := c_heap c', c_vow_vals := c_vow_vals c'\<rparr>"
  unfolding bind_vows_def Let_def by (auto split: if_splits prod.splits bool.splits sum.splits)

text \<open>A heap array with one slot per entry of the descriptor, NULL when there are none.\<close>

definition array_ok :: "'a list option \<Rightarrow> nat \<Rightarrow> bool" where
  "array_ok a n = (case a of None \<Rightarrow> n = 0 | Some xs \<Rightarrow> length xs = n)"

lemma overrides_length:
  "bind_overrides M d bs vals bound h = (Inr (vals', bound'), h') \<Longrightarrow> length vals' = length vals"
  by (induction bs arbitrary: vals bound h) (auto split: option.splits if_splits prod.splits sum.splits)

lemma defaults_length: "bind_defaults M j vs vals bound h = (Inr vals', h') \<Longrightarrow> length vals' = length vals"
  by (induction vs arbitrary: j vals h) (auto split: if_splits prod.splits sum.splits)

text \<open>No failure reports success.\<close>

lemma copy_elems_fails:
  "geas_value_deep_copy M v h = (Inl st, h') \<Longrightarrow> st \<noteq> GEAS_OK"
  "deep_copy_elems M xs h = (Inl st, h') \<Longrightarrow> st \<noteq> GEAS_OK"
proof (induction M v h and M xs h arbitrary: st h' and st h'
    rule: geas_value_deep_copy_deep_copy_elems.induct)
  case (3 M k g b h)
  then show ?case
    by (cases b) (auto split: prod.splits bool.splits sum.splits)
qed (auto split: prod.splits bool.splits sum.splits if_splits)

lemma overrides_fails: "bind_overrides M d bs vals bound h = (Inl st, h') \<Longrightarrow> st \<noteq> GEAS_OK"
  by (induction bs arbitrary: vals bound h)
    (auto simp: copy_vow_value_def dest: copy_elems_fails split: option.splits if_splits prod.splits sum.splits)

lemma defaults_fails: "bind_defaults M j vs vals bound h = (Inl st, h') \<Longrightarrow> st \<noteq> GEAS_OK"
  by (induction vs arbitrary: j vals h)
    (auto simp: copy_vow_value_def dest: copy_elems_fails split: if_splits prod.splits sum.splits)

lemma bind_vows_stages:
  assumes "bind_vows M c bs = (GEAS_OK, c')"
  obtains (none) "cd_vows (c_desc c) = []" "bs = []" "c' = c"
  | (some) vals bound h1 h2 vals' h3 where "cd_vows (c_desc c) \<noteq> []"
      "bind_overrides M (c_desc c) bs (replicate (length (cd_vows (c_desc c))) gv_zero) [] h1 = (Inr (vals, bound), h2)"
      "bind_defaults M 0 (cd_vows (c_desc c)) vals bound h2 = (Inr vals', h3)"
      "c' = c\<lparr>c_heap := h3, c_vow_vals := Some vals'\<rparr>"
proof (cases "cd_vows (c_desc c) = []")
  case True
  then show ?thesis
    using assms by (intro none) (auto simp: bind_vows_def Let_def split: if_splits)
next
  case False
  obtain b h1 where h1: "geas_bytes M (of_nat (length (cd_vows (c_desc c))) * SIZEOF_VALUE) (c_heap c) = (b, h1)"
    by force
  obtain r h2 where r: "bind_overrides M (c_desc c) bs (replicate (length (cd_vows (c_desc c))) gv_zero) [] h1 = (r, h2)"
    by force
  have b: "b" "length (cd_vows (c_desc c)) \<le> GEAS_MAX_CONTRACT_TYPES"
    using assms False h1 by (cases b; auto simp: bind_vows_def Let_def split: if_splits)+
  then have rest: "(case r of Inl st \<Rightarrow> (st, c\<lparr>c_heap := h2, c_vow_vals := Some (replicate (length (cd_vows (c_desc c))) gv_zero)\<rparr>)
      | Inr (vals, bound) \<Rightarrow> (case bind_defaults M 0 (cd_vows (c_desc c)) vals bound h2 of
          (Inl st, h) \<Rightarrow> (st, c\<lparr>c_heap := h, c_vow_vals := Some vals\<rparr>)
        | (Inr vals, h) \<Rightarrow> (GEAS_OK, c\<lparr>c_heap := h, c_vow_vals := Some vals\<rparr>))) = (GEAS_OK, c')"
    using assms False h1 r by (simp add: bind_vows_def Let_def split: sum.splits)
  show ?thesis
  proof (cases r)
    case (Inl st)
    then show ?thesis
      using rest overrides_fails[of M "c_desc c" bs _ _ h1 st h2] r by auto
  next
    case (Inr vb)
    obtain vals bound where vb: "vb = (vals, bound)"
      by force
    obtain q h3 where q: "bind_defaults M 0 (cd_vows (c_desc c)) vals bound h2 = (q, h3)"
      by force
    then obtain vals' where "q = Inr vals'" "c' = c\<lparr>c_heap := h3, c_vow_vals := Some vals'\<rparr>"
      using rest Inr vb defaults_fails[of M 0 _ vals bound h2 _ h3] by (cases q) auto
    then show ?thesis
      using some[OF False] r Inr vb q by simp
  qed
qed

lemma bind_vows_array: "bind_vows M c bs = (GEAS_OK, c') \<Longrightarrow> c_vow_vals c = None \<Longrightarrow>
    array_ok (c_vow_vals c') (length (cd_vows (c_desc c)))"
  by (erule bind_vows_stages) (auto simp: array_ok_def dest!: overrides_length defaults_length)

definition vow_target :: "GeasContractDesc \<Rightarrow> GeasVowBinding list \<Rightarrow> nat \<Rightarrow> GeasValue option" where
  "vow_target d bs j =
     (case override_for d j bs of
        Some v \<Rightarrow> Some v
      | None \<Rightarrow> if vd_has_default (cd_vows d ! j) then Some (vd_default_value (cd_vows d ! j)) else None)"

lemma bind_vows_spec:
  assumes "bind_vows M c bs = (GEAS_OK, c')" "vows_wf (c_desc c) bs" "j < length (cd_vows (c_desc c))"
  shows "\<exists>vals v. c_vow_vals c' = Some vals \<and> vow_target (c_desc c) bs j = Some v \<and> same_value (vals ! j) v"
  using assms(1)
proof (cases rule: bind_vows_stages)
  case none
  then show ?thesis
    using assms(3) by simp
next
  case (some vals bound h1 h2 vals' h3)
  let ?d = "c_desc c"
  have wf: "\<forall>b\<in>set bs. wf_value (vb_value b)" "\<forall>v\<in>set (cd_vows ?d). vd_has_default v \<longrightarrow> wf_value (vd_default_value v)"
    using assms(2) by (auto simp: vows_wf_def)
  note over = overrides_spec[OF some(2) wf(1)]
  have "length vals = length (cd_vows ?d)"
    using overrides_length[OF some(2)] by simp
  note dflt = defaults_spec[OF some(3) wf(2), simplified, OF this]
  have "same_value (vals' ! j) v" if "override_for ?d j bs = Some v" for v
    using over dflt that assms(3) by (auto split: option.splits)
  moreover have "vd_has_default (cd_vows ?d ! j) \<and> same_value (vals' ! j) (vd_default_value (cd_vows ?d ! j))"
    if "override_for ?d j bs = None"
    using over dflt that assms(3) by (auto split: option.splits)
  ultimately show ?thesis
    using some(4) by (cases "override_for ?d j bs") (auto simp: vow_target_def)
qed

section \<open>A built instance\<close>

lemma resolve_fns_length: "resolve_fns bs cn i ps = Some fns \<Longrightarrow> length fns = length ps"
  by (induction ps arbitrary: i fns) (auto split: option.splits)

lemma resolve_fns_nth:
  "resolve_fns bs cn i ps = Some fns \<Longrightarrow> k < length ps \<Longrightarrow>
     Some (fns ! k) = (case find_binding bs (cn, i + k) of Some f \<Rightarrow> Some f | None \<Rightarrow> pd_fn (ps ! k))"
proof (induction ps arbitrary: i fns k)
  case (Cons p ps)
  obtain f fs where f: "(case find_binding bs (cn, i) of Some f \<Rightarrow> Some f | None \<Rightarrow> pd_fn p) = Some f"
      and fs: "resolve_fns bs cn (Suc i) ps = Some fs" "fns = f # fs"
    using Cons.prems(1) by (auto split: option.splits)
  show ?case
  proof (cases k)
    case (Suc j)
    then show ?thesis
      using Cons.IH[OF fs(1), of j] Cons.prems(2) fs(2) by (simp split: option.splits)
  qed (use f fs in \<open>simp split: option.splits\<close>)
qed simp

lemma resolve_dispatch_length: "resolve_dispatch ok bs d = Inr fns \<Longrightarrow> length fns = length (cd_pledges d)"
  by (auto simp: resolve_dispatch_def dest: resolve_fns_length split: if_splits option.splits)

lemma sign_fns_ok:
  "sign_fns M c fns = (GEAS_OK, c') \<Longrightarrow>
     c' = c\<lparr>c_heap := c_heap c', c_fns := (if cd_pledges (c_desc c) = [] then c_fns c else Some fns)\<rparr>"
  by (auto simp: sign_fns_def split: if_splits prod.splits bool.splits)

lemma mallocs_frame: "plain_mallocs M n c = (b, c') \<Longrightarrow> c' = c\<lparr>c_heap := c_heap c'\<rparr>"
  by (drule only_heap_mallocs) (auto simp: only_heap_def)

lemma sign_latches_ok:
  assumes "sign_latches M c = (GEAS_OK, c')"
  shows "c' = c\<lparr>c_heap := c_heap c',
      c_pledge_state := (if cd_pledges (c_desc c) = [] then c_pledge_state c
        else Some (replicate (length (cd_pledges (c_desc c))) PLEDGE_PENDING)),
      c_pledge_err := (if cd_pledges (c_desc c) = [] then c_pledge_err c
        else Some (replicate (length (cd_pledges (c_desc c))) gv_zero))\<rparr>"
proof -
  obtain b c1 where m: "plain_mallocs M 2 c = (b, c1)"
    by force
  show ?thesis
    using assms m mallocs_frame[OF m]
    by (cases "cd_pledges (c_desc c) = []"; cases b) (auto simp: sign_latches_def Let_def)
qed

lemma sign_txn_ok:
  assumes "sign_txn M c = (GEAS_OK, c')"
  shows "c' = c\<lparr>c_heap := c_heap c', c_sub_txn := (if cd_subs (c_desc c) = [] then c_sub_txn c
      else Some (replicate (length (cd_subs (c_desc c))) TXN_NONE))\<rparr>"
proof -
  obtain b c1 where m: "plain_mallocs M 1 c = (b, c1)"
    by force
  show ?thesis
    using assms m mallocs_frame[OF m]
    by (cases "cd_subs (c_desc c) = []"; cases b) (auto simp: sign_txn_def Let_def)
qed

lemma store_sign_frame:
  assumes "store_sign_reconcile S M c w = (st, c', w')"
  shows "c' = c\<lparr>c_heap := c_heap c', c_store := c_store c'\<rparr>"
proof -
  obtain b c1 where m: "plain_mallocs M 1 c = (b, c1)"
    by force
  have c1: "c1 = c\<lparr>c_heap := c_heap c1\<rparr>"
    by (rule mallocs_frame[OF m])
  have "c' = c \<or> c' = c1 \<or> (\<exists>db. c' = c1\<lparr>c_store := Some db\<rparr>)"
    using assms m unfolding store_sign_reconcile_def
    by (auto split: if_splits option.splits GeasValue.splits prod.splits sum.splits bool.splits)
  then show ?thesis
    using c1 by (auto simp: m)
qed


lemma sign_build_stages:
  assumes "sign_build S M now d fns vows w = (GEAS_OK, c, w')"
  obtains c1 c2 c3 c4 c5 where "sign_fns M (fresh_contract d) fns = (GEAS_OK, c1)"
    "bind_vows M c1 vows = (GEAS_OK, c2)" "sign_latches M c2 = (GEAS_OK, c3)" "sign_txn M c3 = (GEAS_OK, c4)"
    "store_sign_reconcile S M c4 w = (GEAS_OK, c5, w')"
    "c = c5\<lparr>c_state := GEAS_SIGNED, c_shape_hash := cd_shape_hash d, c_signed_at := now\<rparr>"
  using assms unfolding sign_build_def by (auto split: prod.splits if_splits)

text \<open>What sign builds: everything the descriptor promises, in its initial state.\<close>

definition built :: "GeasContractDesc \<Rightarrow> fn_addr list \<Rightarrow> u64 \<Rightarrow> GeasContract \<Rightarrow> bool" where
  "built d fns now c \<longleftrightarrow>
     c_desc c = d \<and> c_state c = GEAS_SIGNED \<and> c_shape_hash c = cd_shape_hash d \<and> c_signed_at c = now \<and>
     c_futures c = [] \<and>
     c_fns c = (if cd_pledges d = [] then None else Some fns) \<and>
     c_pledge_state c = (if cd_pledges d = [] then None else Some (replicate (length (cd_pledges d)) PLEDGE_PENDING)) \<and>
     c_pledge_err c = (if cd_pledges d = [] then None else Some (replicate (length (cd_pledges d)) gv_zero)) \<and>
     c_sub_txn c = (if cd_subs d = [] then None else Some (replicate (length (cd_subs d)) TXN_NONE)) \<and>
     array_ok (c_vow_vals c) (length (cd_vows d))"

lemma sign_build_built:
  assumes "sign_build S M now d fns vows w = (GEAS_OK, c, w')"
  shows "built d fns now c"
  using assms
proof (cases rule: sign_build_stages)
  case (1 c1 c2 c3 c4 c5)
  define h1 v2 h2 h3 h4 h5 st where "h1 = c_heap c1" "v2 = c_vow_vals c2" "h2 = c_heap c2" "h3 = c_heap c3"
    "h4 = c_heap c4" "h5 = c_heap c5" "st = c_store c5"
  note hs = this
  have c1: "c1 = (fresh_contract d)\<lparr>c_heap := h1, c_fns := (if cd_pledges d = [] then None else Some fns)\<rparr>"
    by (rule trans[OF sign_fns_ok[OF 1(1), folded hs]]) (simp add: fresh_contract_def)
  have c2: "c2 = c1\<lparr>c_heap := h2, c_vow_vals := v2\<rparr>"
    using bind_vows_frame[OF 1(2)] by (simp add: hs)
  have a: "array_ok v2 (length (cd_vows d))"
    using bind_vows_array[OF 1(2)] by (simp add: c1 fresh_contract_def hs(2))
  note c3 = sign_latches_ok[OF 1(3), folded hs]
  note c4 = sign_txn_ok[OF 1(4), folded hs]
  note c5 = store_sign_frame[OF 1(5), folded hs]
  show ?thesis
    unfolding 1(6) c5 c4 c3 c2 c1 built_def by (simp add: fresh_contract_def a)
qed

lemma sign_build_vows:
  assumes "sign_build S M now d fns vows w = (GEAS_OK, c, w')" "vows_wf d vows" "j < length (cd_vows d)"
  shows "\<exists>vals v. c_vow_vals c = Some vals \<and> vow_target d vows j = Some v \<and> same_value (vals ! j) v"
  using assms(1)
proof (cases rule: sign_build_stages)
  case (1 c1 c2 c3 c4 c5)
  have d: "c_desc c1 = d"
    by (subst sign_fns_ok[OF 1(1)]) (simp add: fresh_contract_def)
  have "c_vow_vals c = c_vow_vals c4"
    by (simp add: 1(6)) (subst store_sign_frame[OF 1(5)], simp)
  also have "\<dots> = c_vow_vals c3"
    by (subst sign_txn_ok[OF 1(4)]) simp
  also have "\<dots> = c_vow_vals c2"
    by (subst sign_latches_ok[OF 1(3)]) simp
  finally show ?thesis
    using bind_vows_spec[OF 1(2), of j] assms(2,3) d by simp
qed

end
