(* ===== verification/Geas_System_Facts.thy ===== *)
theory Geas_System_Facts
  imports Geas_Park Geas_Sign_Facts Geas_Store_Facts Geas_Iname_Facts Geas_Policy_Props
begin

text \<open>
  The steps of the runtime in any order (\<open>api\<close>), how instances and futures can evolve under them
  (\<open>evolves\<close>, a preorder), and the invariant of every reachable state (\<open>sys_ok\<close>).
\<close>

section \<open>Selectors\<close>

lemma set_con_sel [simp]:
  "s_con (set_con i c s) = (s_con s)(i \<mapsto> c)" "s_fut (set_con i c s) = s_fut s"
  "s_queue (set_con i c s) = s_queue s" "s_threads (set_con i c s) = s_threads s"
  "s_next (set_con i c s) = s_next s" "s_instances (set_con i c s) = s_instances s"
  "s_world (set_con i c s) = s_world s" "s_host (set_con i c s) = s_host s" "s_reg (set_con i c s) = s_reg s"
  by (simp_all add: set_con_def)

lemma set_fut_sel [simp]:
  "s_fut (set_fut i f s) = (s_fut s)(i \<mapsto> f)" "s_con (set_fut i f s) = s_con s"
  "s_queue (set_fut i f s) = s_queue s" "s_threads (set_fut i f s) = s_threads s"
  "s_next (set_fut i f s) = s_next s" "s_instances (set_fut i f s) = s_instances s"
  "s_world (set_fut i f s) = s_world s" "s_host (set_fut i f s) = s_host s" "s_reg (set_fut i f s) = s_reg s"
  by (simp_all add: set_fut_def)

section \<open>Steps\<close>

text \<open>A receipt a host can hold: the future is on its instance and the call that made it has returned.\<close>

definition preparing :: "'w sys \<Rightarrow> nat \<Rightarrow> bool" where
  "preparing s fid =
     list_ex (\<lambda>t. case t of TPrepare g n a r \<Rightarrow> g = fid | TEnqueue g \<Rightarrow> g = fid | _ \<Rightarrow> False) (s_threads s)"

definition linked :: "'w sys \<Rightarrow> nat \<Rightarrow> bool" where
  "linked s fid \<longleftrightarrow>
     (\<exists>f c. s_fut s fid = Some f \<and> s_con s (f_c f) = Some c \<and> fid \<in> set (c_futures c))"

definition receipt :: "'w sys \<Rightarrow> nat \<Rightarrow> bool" where
  "receipt s fid \<longleftrightarrow> linked s fid \<and> \<not> preparing s fid"

text \<open>A pledge body acts on the system through a sequence of such steps, its own and those of the
  threads that run meanwhile, and keeps the width of its frame.\<close>

inductive api :: "'w env \<Rightarrow> 'w sys \<Rightarrow> 'w sys \<Rightarrow> bool" for E where
  registry: "registry_step M (s_reg s) rg \<Longrightarrow> api E s (s\<lparr>s_reg := rg\<rparr>)"
| bind: "geas_pledge_bind (s_reg s) (s_bindings s) name f = (st, bs) \<Longrightarrow> api E s (s\<lparr>s_bindings := bs\<rparr>)"
| sign: "geas_contract_sign E name vows hash s = (r, s') \<Longrightarrow> api E s s'"
| brk: "geas_contract_break E i s = (st, s') \<Longrightarrow> api E s s'"
| new: "s_con s i \<noteq> None \<Longrightarrow> future_new E i s = (Some fid, s1) \<Longrightarrow>
    api E s (s1\<lparr>s_threads := TPrepare fid name args refs # s_threads s1\<rparr>)"
| new_fail: "future_new E i s = (None, s') \<Longrightarrow> api E s s'"
| prepare: "TPrepare fid name args refs \<in> set (s_threads s) \<Longrightarrow>
    prepare_step E fid name args refs s = (st, s1) \<Longrightarrow>
    api E s (swap_thread (TPrepare fid name args refs) (if st = GEAS_OK then [TEnqueue fid] else []) s1)"
| enqueue: "TEnqueue fid \<in> set (s_threads s) \<Longrightarrow>
    api E s (swap_thread (TEnqueue fid) [] (enqueue_step fid s))"
| dequeue: "pool_dequeue s = Some (fid, s1) \<Longrightarrow> api E s (s1\<lparr>s_threads := TRun fid # s_threads s1\<rparr>)"
| run: "TRun fid \<in> set (s_threads s) \<Longrightarrow>
    \<forall>fn i fr s0 st out fr' s1. T fn i fr s0 = (st, out, fr', s1) \<longrightarrow>
      (api E)\<^sup>*\<^sup>* s0 s1 \<and> map_option length fr' = map_option length fr \<Longrightarrow>
    api E s (swap_thread (TRunning fid) [TDrop fid]
      (run_task E T fid (swap_thread (TRun fid) [TRunning fid] s)))"
| drop: "TDrop fid \<in> set (s_threads s) \<Longrightarrow> api E s (swap_thread (TDrop fid) [] (future_unref fid s))"
| wait: "receipt s fid \<Longrightarrow> geas_future_wait E fid s = Some (st, out, s') \<Longrightarrow> api E s s'"
| release: "receipt s fid \<Longrightarrow> s_fut s fid = Some f \<Longrightarrow> f_waited f \<Longrightarrow> api E s (future_release fid s)"
| inline: "s_con s i \<noteq> None \<Longrightarrow>
    \<forall>fn i fr s0 st out fr' s1. T fn i fr s0 = (st, out, fr', s1) \<longrightarrow>
      (api E)\<^sup>*\<^sup>* s0 s1 \<and> map_option length fr' = map_option length fr \<Longrightarrow>
    fulfill_inline E T i name args refs s = (st, out, s') \<Longrightarrow> api E s s'"
| heap: "s_con s i = Some c \<Longrightarrow> only_heap c c' \<Longrightarrow> api E s (set_con i c' (s\<lparr>s_world := w\<rparr>))"
| park: "geas_instance_park E i dsn key s = (st, s') \<Longrightarrow> api E s s'"
| resume: "geas_instance_resume E dsn key hash s = Some (r, s') \<Longrightarrow> api E s s'"
| host: "api E s (s\<lparr>s_host := H\<rparr>)"

definition body_ok :: "'w env \<Rightarrow> 'w thunk \<Rightarrow> bool" where
  "body_ok E T \<longleftrightarrow> (\<forall>fn i fr s0 st out fr' s1. T fn i fr s0 = (st, out, fr', s1) \<longrightarrow>
      (api E)\<^sup>*\<^sup>* s0 s1 \<and> map_option length fr' = map_option length fr)"

section \<open>How an instance evolves\<close>

definition latch_le :: "latch \<Rightarrow> latch \<Rightarrow> bool" where
  "latch_le p q \<longleftrightarrow> p = PLEDGE_PENDING \<or> q = p"

definition txn_le :: "txn \<Rightarrow> txn \<Rightarrow> bool" where
  "txn_le p q \<longleftrightarrow> p = TXN_NONE \<or> q = p \<or> p = TXN_OPEN \<and> q = TXN_DONE"

definition con_evolves :: "GeasContract \<Rightarrow> GeasContract \<Rightarrow> bool" where
  "con_evolves c c' \<longleftrightarrow>
     c_desc c' = c_desc c \<and> c_shape_hash c' = c_shape_hash c \<and> c_signed_at c' = c_signed_at c \<and>
     (c_state c = GEAS_BROKEN \<longrightarrow> c_state c' = GEAS_BROKEN) \<and>
     (c_state c \<noteq> GEAS_UNSIGNED \<longrightarrow> c_state c' \<noteq> GEAS_UNSIGNED) \<and>
     rel_option (list_all2 latch_le) (c_pledge_state c) (c_pledge_state c') \<and>
     rel_option (list_all2 txn_le) (c_sub_txn c) (c_sub_txn c') \<and>
     (c_store c' = c_store c \<or> c_store c' = None)"

text \<open>Facts on slot arrays: every slot moves along a preorder.\<close>

lemma slots_refl: "reflp R \<Longrightarrow> rel_option (list_all2 R) x x"
  by (auto simp: reflp_def intro!: option.rel_refl list.rel_refl)

lemma slots_trans:
  assumes "transp R" "rel_option (list_all2 R) x y" "rel_option (list_all2 R) y z"
  shows "rel_option (list_all2 R) x z"
proof -
  have "transp (rel_option (list_all2 R))"
    by (intro option.rel_transp list.rel_transp assms(1))
  then show ?thesis
    using assms(2,3) by (rule transpD)
qed

lemma slots_update: "reflp R \<Longrightarrow> R (xs ! i) q \<Longrightarrow> list_all2 R xs (xs[i := q])"
  unfolding list_all2_conv_all_nth reflp_def by (metis length_list_update nth_list_update_eq nth_list_update_neq)

lemma latch_order: "reflp latch_le" "transp latch_le"
  by (auto simp: latch_le_def reflp_def transp_def)

lemma txn_order: "reflp txn_le" "transp txn_le"
  by (auto simp: txn_le_def reflp_def transp_def)

lemmas latch_rel_refl [simp] = slots_refl[OF latch_order(1)]
lemmas txn_rel_refl [simp] = slots_refl[OF txn_order(1)]
lemma slot_list_refl [simp]: "list_all2 latch_le ps ps" "list_all2 txn_le ts ts"
  using latch_order txn_order by (auto simp: reflp_def intro: list.rel_refl)

lemmas latch_rel_trans = slots_trans[OF latch_order(2)]
lemmas txn_rel_trans = slots_trans[OF txn_order(2)]

lemma con_evolves_refl [simp]: "con_evolves c c"
  by (simp add: con_evolves_def)

lemma con_evolves_trans: "con_evolves a b \<Longrightarrow> con_evolves b c \<Longrightarrow> con_evolves a c"
  unfolding con_evolves_def using latch_rel_trans txn_rel_trans by (elim conjE, intro conjI) metis+

lemma con_evolves_heap [simp]: "con_evolves c (c\<lparr>c_heap := h\<rparr>)" "con_evolves c (c\<lparr>c_futures := fs\<rparr>)"
  by (simp_all add: con_evolves_def)

lemma con_evolves_only_heap: "only_heap c c' \<Longrightarrow> con_evolves c c'"
  by (auto simp: only_heap_def)

lemma latch_pledge_evolves: "con_evolves c (latch_pledge c i out)"
proof -
  have *: "list_all2 latch_le ps (ps[i := q])" if "ps ! i = PLEDGE_PENDING" for ps q
    using that by (intro slots_update latch_order) (simp add: latch_le_def)
  show ?thesis
    by (auto simp: latch_pledge_def con_evolves_def Let_def * split: option.split)
qed

lemma eval_policy_evolves: "con_evolves c (eval_policy c)"
  by (simp add: eval_policy_def con_evolves_def Let_def)

lemma txn_step_le:
  "q = TXN_DONE \<and> ts ! s \<noteq> TXN_NONE \<or> ts ! s = TXN_NONE \<Longrightarrow> list_all2 txn_le ts (ts[s := q])"
  by (intro slots_update txn_order) (cases "ts ! s"; auto simp: txn_le_def)

lemma txn_before_evolves: "txn_before S c pidx w = (st, c', w') \<Longrightarrow> con_evolves c c'"
  unfolding txn_before_def
  by (auto simp: con_evolves_def txn_step_le split: option.splits if_splits prod.splits)

lemma txn_after_evolves: "txn_after S c pidx st out w = (st', c', w') \<Longrightarrow> con_evolves c c'"
  unfolding txn_after_def Let_def
  by (auto simp: con_evolves_def txn_step_le split: option.splits if_splits prod.splits)

lemma break_evolves: "break_contract S c w = (c', w') \<Longrightarrow> con_evolves c c'"
  by (auto simp: break_contract_def con_evolves_def contract_free_owned_def Let_def)

section \<open>How the system evolves\<close>

definition outcome :: "GeasFuture \<Rightarrow> GeasStatus \<times> GeasValue" where
  "outcome f = (f_status f, f_value f)"

text \<open>A published outcome stays, unless a break forfeits a future nobody has waited for.\<close>

definition fut_evolves :: "GeasFuture \<Rightarrow> GeasFuture \<Rightarrow> bool" where
  "fut_evolves f g \<longleftrightarrow>
     f_c g = f_c f \<and> (f_waited f \<longrightarrow> f_waited g) \<and>
     (f_done f \<longrightarrow> f_done g \<and>
        (outcome g = outcome f \<or> \<not> f_waited f \<and> outcome g = (GEAS_ERR_STATE, gv_zero)))"

lemma fut_evolves_refl [simp]: "fut_evolves f f"
  by (simp add: fut_evolves_def)

lemma fut_evolves_trans: "fut_evolves f g \<Longrightarrow> fut_evolves g h \<Longrightarrow> fut_evolves f h"
  by (auto simp: fut_evolves_def)

definition evolves :: "'w sys \<Rightarrow> 'w sys \<Rightarrow> bool" where
  "evolves s s' \<longleftrightarrow>
     s_next s \<le> s_next s' \<and>
     (\<forall>i c. s_con s i = Some c \<longrightarrow> (\<exists>c'. s_con s' i = Some c' \<and> con_evolves c c')) \<and>
     (\<forall>fid g. fid < s_next s \<longrightarrow> s_fut s' fid = Some g \<longrightarrow> (\<exists>f. s_fut s fid = Some f \<and> fut_evolves f g))"

lemma evolves_refl [simp]: "evolves s s"
  by (simp add: evolves_def)

lemma evolves_con_D: "evolves s s' \<Longrightarrow> s_con s i = Some c \<Longrightarrow> \<exists>c'. s_con s' i = Some c' \<and> con_evolves c c'"
  unfolding evolves_def by blast

lemma evolves_fut_D:
  "evolves s s' \<Longrightarrow> fid < s_next s \<Longrightarrow> s_fut s' fid = Some g \<Longrightarrow> \<exists>f. s_fut s fid = Some f \<and> fut_evolves f g"
  unfolding evolves_def by blast

lemma evolves_trans:
  assumes "evolves a b" "evolves b c"
  shows "evolves a c"
  unfolding evolves_def
proof (intro conjI allI impI)
  show "s_next a \<le> s_next c"
    using assms by (auto simp: evolves_def)
next
  fix i x
  assume "s_con a i = Some x"
  then obtain y where "s_con b i = Some y" "con_evolves x y"
    using evolves_con_D[OF assms(1)] by blast
  moreover from this(1) obtain z where "s_con c i = Some z" "con_evolves y z"
    using evolves_con_D[OF assms(2)] by blast
  ultimately show "\<exists>c'. s_con c i = Some c' \<and> con_evolves x c'"
    using con_evolves_trans by blast
next
  fix fid h
  assume "fid < s_next a" "s_fut c fid = Some h"
  moreover then obtain g where "s_fut b fid = Some g" "fut_evolves g h"
    using assms unfolding evolves_def by (meson less_le_trans)
  moreover from calculation obtain f where "s_fut a fid = Some f" "fut_evolves f g"
    using assms(1) unfolding evolves_def by meson
  ultimately show "\<exists>f. s_fut a fid = Some f \<and> fut_evolves f h"
    using fut_evolves_trans by blast
qed

text \<open>Steps that leave instances and futures alone.\<close>

lemma evolves_same:
  "s_con s' = s_con s \<Longrightarrow> s_fut s' = s_fut s \<Longrightarrow> s_next s' = s_next s \<Longrightarrow> evolves s s'"
  by (auto simp: evolves_def)

lemma evolves_frame [simp]:
  "evolves s (s\<lparr>s_reg := rg\<rparr>)" "evolves s (s\<lparr>s_bindings := bs\<rparr>)" "evolves s (s\<lparr>s_queue := q\<rparr>)"
  "evolves s (s\<lparr>s_threads := ts\<rparr>)" "evolves s (s\<lparr>s_calls := n\<rparr>)" "evolves s (s\<lparr>s_host := H\<rparr>)"
  "evolves s (s\<lparr>s_world := w\<rparr>)" "evolves s (swap_thread t us s)" "evolves s (pool_enqueue fid s)"
  by (simp_all add: evolves_same swap_thread_def pool_enqueue_def)

lemma evolves_con:
  "s_con s i = Some c \<Longrightarrow> con_evolves c c' \<Longrightarrow> evolves s (set_con i c' s)"
  by (auto simp: evolves_def set_con_def)

lemma evolves_fut:
  "s_fut s fid = Some f \<Longrightarrow> fut_evolves f g \<Longrightarrow> evolves s (set_fut fid g s)"
  by (auto simp: evolves_def set_fut_def)

lemma evolves_free: "evolves s (future_free fid s)"
  by (auto simp: evolves_def future_free_def)

lemma evolves_unref: "evolves s (future_unref fid s)"
  unfolding future_unref_def Let_def
  by (auto simp: evolves_free fut_evolves_def outcome_def intro: evolves_fut split: option.split)

lemma finish_evolves: "fut_evolves f (finish st val f)"
  by (simp add: finish_def fut_evolves_def)

lemma forfeit_evolves: "fut_evolves f (forfeit f)"
  by (simp add: forfeit_def fut_evolves_def outcome_def)

lemma evolves_finish: "evolves s (future_finish fid st val s)"
  unfolding future_finish_def by (auto intro: evolves_fut finish_evolves split: option.split)

lemma evolves_forfeit: "evolves s (future_forfeit fid s)"
  unfolding future_forfeit_def by (auto intro: evolves_fut forfeit_evolves split: option.split)

lemma evolves_forfeit_all: "evolves s (fold future_forfeit fids s)"
  by (induction fids arbitrary: s) (auto intro: evolves_trans evolves_forfeit)

lemma forfeit_all_frame [simp]:
  "s_con (fold future_forfeit fids s) = s_con s" "s_world (fold future_forfeit fids s) = s_world s"
  "s_queue (fold future_forfeit fids s) = s_queue s" "s_threads (fold future_forfeit fids s) = s_threads s"
  "s_next (fold future_forfeit fids s) = s_next s" "s_instances (fold future_forfeit fids s) = s_instances s"
  by (induction fids arbitrary: s)
    (auto simp: future_forfeit_def set_fut_def split: option.split)

lemma evolves_release: "evolves s (future_release fid s)"
  unfolding future_release_def
  by (auto intro: evolves_trans[OF evolves_con evolves_unref] split: option.split)

lemma evolves_break: "geas_contract_break E i s = (st, s') \<Longrightarrow> evolves s s'"
  unfolding geas_contract_break_def Let_def
  by (auto split: option.splits if_splits prod.splits dest!: break_evolves
      intro!: evolves_trans[OF evolves_trans[OF evolves_forfeit_all evolves_frame(7)] evolves_con])

lemma evolves_alloc: "sys_alloc E s = (b, s') \<Longrightarrow> evolves s s'"
  by (auto simp: sys_alloc_def)

lemma evolves_new:
  assumes "future_new E i s = (r, s')" "r = None \<or> s_con s i \<noteq> None"
  shows "evolves s s'"
proof (cases r)
  case None
  then show ?thesis
    using assms(1) unfolding future_new_def sys_alloc_def
    by (auto simp: Let_def evolves_same split: prod.splits bool.splits)
next
  case (Some fid)
  then obtain c n where c: "s_con s i = Some c" and s': "s' =
      set_con i (c\<lparr>c_futures := s_next s # c_futures c\<rparr>)
        (set_fut (s_next s) (fresh_future i) (s\<lparr>s_calls := n, s_next := Suc (s_next s)\<rparr>))"
    using assms unfolding future_new_def sys_alloc_def
    by (auto simp: Let_def split: prod.splits bool.splits)
  show ?thesis
    using c by (auto simp: s' evolves_def set_con_def set_fut_def)
qed

lemma prepare_fut: "fulfill_prepare M H c name args refs f = (st, h, f') \<Longrightarrow> fut_evolves f f'"
  unfolding fulfill_prepare_def
  by (auto simp: fut_evolves_def outcome_def split: sum.splits prod.splits bool.splits)

lemma evolves_prepare:
  assumes "prepare_step E fid name args refs s = (st, s')" "s_fut s fid = Some f" "s_con s (f_c f) = Some c"
  shows "evolves s s'"
proof -
  obtain st0 h f' where p: "fulfill_prepare (e_malloc E (f_c f)) (s_host s) c name args refs f = (st0, h, f')"
    by (metis prod_cases3)
  let ?s = "set_fut fid f' (set_con (f_c f) (c\<lparr>c_heap := h\<rparr>) s)"
  have "evolves s (set_con (f_c f) (c\<lparr>c_heap := h\<rparr>) s)"
    using assms(3) by (rule evolves_con) simp
  also have "s_fut (set_con (f_c f) (c\<lparr>c_heap := h\<rparr>) s) fid = Some f"
    using assms(2) by (simp add: set_con_def)
  note evolves_fut[OF this prepare_fut[OF p]]
  finally (evolves_trans) have "evolves s ?s" .
  moreover from this have "evolves s (future_finish fid st0 None ?s)"
    by (rule evolves_trans[OF _ evolves_finish])
  moreover have "s' = (if st0 \<noteq> GEAS_OK then future_finish fid st0 None ?s else ?s)"
    using assms p by (auto simp: prepare_step_def Let_def split: if_splits)
  ultimately show ?thesis
    by simp
qed

lemma evolves_enqueue: "evolves s (enqueue_step fid s)"
proof (cases "s_fut s fid")
  case (Some f)
  have "evolves s (set_fut fid (f\<lparr>f_refcnt := 2\<rparr>) s)"
    using Some by (rule evolves_fut) (simp add: fut_evolves_def outcome_def)
  then show ?thesis
    by (simp add: enqueue_step_def Some evolves_trans[OF _ evolves_frame(9)])
qed (simp add: enqueue_step_def)

lemma evolves_wait: "geas_future_wait E fid s = Some (st, out, s') \<Longrightarrow> evolves s s'"
  unfolding geas_future_wait_def Let_def
  by (auto simp: fut_evolves_def outcome_def split: option.splits if_splits prod.splits
      intro!: evolves_trans[OF evolves_frame(6) evolves_fut])

text \<open>The ways a run of a pledge can go.\<close>

lemma run_body_cases:
  assumes "run_body E T i fn pidx fr s = (st, val, fr', s')" "s_con s i = Some c"
  obtains (gate) c0 w where "txn_before (e_sqlite E) c pidx (s_world s) = (st, c0, w)" "st \<noteq> GEAS_OK"
      "val = None" "fr' = fr" "s' = set_con i c0 (s\<lparr>s_world := w\<rparr>)"
  | (ran) c0 w st1 out s1 c3 w' where
      "txn_before (e_sqlite E) c pidx (s_world s) = (GEAS_OK, c0, w)"
      "T fn i fr (set_con i c0 (s\<lparr>s_world := w\<rparr>)) = (st1, out, fr', s1)"
      "txn_after (e_sqlite E) (latch_outcome st1 pidx out (the (s_con s1 i))) pidx st1 out (s_world s1) =
         (st, c3, w')" "val = Some out" "s' = set_con i c3 (s1\<lparr>s_world := w'\<rparr>)"
  using assms unfolding run_body_def by (auto split: prod.splits if_splits)

lemma latch_outcome_evolves: "con_evolves c (latch_outcome st pidx out c)"
  unfolding latch_outcome_def using con_evolves_trans[OF latch_pledge_evolves eval_policy_evolves] by simp

lemma evolves_con_world:
  "s_con s i = Some c \<Longrightarrow> con_evolves c c' \<Longrightarrow> evolves s (set_con i c' (s\<lparr>s_world := w\<rparr>))"
  by (rule evolves_trans[OF evolves_frame(7) evolves_con]) auto

lemma evolves_finish_frame:
  assumes "s_fut s fid = Some f"
  shows "evolves s (future_finish fid st val (set_fut fid (set_frame fr f) s))"
  using assms
  by (intro evolves_trans[OF evolves_fut evolves_finish]) (auto simp: set_frame_def fut_evolves_def outcome_def)

lemma run_task_cases:
  assumes "s_fut s fid = Some f" "s_con s (f_c f) = Some c"
  obtains (refused) "\<not> runnable (c_state c)" "run_task E T fid s = future_finish fid GEAS_ERR_STATE None s"
  | (ran) st val fr' s1 where "runnable (c_state c)"
      "run_body E T (f_c f) (f_fn f) (f_pidx f) (f_frame f) s = (st, val, fr', s1)"
      "run_task E T fid s = (case s_fut s1 fid of None \<Rightarrow> s1
         | Some f1 \<Rightarrow> future_finish fid st val (set_fut fid (set_frame fr' f1) s1))"
  using assms unfolding run_task_def
  by (cases "run_body E T (f_c f) (f_fn f) (f_pidx f) (f_frame f) s") auto

lemma inline_cases:
  assumes "fulfill_inline E T i name args refs s = (st, out, s')" "s_con s i = Some c"
  obtains (refused) "s' = s" "out = None" "st \<noteq> GEAS_OK"
  | (copy) h where "s' = set_con i (c\<lparr>c_heap := h\<rparr>) s" "out = None"
  | (ran) p fr h st1 val fr' s1 H where "runnable (c_state c)" "find_pledge (c_desc c) name = Some p"
      "run_body E T i (the (c_fns c) ! p) p fr (set_con i (c\<lparr>c_heap := h\<rparr>) s) = (st1, val, fr', s1)"
      "s' = s1\<lparr>s_host := H\<rparr>"
proof -
  show ?thesis
  proof (cases "fulfill_check c name (length args) (length refs)")
    case (Inl e)
    then have "e \<noteq> GEAS_OK"
      by (auto simp: fulfill_check_def split: if_splits option.splits)
    then show ?thesis
      using assms Inl that(1) by (auto simp: fulfill_inline_def)
  next
    case (Inr p)
    obtain r h where pf: "prepare_frame (e_malloc E i) (s_host s) args refs (c_heap c) = (r, h)"
      by force
    show ?thesis
    proof (cases r)
      case (Inl e)
      then show ?thesis
        using assms Inr pf that(2) by (auto simp: fulfill_inline_def)
    next
      case frame: (Inr fr)
      obtain st1 val fr' s1 where rb: "run_body E T i (the (c_fns c) ! p) p fr (set_con i (c\<lparr>c_heap := h\<rparr>) s) =
          (st1, val, fr', s1)"
        by (metis prod_cases4)
      have "\<exists>H. s' = s1\<lparr>s_host := H\<rparr>"
        using assms Inr pf frame rb by (auto simp: fulfill_inline_def split: if_splits option.splits prod.splits)
          (metis sys.surjective sys.update_convs(12))+
      moreover have "runnable (c_state c)" "find_pledge (c_desc c) name = Some p"
        using Inr by (auto simp: fulfill_check_def split: if_splits option.splits)
      ultimately show ?thesis
        using that(3) rb by blast
    qed
  qed
qed

text \<open>Sign either publishes a fresh address or changes no instance.\<close>

lemma built_cases:
  assumes "publish_built S (st, c, w) s = (r, s')"
  obtains (refused) st' w' where "r = Inl st'" "s' = s\<lparr>s_next := Suc (s_next s), s_world := w'\<rparr>"
  | (published) "st = GEAS_OK" "r = Inr (s_next s)" "length (s_instances s) \<noteq> GEAS_MAX_INSTANCES"
      "s' = set_con (s_next s) c (s\<lparr>s_next := Suc (s_next s), s_instances := s_instances s @ [s_next s], s_world := w\<rparr>)"
  using assms unfolding publish_built_def Let_def by (auto split: if_splits)

lemma publish_cases:
  assumes "sign_publish E d fns vows s = (r, s')"
  obtains (refused) st w where "r = Inl st" "s' = s\<lparr>s_next := Suc (s_next s), s_world := w\<rparr>"
  | (signed) c w where "r = Inr (s_next s)"
      "sign_build (e_sqlite E) (e_malloc E (s_next s)) (e_time E (s_calls s)) d fns vows (s_world s) = (GEAS_OK, c, w)"
      "length (s_instances s) \<noteq> GEAS_MAX_INSTANCES"
      "s' = set_con (s_next s) c (s\<lparr>s_next := Suc (s_next s), s_instances := s_instances s @ [s_next s], s_world := w\<rparr>)"
proof -
  obtain st c w where b: "sign_build (e_sqlite E) (e_malloc E (s_next s)) (e_time E (s_calls s)) d fns vows (s_world s) = (st, c, w)"
    by (metis prod_cases3)
  have "publish_built (e_sqlite E) (st, c, w) s = (r, s')"
    using assms b by (simp add: sign_publish_def)
  then show ?thesis
    by (cases rule: built_cases) (use b refused signed in auto)
qed

lemma sign_cases:
  assumes "geas_contract_sign E name vows hash s = (r, s')"
  obtains (refused) st n where "r = Inl st" "s' = s\<lparr>s_calls := n\<rparr>"
  | (publish) d fns n where "find_desc (s_reg s) name = Some d" "hash = 0 \<or> hash = cd_shape_hash d"
      "resolve_fns (s_bindings s) (cd_name d) 0 (cd_pledges d) = Some fns"
      "sign_publish E d fns vows (s\<lparr>s_calls := n\<rparr>) = (r, s')"
proof (cases "find_desc (s_reg s) name")
  case None
  with assms that(1)[of GEAS_ERR_NAME "s_calls s"] show ?thesis
    by (auto simp: geas_contract_sign_def)
next
  case (Some d)
  show ?thesis
  proof (cases "hash \<noteq> 0 \<and> hash \<noteq> cd_shape_hash d")
    case True
    with assms Some that(1)[of GEAS_ERR_VERSION "s_calls s"] show ?thesis
      by (auto simp: geas_contract_sign_def)
  next
    case False
    define n where "n = s_calls s + (if cd_pledges d = [] then 0 else 1)"
    define ok where "ok = (if cd_pledges d = [] then True else e_alloc E (s_calls s))"
    have pre: "(if cd_pledges d = [] then (True, s) else sys_alloc E s) = (ok, s\<lparr>s_calls := n\<rparr>)"
      by (simp add: ok_def n_def sys_alloc_def)
    show ?thesis
    proof (cases "resolve_dispatch ok (s_bindings s) d")
      case (Inl e)
      with assms Some False pre that(1)[of e n] show ?thesis
        by (auto simp: geas_contract_sign_def)
    next
      case (Inr fns)
      have fns: "resolve_fns (s_bindings s) (cd_name d) 0 (cd_pledges d) = Some fns"
        using Inr by (auto simp: resolve_dispatch_def split: if_splits option.splits)
      consider "\<not> e_alloc E n" | "e_alloc E n" "\<not> e_alloc E (Suc n)" | "e_alloc E n" "e_alloc E (Suc n)"
        by blast
      then show ?thesis
      proof cases
        case 1
        with assms Some False pre Inr that(1)[of GEAS_ERR_OOM "Suc n"] show ?thesis
          by (auto simp: geas_contract_sign_def sys_alloc_def)
      next
        case 2
        with assms Some False pre Inr that(1)[of GEAS_ERR_OOM "Suc (Suc n)"] show ?thesis
          by (auto simp: geas_contract_sign_def sys_alloc_def)
      next
        case 3
        with assms Some False pre Inr have "sign_publish E d fns vows (s\<lparr>s_calls := Suc (Suc n)\<rparr>) = (r, s')"
          by (auto simp: geas_contract_sign_def sys_alloc_def)
        then show ?thesis
          using that(2) Some False fns by blast
      qed
    qed
  qed
qed

lemma evolves_sign:
  assumes "geas_contract_sign E name vows hash s = (r, s')" "s_con s (s_next s) = None"
  shows "evolves s s'"
  using assms(1)
proof (cases rule: sign_cases)
  case (publish d fns n)
  from publish(4) show ?thesis
    by (cases rule: publish_cases) (use assms(2) in \<open>auto simp: evolves_def set_con_def\<close>)
qed simp

section \<open>The invariant\<close>

text \<open>An instance: one latch and one payload slot per pledge, one transaction slot per subcontract, and
  until it breaks a dispatch entry per pledge and a value per vow.\<close>

definition con_ok :: "GeasContract \<Rightarrow> bool" where
  "con_ok c \<longleftrightarrow>
     latches_ok c \<and> array_ok (c_sub_txn c) (length (cd_subs (c_desc c))) \<and> c_state c \<noteq> GEAS_UNSIGNED \<and>
     (c_state c = GEAS_BROKEN \<or>
        array_ok (c_fns c) (length (cd_pledges (c_desc c))) \<and>
        array_ok (c_vow_vals c) (length (cd_vows (c_desc c))))"

lemma latches_ok_cong:
  "c_desc c' = c_desc c \<Longrightarrow> c_pledge_state c' = c_pledge_state c \<Longrightarrow> c_pledge_err c' = c_pledge_err c \<Longrightarrow>
     latches_ok c' = latches_ok c"
  by (simp add: latches_ok_def split: option.split)

lemma latches_ok_frame [simp]:
  "latches_ok (c\<lparr>c_heap := h\<rparr>) = latches_ok c" "latches_ok (c\<lparr>c_futures := fs\<rparr>) = latches_ok c"
  "latches_ok (c\<lparr>c_sub_txn := ts\<rparr>) = latches_ok c"
  by (rule latches_ok_cong; simp)+

lemma con_ok_heap [simp]:
  "con_ok (c\<lparr>c_heap := h\<rparr>) = con_ok c" "con_ok (c\<lparr>c_futures := fs\<rparr>) = con_ok c"
  by (simp_all add: con_ok_def)

lemma con_ok_txn: "con_ok c \<Longrightarrow> c_sub_txn c = Some ts \<Longrightarrow> con_ok (c\<lparr>c_sub_txn := Some (ts[s := q])\<rparr>)"
  by (simp add: con_ok_def array_ok_def)

lemma con_ok_only_heap: "only_heap c c' \<Longrightarrow> con_ok c \<Longrightarrow> con_ok c' \<and> c_futures c' = c_futures c"
  by (auto simp: only_heap_def)

lemma latch_pledge_frame [simp]:
  "c_state (latch_pledge c i out) = c_state c" "c_sub_txn (latch_pledge c i out) = c_sub_txn c"
  "c_fns (latch_pledge c i out) = c_fns c" "c_vow_vals (latch_pledge c i out) = c_vow_vals c"
  "c_futures (latch_pledge c i out) = c_futures c" "c_store (latch_pledge c i out) = c_store c"
  by (simp_all add: latch_pledge_def Let_def split: option.split)

lemma con_ok_latch: "con_ok c \<Longrightarrow> con_ok (latch_pledge c i out)"
  by (simp add: con_ok_def)

lemma eval_policy_frame [simp]:
  "c_desc (eval_policy c) = c_desc c" "c_sub_txn (eval_policy c) = c_sub_txn c"
  "c_fns (eval_policy c) = c_fns c" "c_vow_vals (eval_policy c) = c_vow_vals c"
  "c_futures (eval_policy c) = c_futures c" "c_store (eval_policy c) = c_store c"
  "c_pledge_state (eval_policy c) = c_pledge_state c" "c_pledge_err (eval_policy c) = c_pledge_err c"
  by (simp_all add: eval_policy_def Let_def)

lemma eval_policy_state:
  "c_state c \<noteq> GEAS_UNSIGNED \<Longrightarrow> c_state (eval_policy c) \<noteq> GEAS_UNSIGNED"
  "c_state c = GEAS_BROKEN \<Longrightarrow> c_state (eval_policy c) = GEAS_BROKEN"
  by (simp_all add: eval_policy_def Let_def)

lemma con_ok_eval: "con_ok c \<Longrightarrow> con_ok (eval_policy c)"
  using eval_policy_state[of c] latches_ok_cong[of "eval_policy c" c] by (auto simp: con_ok_def)

lemma con_ok_outcome: "con_ok c \<Longrightarrow> con_ok (latch_outcome st pidx out c)"
  by (simp add: latch_outcome_def con_ok_latch con_ok_eval)

lemma latch_outcome_futures [simp]: "c_futures (latch_outcome st pidx out c) = c_futures c"
  by (simp add: latch_outcome_def)

lemma txn_before_shape:
  "txn_before S c pidx w = (st, c', w') \<Longrightarrow>
     c' = c \<or> (\<exists>ts s q. c_sub_txn c = Some ts \<and> c' = c\<lparr>c_sub_txn := Some (ts[s := q])\<rparr>)"
  unfolding txn_before_def by (auto split: option.splits if_splits prod.splits)

lemma txn_after_shape:
  "txn_after S c pidx st out w = (st', c', w') \<Longrightarrow>
     c' = c \<or> (\<exists>ts s q. c_sub_txn c = Some ts \<and> c' = c\<lparr>c_sub_txn := Some (ts[s := q])\<rparr>)"
  unfolding txn_after_def Let_def by (auto split: option.splits if_splits prod.splits)

lemma txn_before_ok:
  "txn_before S c pidx w = (st, c', w') \<Longrightarrow> con_ok c \<Longrightarrow> con_ok c' \<and> c_futures c' = c_futures c"
  by (drule txn_before_shape) (auto intro: con_ok_txn)

lemma txn_after_ok:
  "txn_after S c pidx st out w = (st', c', w') \<Longrightarrow> con_ok c \<Longrightarrow> con_ok c' \<and> c_futures c' = c_futures c"
  by (drule txn_after_shape) (auto intro: con_ok_txn)

lemma break_ok:
  assumes "break_contract S c w = (c', w')" "con_ok c"
  shows "con_ok c' \<and> c_futures c' = c_futures c"
proof -
  have "c_desc c' = c_desc c \<and> c_state c' = GEAS_BROKEN \<and> c_sub_txn c' = c_sub_txn c \<and>
      c_futures c' = c_futures c \<and> c_pledge_state c' = c_pledge_state c \<and>
      c_pledge_err c' = map_option (map (\<lambda>_. gv_zero)) (c_pledge_err c)"
    using assms(1) by (auto simp: break_contract_def contract_free_owned_def Let_def)
  moreover from this have "latches_ok c' = latches_ok c"
    by (simp add: latches_ok_def split: option.split)
  ultimately show ?thesis
    using assms(2) by (simp add: con_ok_def)
qed

text \<open>Who holds a future besides its receipt: the queue or one worker; and the call that makes it.\<close>

definition pool_thread :: "nat \<Rightarrow> thread \<Rightarrow> bool" where
  "pool_thread fid t \<longleftrightarrow> t = TRun fid \<or> t = TRunning fid \<or> t = TDrop fid"

definition prep_thread :: "nat \<Rightarrow> thread \<Rightarrow> bool" where
  "prep_thread fid t = (case t of TPrepare g n a r \<Rightarrow> g = fid | TEnqueue g \<Rightarrow> g = fid | _ \<Rightarrow> False)"

definition holds :: "'w sys \<Rightarrow> nat \<Rightarrow> nat" where
  "holds s fid = count_list (s_queue s) fid + length (filter (pool_thread fid) (s_threads s))"

definition preps :: "'w sys \<Rightarrow> nat \<Rightarrow> nat" where
  "preps s fid = length (filter (prep_thread fid) (s_threads s))"

definition busy :: "'w sys \<Rightarrow> nat \<Rightarrow> bool" where
  "busy s fid \<longleftrightarrow> fid \<in> set (s_queue s) \<or> TRun fid \<in> set (s_threads s) \<or> TRunning fid \<in> set (s_threads s) \<or>
     0 < preps s fid"

definition fut_ok :: "'w sys \<Rightarrow> nat \<Rightarrow> GeasFuture \<Rightarrow> bool" where
  "fut_ok s fid f \<longleftrightarrow>
     fid < s_next s \<and> s_con s (f_c f) \<noteq> None \<and> (f_waited f \<longrightarrow> f_done f) \<and>
     f_refcnt f = (if linked s fid then 1 else 0) + holds s fid \<and> (linked s fid \<or> holds s fid \<noteq> 0) \<and>
     (f_done f \<or> busy s fid)"

definition place_ok :: "'w sys \<Rightarrow> nat \<Rightarrow> bool" where
  "place_ok s fid \<longleftrightarrow>
     holds s fid + preps s fid \<le> 1 \<and> (holds s fid + preps s fid \<noteq> 0 \<longrightarrow> s_fut s fid \<noteq> None) \<and>
     (preps s fid \<noteq> 0 \<longrightarrow> linked s fid)"

definition list_ok :: "'w sys \<Rightarrow> nat \<Rightarrow> GeasContract \<Rightarrow> bool" where
  "list_ok s i c \<longleftrightarrow>
     i < s_next s \<and> con_ok c \<and> distinct (c_futures c) \<and>
     (\<forall>fid\<in>set (c_futures c). \<exists>f. s_fut s fid = Some f \<and> f_c f = i)"

definition sys_ok :: "'w sys \<Rightarrow> bool" where
  "sys_ok s \<longleftrightarrow>
     (\<forall>i c. s_con s i = Some c \<longrightarrow> list_ok s i c) \<and>
     (\<forall>fid f. s_fut s fid = Some f \<longrightarrow> fut_ok s fid f) \<and>
     (\<forall>fid. place_ok s fid) \<and>
     distinct (s_instances s) \<and> set (s_instances s) = dom (s_con s) \<and>
     length (s_instances s) \<le> GEAS_MAX_INSTANCES"

lemma linked_iff:
  "sys_ok s \<Longrightarrow> s_fut s fid = Some f \<Longrightarrow> s_con s (f_c f) = Some c \<Longrightarrow> linked s fid \<longleftrightarrow> fid \<in> set (c_futures c)"
  by (simp add: linked_def)

lemma sys_okD:
  assumes "sys_ok s"
  shows "s_con s i = Some c \<Longrightarrow> list_ok s i c" "s_fut s fid = Some f \<Longrightarrow> fut_ok s fid f" "place_ok s fid"
    "distinct (s_instances s)" "set (s_instances s) = dom (s_con s)"
    "length (s_instances s) \<le> GEAS_MAX_INSTANCES"
  using assms by (auto simp: sys_ok_def)

lemma sys_okI:
  assumes "\<And>i c. s_con s i = Some c \<Longrightarrow> list_ok s i c" "\<And>fid f. s_fut s fid = Some f \<Longrightarrow> fut_ok s fid f"
    "\<And>fid. place_ok s fid" "distinct (s_instances s)" "set (s_instances s) = dom (s_con s)"
    "length (s_instances s) \<le> GEAS_MAX_INSTANCES"
  shows "sys_ok s"
  using assms by (auto simp: sys_ok_def)

text \<open>The counts depend on the queue and the threads only.\<close>

lemma counts_cong:
  assumes "s_queue s' = s_queue s" "s_threads s' = s_threads s"
  shows "holds s' = holds s" "preps s' = preps s" "busy s' = busy s"
  using assms by (auto simp: holds_def preps_def busy_def fun_eq_iff)

lemma sys_ok_same:
  assumes ok: "sys_ok s" and eq: "s_con s' = s_con s" "s_fut s' = s_fut s" "s_queue s' = s_queue s"
    "s_threads s' = s_threads s" "s_instances s' = s_instances s" and "s_next s \<le> s_next s'"
  shows "sys_ok s'"
proof -
  have l: "linked s' = linked s"
    using eq by (auto simp: linked_def fun_eq_iff)
  note cnt = counts_cong[OF eq(3,4)]
  show ?thesis
    using ok assms(7) unfolding sys_ok_def list_ok_def fut_ok_def place_ok_def l cnt eq
    by (meson less_le_trans)
qed

lemma sys_ok_con:
  assumes ok: "sys_ok s" and c: "s_con s i = Some c" "con_ok c'" "c_futures c' = c_futures c"
  shows "sys_ok (set_con i c' s)"
proof -
  let ?s = "set_con i c' s"
  have l: "linked ?s = linked s"
    using c by (auto simp: linked_def fun_eq_iff)
  have cnt: "holds ?s = holds s" "preps ?s = preps s" "busy ?s = busy s"
    by (rule counts_cong; simp)+
  show ?thesis
  proof (rule sys_okI)
    fix j d
    assume "s_con ?s j = Some d"
    then show "list_ok ?s j d"
      using sys_okD(1)[OF ok, of j] sys_okD(1)[OF ok c(1)] c
      by (auto simp: list_ok_def split: if_splits)
  next
    fix fid f
    assume "s_fut ?s fid = Some f"
    then show "fut_ok ?s fid f"
      using sys_okD(2)[OF ok, of fid f] by (auto simp: fut_ok_def l cnt)
  next
    show "place_ok ?s fid" for fid
      using sys_okD(3)[OF ok, of fid] by (auto simp: place_ok_def l cnt)
  qed (use sys_okD(4-6)[OF ok] c(1) in auto)
qed

lemma sys_ok_fut:
  assumes ok: "sys_ok s" and f: "s_fut s fid = Some f" "f_c g = f_c f" "f_refcnt g = f_refcnt f"
    "f_waited g \<longrightarrow> f_done g" "f_done f \<longrightarrow> f_done g"
  shows "sys_ok (set_fut fid g s)"
proof -
  let ?s = "set_fut fid g s"
  have l: "linked ?s = linked s"
    using f by (auto simp: linked_def fun_eq_iff)
  have cnt: "holds ?s = holds s" "preps ?s = preps s" "busy ?s = busy s"
    by (rule counts_cong; simp)+
  show ?thesis
  proof (rule sys_okI)
    fix j d
    assume "s_con ?s j = Some d"
    then show "list_ok ?s j d"
      using sys_okD(1)[OF ok, of j d] f by (auto simp: list_ok_def)
  next
    fix k h
    assume "s_fut ?s k = Some h"
    then consider "k = fid" "h = g" | "s_fut s k = Some h"
      by (cases "k = fid") (simp_all add: eq_commute)
    then show "fut_ok ?s k h"
    proof cases
      case 1
      then show ?thesis
        using sys_okD(2)[OF ok f(1)] f(2-5) unfolding fut_ok_def l cnt by (elim conjE, intro conjI) auto
    next
      case 2
      then show ?thesis
        using sys_okD(2)[OF ok 2] unfolding fut_ok_def l cnt by (elim conjE, intro conjI) auto
    qed
  next
    show "place_ok ?s k" for k
      using sys_okD(3)[OF ok, of k] by (auto simp: place_ok_def l cnt)
  qed (use sys_okD(4-6)[OF ok] in auto)
qed

lemma sys_ok_finish: "sys_ok s \<Longrightarrow> sys_ok (future_finish fid st val s)"
proof (cases "s_fut s fid")
  case (Some f)
  assume ok: "sys_ok s"
  show ?thesis
    using sys_ok_fut[OF ok Some, of "finish st val f"] sys_okD(2)[OF ok Some]
    by (simp add: finish_def fut_ok_def future_finish_def Some)
qed (simp add: future_finish_def)

lemma sys_ok_forfeit: "sys_ok s \<Longrightarrow> sys_ok (future_forfeit fid s)"
proof (cases "s_fut s fid")
  case (Some f)
  assume ok: "sys_ok s"
  show ?thesis
    using sys_ok_fut[OF ok Some, of "forfeit f"] sys_okD(2)[OF ok Some]
    by (simp add: forfeit_def fut_ok_def future_forfeit_def Some)
qed (simp add: future_forfeit_def)

lemma sys_ok_forfeit_all: "sys_ok s \<Longrightarrow> sys_ok (fold future_forfeit fids s)"
  by (induction fids arbitrary: s) (auto intro: sys_ok_forfeit)

lemma sys_ok_world: "sys_ok s \<Longrightarrow> sys_ok (s\<lparr>s_world := w\<rparr>)" "sys_ok s \<Longrightarrow> sys_ok (s\<lparr>s_host := H\<rparr>)"
  "sys_ok s \<Longrightarrow> sys_ok (s\<lparr>s_calls := n\<rparr>)"
  by (erule sys_ok_same; simp)+

lemma sys_ok_break: "geas_contract_break E i s = (st, s') \<Longrightarrow> sys_ok s \<Longrightarrow> sys_ok s'"
proof (cases "s_con s i")
  case (Some c)
  assume b: "geas_contract_break E i s = (st, s')" and ok: "sys_ok s"
  let ?s1 = "fold future_forfeit (c_futures c) s"
  obtain c' w where bc: "break_contract (e_sqlite E) c (s_world ?s1) = (c', w)"
    by force
  have "sys_ok (?s1\<lparr>s_world := w\<rparr>)"
    by (intro sys_ok_world(1) sys_ok_forfeit_all ok)
  moreover have "con_ok c"
    using sys_okD(1)[OF ok Some] by (simp add: list_ok_def)
  ultimately have "sys_ok (set_con i c' (?s1\<lparr>s_world := w\<rparr>))"
    using break_ok[OF bc] Some by (intro sys_ok_con[of _ i c]) auto
  then show ?thesis
    using b ok Some bc by (auto simp: geas_contract_break_def Let_def split: if_splits)
qed (auto simp: geas_contract_break_def)

section \<open>Steps keep the invariant\<close>

lemma filter_remove1_length:
  "t \<in> set ts \<Longrightarrow> length (filter P (remove1 t ts)) + (if P t then 1 else 0) = length (filter P ts)"
  by (induction ts) auto

lemma swap_thread_sel [simp]:
  "s_con (swap_thread t us s) = s_con s" "s_fut (swap_thread t us s) = s_fut s"
  "s_queue (swap_thread t us s) = s_queue s" "s_next (swap_thread t us s) = s_next s"
  "s_instances (swap_thread t us s) = s_instances s" "s_world (swap_thread t us s) = s_world s"
  "s_host (swap_thread t us s) = s_host s" "s_reg (swap_thread t us s) = s_reg s"
  "s_threads (swap_thread t us s) = us @ remove1 t (s_threads s)"
  by (simp_all add: swap_thread_def)

lemma swap_counts:
  assumes "t \<in> set (s_threads s)"
  shows "holds (swap_thread t us s) fid + (if pool_thread fid t then 1 else 0) =
           holds s fid + length (filter (pool_thread fid) us)"
    and "preps (swap_thread t us s) fid + (if prep_thread fid t then 1 else 0) =
           preps s fid + length (filter (prep_thread fid) us)"
  using filter_remove1_length[OF assms, of "pool_thread fid"] filter_remove1_length[OF assms, of "prep_thread fid"]
  by (simp_all add: holds_def preps_def)

lemma thread_classes [simp]:
  "pool_thread fid (TRun g) \<longleftrightarrow> g = fid" "pool_thread fid (TRunning g) \<longleftrightarrow> g = fid"
  "pool_thread fid (TDrop g) \<longleftrightarrow> g = fid" "\<not> pool_thread fid (TEnqueue g)"
  "\<not> pool_thread fid (TPrepare g n a r)" "prep_thread fid (TEnqueue g) \<longleftrightarrow> g = fid"
  "prep_thread fid (TPrepare g n a r) \<longleftrightarrow> g = fid" "\<not> prep_thread fid (TRun g)"
  "\<not> prep_thread fid (TRunning g)" "\<not> prep_thread fid (TDrop g)"
  by (auto simp: pool_thread_def prep_thread_def)

text \<open>Moving a future between the queue and the threads.\<close>

lemma sys_ok_move:
  assumes ok: "sys_ok s" and eq: "s_con s' = s_con s" "s_fut s' = s_fut s" "s_next s' = s_next s"
    "s_instances s' = s_instances s"
    and cnt: "\<And>fid. holds s' fid = holds s fid" "\<And>fid. preps s' fid \<le> preps s fid"
    and bsy: "\<And>fid f. s_fut s fid = Some f \<Longrightarrow> \<not> f_done f \<Longrightarrow> busy s fid \<Longrightarrow> busy s' fid"
  shows "sys_ok s'"
proof -
  have l: "linked s' = linked s"
    using eq by (auto simp: linked_def fun_eq_iff)
  show ?thesis
  proof (rule sys_okI)
    fix fid f
    assume f: "s_fut s' fid = Some f"
    then have "fut_ok s fid f"
      using sys_okD(2)[OF ok] eq by simp
    then show "fut_ok s' fid f"
      using bsy[of fid f] f unfolding fut_ok_def l cnt eq by blast
  next
    fix fid
    show "place_ok s' fid"
      using sys_okD(3)[OF ok, of fid] cnt(2)[of fid] unfolding place_ok_def l cnt(1) eq by auto
  qed (use sys_okD[OF ok] in \<open>simp_all add: eq list_ok_def\<close>)
qed

lemma sys_ok_dequeue:
  assumes ok: "sys_ok s" and "pool_dequeue s = Some (fid, s1)"
  shows "sys_ok (s1\<lparr>s_threads := TRun fid # s_threads s1\<rparr>)"
proof -
  obtain q where q: "s_queue s = fid # q" "s1 = s\<lparr>s_queue := q\<rparr>"
    using assms(2) by (auto simp: pool_dequeue_def split: list.splits)
  show ?thesis
    by (rule sys_ok_move[OF ok]) (auto simp: q holds_def preps_def busy_def)
qed

lemma sys_ok_start:
  assumes ok: "sys_ok s" and t: "TRun fid \<in> set (s_threads s)"
  shows "sys_ok (swap_thread (TRun fid) [TRunning fid] s)"
proof (rule sys_ok_move[OF ok])
  fix g
  show "holds (swap_thread (TRun fid) [TRunning fid] s) g = holds s g"
    using swap_counts(1)[OF t, of "[TRunning fid]" g] by (auto split: if_splits)
  show "preps (swap_thread (TRun fid) [TRunning fid] s) g \<le> preps s g"
    using swap_counts(2)[OF t, of "[TRunning fid]" g] by simp
  show "busy (swap_thread (TRun fid) [TRunning fid] s) g" if "busy s g"
    using that swap_counts(2)[OF t, of "[TRunning fid]" g] by (cases "g = fid") (auto simp: busy_def)
qed simp_all

lemma sys_ok_stop:
  assumes ok: "sys_ok s" and t: "TRunning fid \<in> set (s_threads s)" "\<And>f. s_fut s fid = Some f \<Longrightarrow> f_done f"
  shows "sys_ok (swap_thread (TRunning fid) [TDrop fid] s)"
proof (rule sys_ok_move[OF ok])
  fix g
  show "holds (swap_thread (TRunning fid) [TDrop fid] s) g = holds s g"
    using swap_counts(1)[OF t(1), of "[TDrop fid]" g] by (auto split: if_splits)
  show "preps (swap_thread (TRunning fid) [TDrop fid] s) g \<le> preps s g"
    using swap_counts(2)[OF t(1), of "[TDrop fid]" g] by simp
next
  fix g f
  assume "s_fut s g = Some f" "\<not> f_done f" "busy s g"
  then show "busy (swap_thread (TRunning fid) [TDrop fid] s) g"
    using t(2) swap_counts(2)[OF t(1), of "[TDrop fid]" g] by (cases "g = fid") (auto simp: busy_def)
qed simp_all

lemma sys_ok_prepared:
  assumes ok: "sys_ok s" and t: "t \<in> set (s_threads s)" "t = TPrepare fid name args refs"
    and dn: "st \<noteq> GEAS_OK \<Longrightarrow> \<exists>f. s_fut s fid = Some f \<and> f_done f"
  shows "sys_ok (swap_thread t (if st = GEAS_OK then [TEnqueue fid] else []) s)"
    (is "sys_ok (swap_thread t ?us s)")
proof (rule sys_ok_move[OF ok])
  fix g
  show "holds (swap_thread t ?us s) g = holds s g"
    using swap_counts(1)[OF t(1), of ?us g] t(2) by (auto split: if_splits)
  show "preps (swap_thread t ?us s) g \<le> preps s g"
    using swap_counts(2)[OF t(1), of ?us g] t(2) by (auto split: if_splits)
next
  fix g f
  assume "s_fut s g = Some f" "\<not> f_done f" "busy s g"
  then show "busy (swap_thread t ?us s) g"
    using dn swap_counts(2)[OF t(1), of ?us g] t(2)
    by (cases "g = fid") (auto simp: busy_def split: if_splits)
qed simp_all

text \<open>The steps that create and free futures.\<close>

lemma no_trace:
  assumes ok: "sys_ok s" and "s_next s \<le> fid"
  shows "s_fut s fid = None" "s_con s fid = None" "holds s fid = 0" "preps s fid = 0" "\<not> linked s fid"
proof -
  show 1: "s_fut s fid = None"
    using sys_okD(2)[OF ok, of fid] assms(2) by (cases "s_fut s fid") (auto simp: fut_ok_def)
  show "s_con s fid = None"
    using sys_okD(1)[OF ok, of fid] assms(2) by (cases "s_con s fid") (auto simp: list_ok_def)
  show "holds s fid = 0" "preps s fid = 0"
    using sys_okD(3)[OF ok, of fid] 1 by (auto simp: place_ok_def)
  show "\<not> linked s fid"
    using 1 by (simp add: linked_def)
qed

lemma sys_ok_new:
  assumes ok: "sys_ok s" and new: "future_new E i s = (Some fid, s1)" "s_con s i \<noteq> None"
  shows "sys_ok (s1\<lparr>s_threads := TPrepare fid name args refs # s_threads s1\<rparr>)"
proof -
  obtain c n where c: "s_con s i = Some c" and fid: "fid = s_next s" and s1: "s1 =
      set_con i (c\<lparr>c_futures := fid # c_futures c\<rparr>)
        (set_fut fid (fresh_future i) (s\<lparr>s_calls := n, s_next := Suc fid\<rparr>))"
    using new unfolding future_new_def sys_alloc_def
    by (auto simp: Let_def split: prod.splits bool.splits)
  let ?s = "s1\<lparr>s_threads := TPrepare fid name args refs # s_threads s1\<rparr>"
  note none = no_trace[OF ok, of fid]
  have notin: "fid \<notin> set (c_futures d)" if "s_con s j = Some d" for j d
    using sys_okD(1)[OF ok that] none(1) fid by (auto simp: list_ok_def)
  have l: "linked ?s g \<longleftrightarrow> g = fid \<or> linked s g" for g
    using c none(1) fid by (auto simp: linked_def s1 fresh_future_def)
  have cnt: "holds ?s g = holds s g" "preps ?s g = preps s g + (if g = fid then 1 else 0)"
      "busy ?s g \<longleftrightarrow> g = fid \<or> busy s g" for g
    by (auto simp: holds_def preps_def busy_def s1)
  show ?thesis
  proof (rule sys_okI)
    fix j d
    assume "s_con ?s j = Some d"
    then show "list_ok ?s j d"
      using sys_okD(1)[OF ok, of j] sys_okD(1)[OF ok c] notin[OF c] notin[of j d] fid
      by (auto simp: list_ok_def s1 fresh_future_def split: if_splits)
  next
    fix g f
    assume g: "s_fut ?s g = Some f"
    show "fut_ok ?s g f"
    proof (cases "g = fid")
      case True
      then show ?thesis
        using g none fid unfolding fut_ok_def l cnt by (auto simp: s1 fresh_future_def)
    next
      case False
      then have "fut_ok s g f"
        using g sys_okD(2)[OF ok, of g f] by (simp add: s1)
      then show ?thesis
        using False unfolding fut_ok_def l cnt by (auto simp: s1 fid)
    qed
  next
    fix g
    show "place_ok ?s g"
    proof (cases "g = fid")
      case True
      then show ?thesis
        using none fid unfolding place_ok_def l cnt by (simp add: s1)
    next
      case False
      then show ?thesis
        using sys_okD(3)[OF ok, of g] unfolding place_ok_def l cnt by (auto simp: s1)
    qed
  qed (use sys_okD(4-6)[OF ok] c in \<open>auto simp: s1\<close>)
qed

lemma sys_ok_enqueue:
  assumes ok: "sys_ok s" and t: "TEnqueue fid \<in> set (s_threads s)"
  shows "sys_ok (swap_thread (TEnqueue fid) [] (enqueue_step fid s))"
proof -
  let ?before = "swap_thread (TEnqueue fid) [] s"
  have prep: "preps s fid = 1" "holds s fid = 0" "linked s fid"
    using swap_counts(2)[OF t, of "[]" fid] sys_okD(3)[OF ok, of fid] by (auto simp: place_ok_def)
  then obtain f where f: "s_fut s fid = Some f"
    by (auto simp: linked_def)
  let ?g = "f\<lparr>f_refcnt := 2\<rparr>"
  let ?s = "swap_thread (TEnqueue fid) [] (pool_enqueue fid (set_fut fid ?g s))"
  have l: "linked ?s = linked s"
    using f by (auto simp: linked_def fun_eq_iff pool_enqueue_def)
  have pre0: "preps ?before g + (if g = fid then 1 else 0) = preps s g" "holds ?before g = holds s g" for g
    using swap_counts[OF t, of "[]" g] by (auto split: if_splits)
  have same: "preps ?s g = preps ?before g" "holds ?s g = holds ?before g + (if g = fid then 1 else 0)" for g
    by (auto simp: preps_def holds_def pool_enqueue_def)
  have bsy: "busy ?s g \<longleftrightarrow> g = fid \<or> busy s g" for g
    using same(1)[of g] pre0(1)[of g] by (auto simp: busy_def pool_enqueue_def)
  show ?thesis
    unfolding enqueue_step_def f option.case
  proof (rule sys_okI)
    fix j d
    assume "s_con ?s j = Some d"
    then show "list_ok ?s j d"
      using sys_okD(1)[OF ok, of j d] f by (auto simp: list_ok_def pool_enqueue_def)
  next
    fix g h
    assume g: "s_fut ?s g = Some h"
    show "fut_ok ?s g h"
    proof (cases "g = fid")
      case True
      then have h: "h = ?g"
        using g by (simp add: pool_enqueue_def)
      show ?thesis
        using sys_okD(2)[OF ok f] prep same(2)[of fid] pre0(2)[of fid] bsy[of fid] True h
        unfolding fut_ok_def l by (auto simp: pool_enqueue_def)
    next
      case False
      then have "fut_ok s g h"
        using g sys_okD(2)[OF ok, of g h] by (simp add: pool_enqueue_def)
      then show ?thesis
        using False same(2)[of g] pre0(2)[of g] bsy[of g] unfolding fut_ok_def l by (simp add: pool_enqueue_def)
    qed
  next
    fix g
    show "place_ok ?s g"
      using sys_okD(3)[OF ok, of g] same[of g] pre0[of g] prep f unfolding place_ok_def l
      by (cases "g = fid") (auto simp: pool_enqueue_def)
  qed (use sys_okD(4-6)[OF ok] in \<open>auto simp: pool_enqueue_def\<close>)
qed

lemma unref_cases:
  assumes "s_fut s fid = Some f" "f_refcnt f \<noteq> 0"
  obtains (last) "f_refcnt f = 1" "future_unref fid s = s\<lparr>s_fut := (s_fut s)(fid := None)\<rparr>"
  | (more) "2 \<le> f_refcnt f" "future_unref fid s = set_fut fid (f\<lparr>f_refcnt := f_refcnt f - 1\<rparr>) s"
  using assms by (cases "f_refcnt f = 1") (auto simp: future_unref_def future_free_def Let_def)

lemma sys_ok_drop:
  assumes ok: "sys_ok s" and t: "TDrop fid \<in> set (s_threads s)"
  shows "sys_ok (swap_thread (TDrop fid) [] (future_unref fid s))"
proof -
  let ?s = "swap_thread (TDrop fid) [] (future_unref fid s)"
  let ?before = "swap_thread (TDrop fid) [] s"
  have pre: "preps ?before g = preps s g" "holds ?before g + (if g = fid then 1 else 0) = holds s g" for g
    using swap_counts[OF t, of "[]" g] by (auto split: if_splits)
  have held: "holds s fid = 1" "preps s fid = 0" "s_fut s fid \<noteq> None"
    using pre(2)[of fid] sys_okD(3)[OF ok, of fid] by (auto simp: place_ok_def)
  then obtain f where f: "s_fut s fid = Some f"
    by auto
  have fo: "fut_ok s fid f"
    by (rule sys_okD(2)[OF ok f])
  have frame: "s_con (future_unref fid s) = s_con s" "s_queue (future_unref fid s) = s_queue s"
      "s_threads (future_unref fid s) = s_threads s" "s_next (future_unref fid s) = s_next s"
      "s_instances (future_unref fid s) = s_instances s"
    by (simp_all add: future_unref_def f Let_def future_free_def)
  have cnt: "holds ?s = holds ?before" "preps ?s = preps ?before" "busy ?s = busy ?before"
    by (rule counts_cong; simp add: frame)+
  have bsy: "busy ?before g \<longleftrightarrow> busy s g" for g
    using pre(1)[of g] by (auto simp: busy_def)
  have rc: "f_refcnt f \<noteq> 0"
    using fo held by (simp add: fut_ok_def)
  have ftab: "s_fut ?s g = (if g = fid then (if linked s fid then Some (f\<lparr>f_refcnt := 1\<rparr>) else None) else s_fut s g)" for g
    by (rule unref_cases[OF f rc]) (use fo held in \<open>auto simp: fut_ok_def split: if_splits\<close>)
  have l: "linked ?s g \<longleftrightarrow> linked s g" for g
    unfolding linked_def ftab using f by (auto simp: frame linked_def split: if_splits)
  show ?thesis
  proof (rule sys_okI)
    fix j d
    assume "s_con ?s j = Some d"
    then have d: "s_con s j = Some d"
      by (simp add: frame)
    have "linked s fid" if "fid \<in> set (c_futures d)"
      using that d f sys_okD(1)[OF ok d] by (force simp: linked_def list_ok_def)
    then show "list_ok ?s j d"
      using sys_okD(1)[OF ok d] f unfolding list_ok_def ftab by (auto simp: frame)
  next
    fix g h
    assume g: "s_fut ?s g = Some h"
    show "fut_ok ?s g h"
    proof (cases "g = fid")
      case True
      then have "linked s fid" "h = f\<lparr>f_refcnt := 1\<rparr>"
        using g unfolding ftab by (auto split: if_splits)
      then show ?thesis
        using True fo held pre(2)[of fid] unfolding fut_ok_def l cnt bsy by (auto simp: frame)
    next
      case False
      then have "fut_ok s g h"
        using g sys_okD(2)[OF ok, of g h] unfolding ftab by simp
      then show ?thesis
        using False pre(2)[of g] unfolding fut_ok_def l cnt bsy by (simp add: frame)
    qed
  next
    fix g
    show "place_ok ?s g"
      using sys_okD(3)[OF ok, of g] pre[of g] held unfolding place_ok_def l cnt ftab
      by (cases "g = fid") auto
  qed (use sys_okD(4-6)[OF ok] in \<open>auto simp: frame\<close>)
qed

lemma preparing_iff: "preparing s fid \<longleftrightarrow> preps s fid \<noteq> 0"
  by (auto simp: preparing_def preps_def prep_thread_def list_ex_iff filter_empty_conv split: thread.splits)

end
