(* ===== verification/Geas_Park_Facts.thy ===== *)
theory Geas_Park_Facts
  imports Geas_System_Facts
begin

text \<open>
  What park and resume do to the system: a park changes no instance, a resumed instance is well
  formed.  The third allocation hook of the store driver is the arena of the resume query.
\<close>

definition park_held :: "heap \<Rightarrow> u64 list" where
  "park_held h = map (\<lambda>b. b - SIZEOF_PARK_CHUNK) (owned h)"

interpretation park_hook: store_alloc "park_arena_bytes M" park_held
  by unfold_locales (auto simp: park_arena_bytes_def park_held_def split: if_splits)

lemma vow_loop_length: "resume_vow_loop M vds bs h = (Inr (vs, rest), h') \<Longrightarrow> length vs = length vds"
  by (induction vds arbitrary: bs h vs rest) (auto split: prod.splits sum.splits if_splits)

lemma err_loop_length: "resume_err_loop M n bs h = (Inr (es, rest), h') \<Longrightarrow> length es = n"
  by (induction n arbitrary: bs h es rest) (auto split: prod.splits sum.splits if_splits list.splits)

lemma those_length: "those xs = Some ys \<Longrightarrow> length ys = length xs"
  by (induction xs arbitrary: ys) (auto split: option.splits)

text \<open>Every stage leaves the parts of the others alone.\<close>

lemma resume_vows_ok:
  assumes "resume_vows M bs c = (GEAS_OK, c')" "c_vow_vals c = None"
  shows "c' = c\<lparr>c_heap := c_heap c', c_vow_vals := c_vow_vals c'\<rparr> \<and>
    array_ok (c_vow_vals c') (length (cd_vows (c_desc c)))"
  using assms by (auto simp: resume_vows_def Let_def array_ok_def dest: vow_loop_length
      split: if_splits prod.splits bool.splits sum.splits)

lemma resume_latches_ok:
  assumes "resume_latches M bl be c = (GEAS_OK, c')" "c_pledge_state c = None"
  shows "c' = c\<lparr>c_heap := c_heap c', c_pledge_state := c_pledge_state c', c_pledge_err := c_pledge_err c'\<rparr> \<and>
    latches_ok c'"
proof (cases "cd_pledges (c_desc c) = []")
  case True
  then show ?thesis
    using assms by (auto simp: resume_latches_def latches_ok_def)
next
  case False
  obtain b c1 where m: "plain_mallocs M 2 c = (b, c1)"
    by force
  have c1: "c1 = c\<lparr>c_heap := c_heap c1\<rparr>"
    by (rule mallocs_frame[OF m])
  obtain ps where b: "b" "length bl = length (cd_pledges (c_desc c))" "those (map byte_latch bl) = Some ps"
    using assms(1) m False by (auto simp: resume_latches_def Let_def split: bool.splits if_splits option.splits)
  have ps: "length ps = length (cd_pledges (c_desc c))"
    using those_length[OF b(3)] b(2) by simp
  obtain r h where r: "resume_err_loop M (length (cd_pledges (c_desc c))) be (c_heap c1) = (r, h)"
    by force
  define es where "es = the (c_pledge_err c')"
  have "length es = length ps \<and> c' = c1\<lparr>c_heap := h, c_pledge_state := Some ps, c_pledge_err := Some es\<rparr>"
    unfolding es_def using assms(1) m b r False ps
    by (cases r) (auto simp: resume_latches_def Let_def dest: err_loop_length split: if_splits)
  then show ?thesis
    using ps by (subst (asm) c1) (simp add: latches_ok_def)
qed

lemma resume_txn_ok:
  assumes "resume_txn M bt c = (GEAS_OK, c')" "c_sub_txn c = None"
  shows "c' = c\<lparr>c_heap := c_heap c', c_sub_txn := c_sub_txn c'\<rparr> \<and>
    array_ok (c_sub_txn c') (length (cd_subs (c_desc c)))"
proof -
  obtain b c1 where m: "plain_mallocs M 1 c = (b, c1)"
    by force
  have c1: "c1 = c\<lparr>c_heap := c_heap c1\<rparr>"
    by (rule mallocs_frame[OF m])
  have "c' = c \<and> cd_subs (c_desc c) = [] \<or>
      (\<exists>ts. length ts = length (cd_subs (c_desc c)) \<and> c' = c1\<lparr>c_sub_txn := Some ts\<rparr>)"
    using assms(1) m those_length by (fastforce simp: resume_txn_def Let_def split: if_splits bool.splits option.splits)
  then show ?thesis
    using assms(2) by (subst (asm) c1) (auto simp: array_ok_def)
qed

lemma resume_stages:
  assumes "resume_build S M d fns st0 row w = (GEAS_OK, c, w')"
  obtains c1 c2 c3 c4 c5 where "sign_fns M (fresh_contract d) fns = (GEAS_OK, c1)"
    "resume_vows M (pr_vows row) c1 = (GEAS_OK, c2)"
    "resume_latches M (pr_latches row) (pr_errs row) c2 = (GEAS_OK, c3)"
    "resume_txn M (pr_subtxn row) c3 = (GEAS_OK, c4)"
    "store_sign_reconcile S M c4 w = (GEAS_OK, c5, w')"
    "c = c5\<lparr>c_state := st0, c_shape_hash := cd_shape_hash d, c_signed_at := pr_signed row\<rparr>"
  using assms unfolding resume_build_def by (auto split: prod.splits if_splits)


lemma num_state_signed: "num_state n = Some st \<Longrightarrow> st \<noteq> GEAS_UNSIGNED"
  by (auto simp: num_state_def split: if_splits)

lemma resume_build_ok:
  assumes "resume_build S M d fns st0 row w = (GEAS_OK, c, w')" "st0 \<noteq> GEAS_UNSIGNED"
    and "length fns = length (cd_pledges d)"
  shows "con_ok c \<and> c_futures c = [] \<and> c_desc c = d"
  using assms(1)
proof (cases rule: resume_stages)
  case (1 c1 c2 c3 c4 c5)
  define h1 v2 h2 p3 e3 h3 t4 h4 h5 db where "h1 = c_heap c1" "v2 = c_vow_vals c2" "h2 = c_heap c2"
    "p3 = c_pledge_state c3" "e3 = c_pledge_err c3" "h3 = c_heap c3" "t4 = c_sub_txn c4" "h4 = c_heap c4"
    "h5 = c_heap c5" "db = c_store c5"
  note hs = this
  have c1: "c1 = (fresh_contract d)\<lparr>c_heap := h1, c_fns := (if cd_pledges d = [] then None else Some fns)\<rparr>"
    by (rule trans[OF sign_fns_ok[OF 1(1), folded hs]]) (simp add: fresh_contract_def)
  have c2: "c2 = c1\<lparr>c_heap := h2, c_vow_vals := v2\<rparr>" "array_ok v2 (length (cd_vows d))"
    using resume_vows_ok[OF 1(2), folded hs] by (simp_all add: c1 fresh_contract_def)
  have c3: "c3 = c2\<lparr>c_heap := h3, c_pledge_state := p3, c_pledge_err := e3\<rparr>" "latches_ok c3"
  proof -
    have "c_pledge_state c2 = None"
      by (simp add: c2(1) c1 fresh_contract_def)
    from resume_latches_ok[OF 1(3) this, folded hs]
    show "c3 = c2\<lparr>c_heap := h3, c_pledge_state := p3, c_pledge_err := e3\<rparr>" "latches_ok c3"
      by blast+
  qed
  have c4: "c4 = c3\<lparr>c_heap := h4, c_sub_txn := t4\<rparr>" "array_ok t4 (length (cd_subs d))"
    using resume_txn_ok[OF 1(4), folded hs] by (simp_all add: c3(1) c2(1) c1 fresh_contract_def)
  have c5: "c5 = c4\<lparr>c_heap := h5, c_store := db\<rparr>"
    by (rule store_sign_frame[OF 1(5), folded hs])
  have l: "latches_ok c"
    using c3(2) unfolding 1(6) c5 c4(1) by (subst latches_ok_cong[of _ c3]) simp_all
  have "c_desc c = d" "c_futures c = []" "c_state c = st0" "c_sub_txn c = t4" "c_vow_vals c = v2"
      "c_fns c = (if cd_pledges d = [] then None else Some fns)"
    unfolding 1(6) c5 c4(1) c3(1) c2(1) c1 by (simp_all add: fresh_contract_def)
  then show ?thesis
    using l c2(2) c4(2) assms(2,3) by (simp add: con_ok_def array_ok_def)
qed

text \<open>What a park or a resume leaves of the system.\<close>

lemma park_blobs_frame: "park_blobs E c s = (r, s') \<Longrightarrow> \<exists>n. s' = s\<lparr>s_calls := n\<rparr>"
  unfolding park_blobs_def park_encode_values_def park_encode_errs_def sys_alloc_def
  by (auto split: prod.splits sum.splits if_splits option.splits bool.splits)
    (metis sys.surjective sys.update_convs(11))+

lemma park_frame: "geas_instance_park E i dsn key s = (st, s') \<Longrightarrow> \<exists>n w. s' = s\<lparr>s_calls := n, s_world := w\<rparr>"
  unfolding geas_instance_park_def
  by (auto dest!: park_blobs_frame split: prod.splits sum.splits if_splits option.splits)
    (metis sys.surjective sys.update_convs(11,13))+

end
