(* ===== verification/Geas_System_Inv.thy ===== *)
theory Geas_System_Inv
  imports Geas_Park_Facts
begin

text \<open>
  Every step of the runtime keeps the invariant and moves instances and futures forward only: the
  induction over \<open>api\<close>, pledge bodies included.
\<close>

section \<open>Release, wait, prepare and sign\<close>

lemma sys_ok_release:
  assumes ok: "sys_ok s" and r: "receipt s fid" and f: "s_fut s fid = Some f" and fin: "f_waited f"
  shows "sys_ok (future_release fid s)"
proof -
  obtain c where c: "s_con s (f_c f) = Some c" "fid \<in> set (c_futures c)"
    using r f by (auto simp: receipt_def linked_def)
  let ?c = "c\<lparr>c_futures := remove1 fid (c_futures c)\<rparr>"
  let ?m = "set_con (f_c f) ?c s"
  let ?s = "future_release fid s"
  have s: "?s = future_unref fid ?m"
    by (simp add: future_release_def f c)
  have lst: "list_ok s (f_c f) c"
    by (rule sys_okD(1)[OF ok c(1)])
  have lk: "linked s fid" "preps s fid = 0"
    using r by (auto simp: receipt_def preparing_iff)
  have fo: "fut_ok s fid f"
    by (rule sys_okD(2)[OF ok f])
  have rc: "f_refcnt f = 1 + holds s fid"
    using fo lk by (simp add: fut_ok_def)
  have h1: "holds s fid \<le> 1"
    using sys_okD(3)[OF ok, of fid] by (simp add: place_ok_def)
  have frame: "s_con ?s = (s_con s)(f_c f \<mapsto> ?c)" "s_queue ?s = s_queue s" "s_threads ?s = s_threads s"
      "s_next ?s = s_next s" "s_instances ?s = s_instances s"
    by (simp_all add: s future_unref_def f Let_def future_free_def)
  have cnt: "holds ?s = holds s" "preps ?s = preps s" "busy ?s = busy s"
    by (rule counts_cong; simp add: frame)+
  have ftab: "s_fut ?s g = (if g = fid then (if holds s fid = 0 then None else Some (f\<lparr>f_refcnt := 1\<rparr>)) else s_fut s g)" for g
    using rc h1 by (auto simp: s future_unref_def f Let_def future_free_def)
  have l: "linked ?s g \<longleftrightarrow> g \<noteq> fid \<and> linked s g" for g
  proof (cases "g = fid")
    case True
    then show ?thesis
      using lst f by (auto simp: linked_def ftab frame list_ok_def)
  next
    case False
    then show ?thesis
      using c by (auto simp: linked_def ftab frame)
  qed
  show ?thesis
  proof (rule sys_okI)
    fix j d
    assume j: "s_con ?s j = Some d"
    show "list_ok ?s j d"
    proof (cases "j = f_c f")
      case True
      then show ?thesis
        using j lst unfolding list_ok_def ftab by (auto simp: frame)
    next
      case False
      then have d: "s_con s j = Some d"
        using j by (simp add: frame)
      then show ?thesis
        using sys_okD(1)[OF ok d] False f unfolding list_ok_def ftab by (auto simp: frame)
    qed
  next
    fix g h
    assume g: "s_fut ?s g = Some h"
    show "fut_ok ?s g h"
    proof (cases "g = fid")
      case True
      then show ?thesis
        using g fo h1 fin unfolding fut_ok_def l cnt ftab by (auto simp: frame split: if_splits)
    next
      case False
      then have "fut_ok s g h"
        using g sys_okD(2)[OF ok, of g h] unfolding ftab by simp
      then show ?thesis
        using False unfolding fut_ok_def l cnt by (simp add: frame)
    qed
  next
    fix g
    show "place_ok ?s g"
      using sys_okD(3)[OF ok, of g] lk unfolding place_ok_def l cnt ftab by auto
  qed (use sys_okD(4-6)[OF ok] c in \<open>auto simp: frame\<close>)
qed

lemma sys_ok_wait:
  assumes "sys_ok s" "geas_future_wait E fid s = Some (st, out, s')"
  shows "sys_ok s'"
proof -
  obtain f where f: "s_fut s fid = Some f" "f_done f"
    using assms(2) by (auto simp: geas_future_wait_def split: option.splits if_splits)
  have "sys_ok (set_fut fid (f\<lparr>f_waited := True\<rparr>) (s\<lparr>s_host := H\<rparr>))" for H
    by (rule sys_ok_fut[OF sys_ok_world(2)[OF assms(1)]]) (use f in auto)
  then show ?thesis
    using assms f by (auto simp: geas_future_wait_def Let_def split: if_splits prod.splits)
qed

text \<open>Publishing a well formed instance without futures at the next address.\<close>

lemma sys_ok_publish:
  assumes ok: "sys_ok s" and con: "con_ok c" "c_futures c = []" and len: "length (s_instances s) \<noteq> GEAS_MAX_INSTANCES"
    and s': "s' = set_con (s_next s) c (s\<lparr>s_next := Suc (s_next s), s_instances := s_instances s @ [s_next s], s_world := w\<rparr>)"
  shows "sys_ok s'"
proof -
  let ?i = "s_next s"
  have f: "s_con s' = (s_con s)(?i \<mapsto> c)" "s_fut s' = s_fut s" "s_queue s' = s_queue s"
      "s_threads s' = s_threads s" "s_next s' = Suc ?i" "s_instances s' = s_instances s @ [?i]"
    by (simp_all add: s')
  note none = no_trace[OF ok order_refl]
  have l: "linked s' = linked s"
    using none(2) con by (intro ext) (auto simp: linked_def f split: if_splits, force)
  note cnt = counts_cong[OF f(3,4)]
  show ?thesis
  proof (rule sys_okI)
    fix j d
    assume "s_con s' j = Some d"
    then show "list_ok s' j d"
      using sys_okD(1)[OF ok, of j d] con by (auto simp: list_ok_def f split: if_splits)
  next
    fix g h
    assume "s_fut s' g = Some h"
    then show "fut_ok s' g h"
      using sys_okD(2)[OF ok, of g h] unfolding fut_ok_def l cnt by (auto simp: f)
  next
    show "place_ok s' g" for g
      using sys_okD(3)[OF ok, of g] unfolding place_ok_def l cnt f by simp
  next
    show "length (s_instances s') \<le> GEAS_MAX_INSTANCES"
      using sys_okD(6)[OF ok] len by (simp add: f)
  qed (use sys_okD(4,5)[OF ok] none(2) in \<open>auto simp: f\<close>)
qed

lemma sys_ok_built:
  assumes ok: "sys_ok s" and p: "publish_built S (st, c, w) s = (r, s')"
    and con: "st = GEAS_OK \<Longrightarrow> con_ok c \<and> c_futures c = []"
  shows "sys_ok s' \<and> evolves s s' \<and> s_threads s' = s_threads s"
  using p
proof (cases rule: built_cases)
  case (refused st' w')
  then show ?thesis
    by (simp add: sys_ok_same[OF ok] evolves_def)
next
  case published
  have "sys_ok s'"
    using sys_ok_publish[OF ok _ _ published(3,4)] con published(1) by blast
  then show ?thesis
    using published(4) no_trace(2)[OF ok order_refl] by (auto simp: evolves_def)
qed

lemma sys_ok_sign:
  assumes ok: "sys_ok s" and "geas_contract_sign E name vows hash s = (r, s')"
  shows "sys_ok s'"
  using assms(2)
proof (cases rule: sign_cases)
  case (refused st n)
  then show ?thesis
    using ok by (simp add: sys_ok_world)
next
  case (publish d fns n)
  obtain st c w where b: "sign_build (e_sqlite E) (e_malloc E (s_next s)) (e_time E n) d fns vows (s_world s) = (st, c, w)"
    by (metis prod_cases3)
  have "con_ok c \<and> c_futures c = []" if "st = GEAS_OK"
    using sign_build_built b that resolve_fns_length[OF publish(3)]
    by (fastforce simp: built_def con_ok_def latches_ok_def array_ok_def)
  moreover have "publish_built (e_sqlite E) (st, c, w) (s\<lparr>s_calls := n\<rparr>) = (r, s')"
    using publish(4) b by (simp add: sign_publish_def)
  ultimately show ?thesis
    using sys_ok_built[OF sys_ok_world(3)[OF ok]] by blast
qed

text \<open>A resume publishes like a sign, or changes no instance and no future.\<close>

definition quiet :: "'w sys \<Rightarrow> 'w sys \<Rightarrow> bool" where
  "quiet s s' \<longleftrightarrow> s' = s\<lparr>s_calls := s_calls s', s_world := s_world s'\<rparr>"

lemma quietI: "quiet s (s\<lparr>s_calls := n, s_world := w\<rparr>)" "quiet s s" "quiet s (s\<lparr>s_calls := n\<rparr>)"
    "quiet s (s\<lparr>s_world := w\<rparr>)"
  by (simp_all add: quiet_def)

lemma quiet_ok:
  assumes "quiet s s'" "sys_ok s"
  shows "sys_ok s' \<and> evolves s s' \<and> s_threads s' = s_threads s"
proof -
  obtain n w where s': "s' = s\<lparr>s_calls := n, s_world := w\<rparr>"
    using assms(1) unfolding quiet_def by blast
  show ?thesis
    using assms(2) unfolding s' by (simp add: sys_ok_world evolves_same)
qed

lemma load_quiet: "park_load E dsn key s = (r, s') \<Longrightarrow> quiet s s'"
  unfolding park_load_def Let_def by (auto intro: quietI split: prod.splits sum.splits if_splits)

lemma resume_row_cases:
  assumes "resume_row E hash row s = (r, s')"
  obtains (refused) n where "s' = s\<lparr>s_calls := n\<rparr>"
  | (publish) d fns st0 n where "num_state (pr_state row) = Some st0" "length fns = length (cd_pledges d)"
      "publish_built (e_sqlite E) (resume_build (e_sqlite E) (e_malloc E (s_next s)) d fns st0 row (s_world s))
         (s\<lparr>s_calls := n\<rparr>) = (r, s')"
proof (cases "num_state (pr_state row)")
  case None
  then show ?thesis
    using assms by (intro refused[of "s_calls s"]) (auto simp: resume_row_def)
next
  case (Some st0)
  let ?m = "Suc (s_calls s)"
  show ?thesis
  proof (cases "e_alloc E (s_calls s) \<and> find_desc (s_reg s) (cstr (pr_name row)) \<noteq> None")
    case False
    then show ?thesis
      using assms Some by (intro refused[of ?m]) (cases "e_alloc E (s_calls s)"; auto simp: resume_row_def sys_alloc_def)
  next
    case True
    then obtain d where d: "find_desc (s_reg s) (cstr (pr_name row)) = Some d" "e_alloc E (s_calls s)"
      by blast
    define n where "n = ?m + (if cd_pledges d = [] then 0 else 1)"
    define ok where "ok = (if cd_pledges d = [] then True else e_alloc E ?m)"
    have pre: "(if cd_pledges d = [] then (True, s\<lparr>s_calls := ?m\<rparr>) else sys_alloc E (s\<lparr>s_calls := ?m\<rparr>)) =
        (ok, s\<lparr>s_calls := n\<rparr>)"
      by (simp add: ok_def n_def sys_alloc_def)
    note unf = resume_row_def Some d pre sys_alloc_def[of E s]
    show ?thesis
    proof (cases "resolve_dispatch ok (s_bindings s) d")
      case (Inl e)
      then have "s' = s\<lparr>s_calls := ?m\<rparr> \<or> s' = s\<lparr>s_calls := n\<rparr>"
        using assms pre by (auto simp: unf split: if_splits)
      then show ?thesis
        by (elim disjE) (rule refused, assumption)+
    next
      case (Inr fns)
      have len: "length fns = length (cd_pledges d)"
        by (rule resolve_dispatch_length[OF Inr])
      consider (ver) "s' = s\<lparr>s_calls := ?m\<rparr>" | (c) "s' = s\<lparr>s_calls := Suc n\<rparr>" | (mu) "s' = s\<lparr>s_calls := Suc (Suc n)\<rparr>"
        | (go) "publish_built (e_sqlite E) (resume_build (e_sqlite E) (e_malloc E (s_next s)) d fns st0 row (s_world s))
             (s\<lparr>s_calls := Suc (Suc n)\<rparr>) = (r, s')"
        using assms pre Inr
        by (auto simp: unf sys_alloc_def[of E "s\<lparr>s_calls := n\<rparr>"] sys_alloc_def[of E "s\<lparr>s_calls := Suc n\<rparr>"] split: if_splits bool.splits)
      then show ?thesis
        by cases (use refused publish[OF Some len] in blast)+
    qed
  qed
qed

lemma sys_ok_resume:
  assumes ok: "sys_ok s" and "geas_instance_resume E dsn key hash s = Some (r, s')"
  shows "sys_ok s' \<and> evolves s s' \<and> s_threads s' = s_threads s"
proof -
  obtain x s1 where load: "park_load E dsn key s = (x, s1)"
    by force
  have q: "sys_ok s1" "evolves s s1" "s_threads s1 = s_threads s"
    using quiet_ok[OF load_quiet[OF load] ok] by auto
  consider "s' = s1" | row where "resume_row E hash row s1 = (r, s')"
    using assms(2) load
    by (auto simp: geas_instance_resume_def split: sum.splits GeasValue.splits ArrKind.splits GeasList.splits list.splits)
  then show ?thesis
  proof cases
    case 2
    then show ?thesis
    proof (cases rule: resume_row_cases)
      case (refused n)
      then show ?thesis
        using quiet_ok[OF quietI(3) q(1), of n] q evolves_trans[OF q(2)] by simp
    next
      case (publish d fns st0 n)
      obtain st c w where b: "resume_build (e_sqlite E) (e_malloc E (s_next s1)) d fns st0 row (s_world s1) = (st, c, w)"
        by (metis prod_cases3)
      have "con_ok c \<and> c_futures c = []" if "st = GEAS_OK"
        using resume_build_ok[of "e_sqlite E" _ d fns st0 row _ c w] b that publish(2) num_state_signed[OF publish(1)] by simp
      then have "sys_ok s' \<and> evolves (s1\<lparr>s_calls := n\<rparr>) s' \<and> s_threads s' = s_threads s1"
        using sys_ok_built[OF sys_ok_world(3)[OF q(1)]] publish(3) b by fastforce
      then show ?thesis
        using q evolves_trans[OF evolves_trans[OF q(2) evolves_frame(5)]] by auto
    qed
  qed (use q in simp)
qed

lemma finish_done: "s_fut (future_finish fid st val s) fid = Some f \<Longrightarrow> f_done f"
  by (auto simp: future_finish_def finish_def split: option.splits if_splits)

lemma prepare_fields:
  "fulfill_prepare M H c name args refs f = (st, h, f') \<Longrightarrow>
     f_c f' = f_c f \<and> f_refcnt f' = f_refcnt f \<and> f_waited f' = f_waited f \<and> f_done f' = f_done f"
  unfolding fulfill_prepare_def by (auto split: sum.splits prod.splits bool.splits)

lemma sys_ok_prepare:
  assumes ok: "sys_ok s" and t: "TPrepare fid name args refs \<in> set (s_threads s)"
    and p: "prepare_step E fid name args refs s = (st, s1)"
  shows "sys_ok (swap_thread (TPrepare fid name args refs) (if st = GEAS_OK then [TEnqueue fid] else []) s1)"
    and "evolves s s1" and "s_threads s1 = s_threads s"
proof -
  have "preps s fid \<noteq> 0"
    using t by (force simp: preps_def filter_empty_conv)
  then obtain f c where f: "s_fut s fid = Some f" and c: "s_con s (f_c f) = Some c"
    using sys_okD(3)[OF ok, of fid] by (auto simp: place_ok_def linked_def)
  obtain st0 h f' where fp: "fulfill_prepare (e_malloc E (f_c f)) (s_host s) c name args refs f = (st0, h, f')"
    by (metis prod_cases3)
  let ?m = "set_fut fid f' (set_con (f_c f) (c\<lparr>c_heap := h\<rparr>) s)"
  have s1: "st = st0" "s1 = (if st0 \<noteq> GEAS_OK then future_finish fid st0 None ?m else ?m)"
    using p f c fp by (auto simp: prepare_step_def Let_def split: if_splits)
  have "sys_ok (set_con (f_c f) (c\<lparr>c_heap := h\<rparr>) s)"
    using sys_okD(1)[OF ok c] by (intro sys_ok_con[OF ok c]) (auto simp: list_ok_def)
  then have "sys_ok ?m"
    by (rule sys_ok_fut) (use f prepare_fields[OF fp] sys_okD(2)[OF ok f] in \<open>auto simp: fut_ok_def\<close>)
  then have s1ok: "sys_ok s1"
    using s1(2) by (auto intro: sys_ok_finish)
  show thr: "s_threads s1 = s_threads s"
    using s1(2) by (auto simp: future_finish_def split: option.splits)
  show "evolves s s1"
    by (rule evolves_prepare[OF p f c])
  have "\<exists>f. s_fut s1 fid = Some f \<and> f_done f" if "st \<noteq> GEAS_OK"
    using that s1 by (auto simp: future_finish_def finish_def)
  then show "sys_ok (swap_thread (TPrepare fid name args refs) (if st = GEAS_OK then [TEnqueue fid] else []) s1)"
    by (intro sys_ok_prepared[OF s1ok]) (use t thr in auto)
qed


section \<open>Good steps\<close>

definition runs :: "'w sys \<Rightarrow> nat \<Rightarrow> nat" where
  "runs s fid = count_list (s_threads s) (TRunning fid)"

text \<open>A good transition keeps the invariant, evolves the system, and neither starts nor stops a run.\<close>

definition good :: "'w sys \<Rightarrow> 'w sys \<Rightarrow> bool" where
  "good s s' \<longleftrightarrow> (sys_ok s \<longrightarrow> sys_ok s' \<and> evolves s s' \<and> runs s' = runs s)"

lemma goodD: "good s s' \<Longrightarrow> sys_ok s \<Longrightarrow> sys_ok s' \<and> evolves s s' \<and> runs s' = runs s"
  by (simp add: good_def)

lemma goodI:
  "(sys_ok s \<Longrightarrow> sys_ok s') \<Longrightarrow> (sys_ok s \<Longrightarrow> evolves s s') \<Longrightarrow> (sys_ok s \<Longrightarrow> runs s' = runs s) \<Longrightarrow> good s s'"
  by (simp add: good_def)

lemma good_refl [simp]: "good s s"
  by (simp add: good_def)

lemma good_trans: "good a b \<Longrightarrow> good b c \<Longrightarrow> good a c"
  using evolves_trans by (auto simp: good_def)

lemma good_rtrancl: "R\<^sup>*\<^sup>* a b \<Longrightarrow> (\<And>x y. R x y \<Longrightarrow> good x y) \<Longrightarrow> good a b"
  by (induction rule: rtranclp_induct) (auto intro: good_trans)

lemma runs_cong: "s_threads s' = s_threads s \<Longrightarrow> runs s' = runs s"
  by (simp add: runs_def fun_eq_iff)

lemma count_remove1: "t \<in> set ts \<Longrightarrow> Suc (count_list (remove1 t ts) t) = count_list ts t"
  "u \<noteq> t \<Longrightarrow> count_list (remove1 t ts) u = count_list ts u"
  by (induction ts) auto

lemma runs_swap:
  assumes "\<And>fid. t \<noteq> TRunning fid" "\<And>fid. TRunning fid \<notin> set us"
  shows "runs (swap_thread t us s) = runs s"
  using assms by (auto simp: runs_def fun_eq_iff count_remove1(2) count_list_0_iff)

lemma good_con:
  assumes "s_con s i = Some c" "con_evolves c c'" "con_ok c \<Longrightarrow> con_ok c'" "c_futures c' = c_futures c"
  shows "good s (set_con i c' (s\<lparr>s_world := w\<rparr>))"
proof (rule goodI)
  assume ok: "sys_ok s"
  show "sys_ok (set_con i c' (s\<lparr>s_world := w\<rparr>))"
    using sys_okD(1)[OF ok assms(1)] assms
    by (intro sys_ok_con[OF sys_ok_world(1)[OF ok]]) (auto simp: list_ok_def)
qed (use assms in \<open>auto intro: evolves_con_world runs_cong\<close>)

lemma finish_frame [simp]:
  "s_threads (future_finish fid st val s) = s_threads s" "s_con (future_finish fid st val s) = s_con s"
  "s_queue (future_finish fid st val s) = s_queue s"
  by (simp_all add: future_finish_def split: option.split)

lemma good_finish: "good s (future_finish fid st val s)"
  by (rule goodI) (auto intro: sys_ok_finish evolves_finish runs_cong)

lemma good_frame:
  assumes "s_fut s fid = Some f"
  shows "good s (set_fut fid (set_frame fr f) s)"
proof (rule goodI)
  assume ok: "sys_ok s"
  show "sys_ok (set_fut fid (set_frame fr f) s)"
    using sys_okD(2)[OF ok assms] by (intro sys_ok_fut[OF ok assms]) (auto simp: set_frame_def fut_ok_def)
  show "evolves s (set_fut fid (set_frame fr f) s)"
    using assms by (rule evolves_fut) (simp add: set_frame_def fut_evolves_def outcome_def)
qed (auto intro: runs_cong)

text \<open>Runs are good when their bodies are.\<close>

definition body_good :: "'w thunk \<Rightarrow> bool" where
  "body_good T \<longleftrightarrow> (\<forall>fn i fr s0 st out fr' s1. T fn i fr s0 = (st, out, fr', s1) \<longrightarrow> good s0 s1)"

lemma good_run_body:
  assumes T: "body_good T" and c: "s_con s i = Some c" and ok: "sys_ok s"
    and run: "run_body E T i fn pidx fr s = (st, val, fr', s')"
  shows "good s s'"
  using run c
proof (cases rule: run_body_cases)
  case (gate c0 w)
  then show ?thesis
    using good_con[OF c txn_before_evolves[OF gate(1)]] txn_before_ok[OF gate(1)] sys_okD(1)[OF ok c]
    by (simp add: list_ok_def)
next
  case (ran c0 w st1 out s1 c3 w')
  let ?a = "set_con i c0 (s\<lparr>s_world := w\<rparr>)"
  have a: "good s ?a"
    using good_con[OF c txn_before_evolves[OF ran(1)]] txn_before_ok[OF ran(1)] sys_okD(1)[OF ok c]
    by (simp add: list_ok_def)
  have b: "good ?a s1"
    using T ran(2) unfolding body_good_def by blast
  have ok1: "sys_ok s1" and e1: "evolves ?a s1"
    using goodD[OF b] goodD[OF a ok] by auto
  obtain c1 where c1: "s_con s1 i = Some c1"
    using evolves_con_D[OF e1, of i c0] by auto
  have "con_ok c1"
    using sys_okD(1)[OF ok1 c1] by (simp add: list_ok_def)
  then have "con_ok c3" "c_futures c3 = c_futures c1"
    using txn_after_ok[OF ran(3)] c1 by (auto simp: con_ok_outcome)
  moreover have "con_evolves c1 c3"
    using con_evolves_trans[OF latch_outcome_evolves txn_after_evolves[OF ran(3)]] c1 by simp
  ultimately have "good s1 s'"
    unfolding ran(5) by (intro good_con[OF c1])
  then show ?thesis
    by (rule good_trans[OF good_trans[OF a b]])
qed

lemma good_run_task:
  assumes T: "body_good T" and ok: "sys_ok s" and f: "s_fut s fid = Some f"
  shows "good s (run_task E T fid s) \<and> (\<forall>g. s_fut (run_task E T fid s) fid = Some g \<longrightarrow> f_done g)"
proof -
  obtain c where c: "s_con s (f_c f) = Some c"
    using sys_okD(2)[OF ok f] by (auto simp: fut_ok_def)
  with f show ?thesis
  proof (cases rule: run_task_cases[of s fid f c E T])
    case (ran st val fr' s1)
    have s1: "good s s1"
      by (rule good_run_body[OF T c ok ran(2)])
    show ?thesis
    proof (cases "s_fut s1 fid")
      case (Some g)
      then show ?thesis
        using ran(3) good_trans[OF s1 good_trans[OF good_frame[OF Some] good_finish]] finish_done by auto
    qed (use s1 ran(3) in auto)
  qed (auto intro: good_finish finish_done)
qed

lemma good_inline:
  assumes T: "body_good T" and c: "s_con s i = Some c" and ok: "sys_ok s"
    and run: "fulfill_inline E T i name args refs s = (st, out, s')"
  shows "good s s'"
  using run c
proof (cases rule: inline_cases)
  case (copy h)
  then show ?thesis
    using good_con[OF c, of "c\<lparr>c_heap := h\<rparr>" "s_world s"] by simp
next
  case (ran p fr h st1 val fr' s1 H)
  have a: "good s (set_con i (c\<lparr>c_heap := h\<rparr>) s)"
    using good_con[OF c, of "c\<lparr>c_heap := h\<rparr>" "s_world s"] by simp
  have b: "good (set_con i (c\<lparr>c_heap := h\<rparr>) s) s1"
    using goodD[OF a ok] by (intro good_run_body[OF T _ _ ran(3)]) auto
  have "good s1 s'"
    unfolding ran(4) by (rule goodI) (auto intro: sys_ok_world runs_cong)
  then show ?thesis
    by (rule good_trans[OF good_trans[OF a b]])
qed simp


section \<open>The induction\<close>

lemma good_run:
  assumes T: "body_good T" and t: "TRun fid \<in> set (s_threads s)"
  shows "good s (swap_thread (TRunning fid) [TDrop fid] (run_task E T fid (swap_thread (TRun fid) [TRunning fid] s)))"
    (is "good s (swap_thread _ _ (run_task E T fid ?a))")
proof -
  { assume ok: "sys_ok s"
    let ?b = "run_task E T fid ?a"
    have a: "sys_ok ?a"
      by (rule sys_ok_start[OF ok t])
    have "holds s fid \<noteq> 0"
      using t by (force simp: holds_def filter_empty_conv)
    then obtain f where "s_fut s fid = Some f"
      using sys_okD(3)[OF ok, of fid] by (auto simp: place_ok_def)
    then have run: "good ?a ?b" "\<And>g. s_fut ?b fid = Some g \<Longrightarrow> f_done g"
      using good_run_task[OF T a, of fid f E] by auto
    have b: "sys_ok ?b" "evolves ?a ?b" "runs ?b = runs ?a"
      using goodD[OF run(1) a] by auto
    have ra: "runs ?a g = runs s g + (if g = fid then 1 else 0)" for g
      by (simp add: runs_def count_remove1(2))
    then have "runs ?b fid \<noteq> 0"
      using b(3) by simp
    then have tb: "TRunning fid \<in> set (s_threads ?b)"
      by (simp add: runs_def count_list_0_iff)
    have rb: "runs (swap_thread (TRunning fid) [TDrop fid] ?b) g + (if g = fid then 1 else 0) = runs ?b g" for g
      using tb count_remove1[of "TRunning fid"] by (auto simp: runs_def)
    have "sys_ok (swap_thread (TRunning fid) [TDrop fid] ?b)"
      by (rule sys_ok_stop[OF b(1) tb run(2)])
    moreover have "evolves s (swap_thread (TRunning fid) [TDrop fid] ?b)"
      by (rule evolves_trans[OF evolves_trans[OF evolves_frame(8) b(2)] evolves_frame(8)])
    moreover have "runs (swap_thread (TRunning fid) [TDrop fid] ?b) g = runs s g" for g
      using rb[of g] ra[of g] b(3) by (simp split: if_splits)
    ultimately have "good s (swap_thread (TRunning fid) [TDrop fid] ?b)"
      by (auto simp: good_def)
  }
  then show ?thesis
    by (auto simp: good_def)
qed

lemma good_new:
  assumes "s_con s i \<noteq> None" "future_new E i s = (Some fid, s1)"
  shows "good s (s1\<lparr>s_threads := TPrepare fid name args refs # s_threads s1\<rparr>)"
proof (rule goodI)
  have "s_threads s1 = s_threads s"
    using assms(2) unfolding future_new_def sys_alloc_def by (auto simp: Let_def split: prod.splits bool.splits)
  then show "runs (s1\<lparr>s_threads := TPrepare fid name args refs # s_threads s1\<rparr>) = runs s"
    by (simp add: runs_def fun_eq_iff)
  show "evolves s (s1\<lparr>s_threads := TPrepare fid name args refs # s_threads s1\<rparr>)"
    by (rule evolves_trans[OF evolves_new[OF assms(2)] evolves_frame(4)]) (use assms in auto)
qed (rule sys_ok_new[OF _ assms(2,1)])

lemma good_new_fail: "future_new E i s = (None, s') \<Longrightarrow> good s s'"
  by (auto simp: future_new_def sys_alloc_def Let_def good_def runs_def intro: sys_ok_world split: prod.splits bool.splits)

lemma unref_frame [simp]:
  "s_threads (future_unref fid s) = s_threads s" "s_queue (future_unref fid s) = s_queue s"
  "s_con (future_unref fid s) = s_con s"
  by (simp_all add: future_unref_def future_free_def Let_def split: option.split)

lemma good_prepare:
  assumes "TPrepare fid name args refs \<in> set (s_threads s)" "prepare_step E fid name args refs s = (st, s1)"
  shows "good s (swap_thread (TPrepare fid name args refs) (if st = GEAS_OK then [TEnqueue fid] else []) s1)"
proof (rule goodI)
  assume ok: "sys_ok s"
  note p = sys_ok_prepare[OF ok assms]
  show "sys_ok (swap_thread (TPrepare fid name args refs) (if st = GEAS_OK then [TEnqueue fid] else []) s1)"
    by (rule p(1))
  show "evolves s (swap_thread (TPrepare fid name args refs) (if st = GEAS_OK then [TEnqueue fid] else []) s1)"
    by (rule evolves_trans[OF p(2) evolves_frame(8)])
  show "runs (swap_thread (TPrepare fid name args refs) (if st = GEAS_OK then [TEnqueue fid] else []) s1) = runs s"
    using p(3) by (subst runs_swap) (auto intro: runs_cong split: if_splits)
qed

lemma wait_threads: "geas_future_wait E fid s = Some (st, out, s') \<Longrightarrow> s_threads s' = s_threads s"
  by (auto simp: geas_future_wait_def Let_def split: option.splits if_splits prod.splits)

lemma release_threads: "s_threads (future_release fid s) = s_threads s"
  by (simp add: future_release_def split: option.split)

lemma enqueue_threads: "s_threads (enqueue_step fid s) = s_threads s"
  by (simp add: enqueue_step_def pool_enqueue_def split: option.split)

lemma break_threads: "geas_contract_break E i s = (st, s') \<Longrightarrow> s_threads s' = s_threads s"
  by (auto simp: geas_contract_break_def Let_def split: option.splits if_splits prod.splits)

lemma sign_threads: "geas_contract_sign E name vows hash s = (r, s') \<Longrightarrow> s_threads s' = s_threads s"
  by (erule sign_cases) (auto elim: publish_cases)

theorem api_good: "api E s s' \<Longrightarrow> good s s'"
proof (induction rule: api.induct)
  case (sign name vows hash s r s')
  then show ?case
    using no_trace(2)[OF _ order_refl] by (intro goodI) (auto intro: sys_ok_sign evolves_sign runs_cong sign_threads)
next
  case (brk i s st s')
  then show ?case
    by (intro goodI) (auto intro: sys_ok_break evolves_break runs_cong break_threads)
next
  case (enqueue fid s)
  then show ?case
    by (intro goodI) (simp_all add: sys_ok_enqueue evolves_trans[OF evolves_enqueue evolves_frame(8)]
        runs_swap runs_cong[OF enqueue_threads])
next
  case (dequeue s fid s1)
  then have "s_threads s1 = s_threads s" "evolves s s1"
    by (auto simp: pool_dequeue_def split: list.splits)
  then show ?case
    using sys_ok_dequeue[OF _ dequeue]
    by (intro goodI) (auto simp: runs_def fun_eq_iff intro: evolves_trans[OF _ evolves_frame(4)])
next
  case (run fid s T)
  have "body_good T"
    unfolding body_good_def
  proof (intro allI impI)
    fix fn i fr s0 st out fr' s1
    assume "T fn i fr s0 = (st, out, fr', s1)"
    then have "(\<lambda>x y. api E x y \<and> good x y)\<^sup>*\<^sup>* s0 s1"
      using run(2) by blast
    then show "good s0 s1"
      by (rule good_rtrancl) simp
  qed
  then show ?case
    by (rule good_run[OF _ run(1)])
next
  case (drop fid s)
  then show ?case
    by (intro goodI) (simp_all add: sys_ok_drop evolves_trans[OF evolves_unref evolves_frame(8)]
        runs_swap runs_cong[OF unref_frame(1)])
next
  case (wait s fid st out s')
  then show ?case
    by (intro goodI) (auto intro: sys_ok_wait evolves_wait runs_cong wait_threads)
next
  case (release s fid f)
  then show ?case
    by (intro goodI) (auto intro: sys_ok_release evolves_release runs_cong release_threads)
next
  case (inline s i T name args refs st out s')
  have T: "body_good T"
    unfolding body_good_def
  proof (intro allI impI)
    fix fn i fr s0 st out fr' s1
    assume "T fn i fr s0 = (st, out, fr', s1)"
    then have "(\<lambda>x y. api E x y \<and> good x y)\<^sup>*\<^sup>* s0 s1"
      using inline(3) by blast
    then show "good s0 s1"
      by (rule good_rtrancl) simp
  qed
  show ?case
    using inline(1,2) good_inline[OF T] by (auto simp: good_def)
next
  case (heap s i c c' w)
  then show ?case
    using con_ok_only_heap[OF heap(2)] con_evolves_only_heap[OF heap(2)]
    by (intro good_con[OF heap(1)]) (auto simp: only_heap_def)
next
  case (park i dsn key s st s')
  then have "quiet s s'"
    using park_frame[of E i dsn key s st s'] by (auto intro: quietI(1))
  then show ?case
    using quiet_ok[of s s'] by (intro goodI) (auto intro: runs_cong)
next
  case (resume dsn key hash s r s')
  show ?case
    using sys_ok_resume[OF _ resume] by (intro goodI) (auto intro: runs_cong)
next
  case (registry M s rg)
  then show ?case
    by (intro goodI) (auto intro: sys_ok_same runs_cong)
next
  case (bind s name f st bs)
  then show ?case
    by (intro goodI) (auto intro: sys_ok_same runs_cong)
next
  case (host s H)
  then show ?case
    by (intro goodI) (auto intro: sys_ok_world runs_cong)
qed (erule good_new good_new_fail good_prepare, (assumption+)?)+

text \<open>Every state the runtime reaches from its initialisation.\<close>

definition reachable :: "'w env \<Rightarrow> 'w sys \<Rightarrow> bool" where
  "reachable E s \<longleftrightarrow> (\<exists>mt H w s0. geas_runtime_init E mt H w = Inr s0 \<and> (api E)\<^sup>*\<^sup>* s0 s)"

lemma init_ok: "geas_runtime_init E mt H w = Inr s \<Longrightarrow> sys_ok s"
  by (auto simp: geas_runtime_init_def init_sys_def sys_ok_def place_ok_def holds_def preps_def Let_def
      split: if_splits)

lemma api_star_good: "(api E)\<^sup>*\<^sup>* s s' \<Longrightarrow> good s s'"
  by (erule good_rtrancl) (rule api_good)

lemma reachable_ok: "reachable E s \<Longrightarrow> sys_ok s"
  unfolding reachable_def by (elim exE conjE) (rule goodD[OF api_star_good init_ok, THEN conjunct1])

end
