(* ===== verification/Geas_System_Live.thy ===== *)
theory Geas_System_Live
  imports Geas_System_Inv
begin

text \<open>
  The pool serves its queue: after as many turns as a future has predecessors, and one more, the
  future is done, so a wait returns.
\<close>

lemma pool_turn_api:
  assumes "body_ok E T"
  shows "(api E)\<^sup>*\<^sup>* s (pool_turn E T s)"
proof (cases "pool_dequeue s")
  case (Some r)
  obtain fid s1 where r: "r = (fid, s1)"
    by force
  let ?a = "s1\<lparr>s_threads := TRun fid # s_threads s1\<rparr>"
  let ?b = "swap_thread (TRunning fid) [TDrop fid] (run_task E T fid (swap_thread (TRun fid) [TRunning fid] ?a))"
  have "api E s ?a"
    using Some r by (intro api.dequeue) simp
  moreover have "api E ?a ?b"
    by (rule api.run) (use assms in \<open>simp_all add: body_ok_def\<close>)
  moreover have "api E ?b (swap_thread (TDrop fid) [] (future_unref fid ?b))"
    by (rule api.drop) simp
  ultimately show ?thesis
    using Some r by (simp add: pool_turn_def Let_def)
qed (simp add: pool_turn_def)

lemma pool_worker_api: "body_ok E T \<Longrightarrow> (api E)\<^sup>*\<^sup>* s (pool_worker E T n s)"
  by (induction n arbitrary: s) (auto intro: rtranclp_trans pool_turn_api)

text \<open>A body that leaves the queue and the receipts of others alone: it only appends to the queue and
  only releases receipts of calls it made itself.\<close>

definition kept :: "'w sys \<Rightarrow> 'w sys \<Rightarrow> bool" where
  "kept s s' \<longleftrightarrow> (\<exists>q. s_queue s' = s_queue s @ q) \<and> (\<forall>fid. fid < s_next s \<longrightarrow> linked s fid \<longrightarrow> linked s' fid)"

definition body_fair :: "'w thunk \<Rightarrow> bool" where
  "body_fair T \<longleftrightarrow> (\<forall>fn i fr s0 st out fr' s1. T fn i fr s0 = (st, out, fr', s1) \<longrightarrow> kept s0 s1)"

lemma kept_same: "s_queue s' = s_queue s \<Longrightarrow> (\<And>fid. linked s fid \<Longrightarrow> linked s' fid) \<Longrightarrow> kept s s'"
  by (simp add: kept_def)

lemma kept_trans: "kept a b \<Longrightarrow> kept b c \<Longrightarrow> s_next a \<le> s_next b \<Longrightarrow> kept a c"
  unfolding kept_def by (metis append.assoc less_le_trans)

lemma kept_con:
  assumes "s_con s i = Some c" "c_futures c' = c_futures c"
  shows "kept s (set_con i c' (s\<lparr>s_world := w\<rparr>))"
  using assms by (intro kept_same) (auto simp: linked_def)

lemma kept_finish: "kept s (future_finish fid st val s)"
  by (rule kept_same) (auto simp: future_finish_def linked_def finish_def split: option.splits)

lemma kept_frame: "s_fut s fid = Some f \<Longrightarrow> kept s (set_fut fid (set_frame fr f) s)"
  by (rule kept_same) (auto simp: linked_def set_frame_def)

lemma body_ok_good: "body_ok E T \<Longrightarrow> body_good T"
  unfolding body_ok_def body_good_def using api_star_good by blast

lemma run_body_kept:
  assumes T: "body_ok E T" "body_fair T" and run: "run_body E T i fn pidx fr s = (st, val, fr', s')"
    and c: "s_con s i = Some c" and ok: "sys_ok s"
  shows "kept s s'"
  using run c
proof (cases rule: run_body_cases)
  case (gate c0 w)
  then show ?thesis
    using kept_con[OF c] txn_before_ok[OF gate(1)] sys_okD(1)[OF ok c] by (simp add: list_ok_def)
next
  case (ran c0 w st1 out s1 c3 w')
  let ?a = "set_con i c0 (s\<lparr>s_world := w\<rparr>)"
  have c0: "con_ok c0" "c_futures c0 = c_futures c"
    using txn_before_ok[OF ran(1)] sys_okD(1)[OF ok c] by (auto simp: list_ok_def)
  have a: "kept s ?a"
    by (rule kept_con[OF c c0(2)])
  have b: "kept ?a s1"
    using T(2) ran(2) unfolding body_fair_def by blast
  have "good s ?a"
    by (rule good_con[OF c txn_before_evolves[OF ran(1)] c0])
  moreover have g: "good ?a s1"
    using body_ok_good[OF T(1)] ran(2) unfolding body_good_def by blast
  ultimately have ok1: "sys_ok s1" and e1: "evolves ?a s1"
    using goodD ok by blast+
  obtain c1 where c1: "s_con s1 i = Some c1"
    using evolves_con_D[OF e1, of i c0] by auto
  have "con_ok (latch_outcome st1 pidx out c1)"
    using sys_okD(1)[OF ok1 c1] by (simp add: list_ok_def con_ok_outcome)
  then have "kept s1 s'"
    unfolding ran(5) using txn_after_ok[OF ran(3)] c1 by (intro kept_con[OF c1]) simp
  moreover have "s_next s \<le> s_next s1"
    using e1 by (simp add: evolves_def)
  ultimately show ?thesis
    using kept_trans[OF kept_trans[OF a b]] by simp
qed

lemma run_task_kept:
  assumes T: "body_ok E T" "body_fair T" and ok: "sys_ok s" and f: "s_fut s fid = Some f"
  shows "kept s (run_task E T fid s)"
proof -
  obtain c where c: "s_con s (f_c f) = Some c"
    using sys_okD(2)[OF ok f] by (auto simp: fut_ok_def)
  with f show ?thesis
  proof (cases rule: run_task_cases[of s fid f c E T])
    case (ran st val fr' s1)
    have k: "kept s s1"
      by (rule run_body_kept[OF T ran(2) c ok])
    have "s_next s \<le> s_next s1"
      using goodD[OF good_run_body[OF body_ok_good[OF T(1)] c ok ran(2)] ok] by (simp add: evolves_def)
    then show ?thesis
      unfolding ran(3) using k kept_trans[OF kept_trans[OF k kept_frame] kept_finish]
      by (auto split: option.split)
  qed (simp add: kept_finish)
qed

lemma unref_linked:
  assumes ok: "sys_ok s" and t: "TDrop fid \<in> set (s_threads s)"
  shows "linked (future_unref fid s) g = linked s g"
proof -
  have h: "holds s fid \<noteq> 0"
    using t by (force simp: holds_def filter_empty_conv)
  then obtain f where f: "s_fut s fid = Some f"
    using sys_okD(3)[OF ok, of fid] by (auto simp: place_ok_def)
  then have "linked s fid \<Longrightarrow> f_refcnt f - 1 \<noteq> 0"
    using sys_okD(2)[OF ok f] h by (simp add: fut_ok_def)
  then show ?thesis
    using f by (auto simp: future_unref_def Let_def linked_def future_free_def)
qed

lemma linked_threads [simp]: "linked (swap_thread t us s) = linked s" "linked (s\<lparr>s_threads := ts\<rparr>) = linked s"
    "linked (s\<lparr>s_queue := q\<rparr>) = linked s"
  by (simp_all add: linked_def fun_eq_iff)

text \<open>One turn takes the head of the queue, and that future is done afterwards.\<close>

lemma pool_turn_head:
  assumes T: "body_ok E T" "body_fair T" and ok: "sys_ok s" and q: "s_queue s = fid # rest"
  shows "\<exists>more. s_queue (pool_turn E T s) = rest @ more"
    and "\<And>f. s_fut (pool_turn E T s) fid = Some f \<Longrightarrow> f_done f"
    and "\<And>g. linked s g \<Longrightarrow> g < s_next s \<Longrightarrow> linked (pool_turn E T s) g"
proof -
  let ?a = "swap_thread (TRun fid) [TRunning fid] (s\<lparr>s_queue := rest, s_threads := TRun fid # s_threads s\<rparr>)"
  let ?b = "run_task E T fid ?a"
  have turn: "pool_turn E T s = swap_thread (TDrop fid) [] (future_unref fid (swap_thread (TRunning fid) [TDrop fid] ?b))"
    using q by (simp add: pool_turn_def pool_dequeue_def Let_def)
  have deq: "pool_dequeue s = Some (fid, s\<lparr>s_queue := rest\<rparr>)"
    using q by (simp add: pool_dequeue_def)
  have a: "sys_ok ?a"
    using sys_ok_start[OF sys_ok_dequeue[OF ok deq], of fid] by simp
  have "holds s fid \<noteq> 0"
    by (simp add: holds_def q)
  then obtain f where "s_fut s fid = Some f"
    using sys_okD(3)[OF ok, of fid] by (auto simp: place_ok_def)
  then have f: "s_fut ?a fid = Some f"
    by simp
  have k: "kept ?a ?b"
    by (rule run_task_kept[OF T a f])
  then show "\<exists>more. s_queue (pool_turn E T s) = rest @ more"
    by (simp add: turn kept_def)
  have run: "good ?a ?b" "\<And>g. s_fut ?b fid = Some g \<Longrightarrow> f_done g"
    using good_run_task[OF body_ok_good[OF T(1)] a f] by auto
  note fin = run(2)
  have "runs ?b fid = runs ?a fid" "runs ?a fid \<noteq> 0"
    using goodD[OF run(1) a] by (simp, simp add: runs_def)
  then have "TRunning fid \<in> set (s_threads ?b)"
    unfolding runs_def by (metis count_notin)
  then have "sys_ok (swap_thread (TRunning fid) [TDrop fid] ?b)"
    using goodD[OF run(1) a] fin by (intro sys_ok_stop) auto
  from unref_linked[OF this, of fid] have "linked (pool_turn E T s) = linked ?b"
    by (simp add: turn fun_eq_iff)
  then show "linked (pool_turn E T s) g" if "linked s g" "g < s_next s" for g
    using k that by (auto simp: kept_def)
  show "f_done g" if "s_fut (pool_turn E T s) fid = Some g" for g
    using that fin unfolding turn
    by (auto simp: future_unref_def future_free_def Let_def split: option.splits if_splits)
qed

lemma done_stays:
  assumes "(api E)\<^sup>*\<^sup>* s s'" "sys_ok s" "fid < s_next s" "\<And>f. s_fut s fid = Some f \<Longrightarrow> f_done f" "s_fut s' fid = Some g"
  shows "f_done g"
proof -
  have "evolves s s'"
    using goodD[OF api_star_good[OF assms(1)] assms(2)] by simp
  then obtain f where "s_fut s fid = Some f" "fut_evolves f g"
    using evolves_fut_D assms(3,5) by blast
  then show ?thesis
    using assms(4) by (auto simp: fut_evolves_def)
qed

lemma pool_serves:
  assumes T: "body_ok E T" "body_fair T" and "sys_ok s" "s_queue s = pre @ fid # post" "length pre < n"
    "s_fut (pool_worker E T n s) fid = Some g"
  shows "f_done g"
  using assms(3-6)
proof (induction pre arbitrary: s n post)
  case Nil
  then obtain m where n: "n = Suc m"
    by (cases n) auto
  let ?t = "pool_turn E T s"
  have t: "(api E)\<^sup>*\<^sup>* s ?t"
    by (rule pool_turn_api[OF T(1)])
  have "sys_ok ?t" "evolves s ?t"
    using goodD[OF api_star_good[OF t] Nil(1)] by auto
  moreover have "fid < s_next s"
  proof -
    have "holds s fid \<noteq> 0"
      using Nil(2) by (simp add: holds_def)
    then obtain f where "s_fut s fid = Some f"
      using sys_okD(3)[OF Nil(1), of fid] by (auto simp: place_ok_def)
    then show ?thesis
      using sys_okD(2)[OF Nil(1)] by (auto simp: fut_ok_def)
  qed
  ultimately show ?case
    using done_stays[OF pool_worker_api[OF T(1)], of ?t fid m g] pool_turn_head(2)[OF T Nil(1), of fid post] Nil n
    by (auto simp: evolves_def)
next
  case (Cons x pre)
  then obtain m where n: "n = Suc m"
    by (cases n) auto
  obtain more where q: "s_queue (pool_turn E T s) = (pre @ fid # post) @ more"
    using pool_turn_head(1)[OF T Cons.prems(1), of x "pre @ fid # post"] Cons.prems(2) by auto
  have "sys_ok (pool_turn E T s)"
    using goodD[OF api_star_good[OF pool_turn_api[OF T(1)]] Cons.prems(1)] by simp
  then show ?case
    using q Cons.prems(3,4) n by (intro Cons.IH[of "pool_turn E T s" "post @ more" m]) auto
qed


lemma linked_less: "sys_ok s \<Longrightarrow> linked s fid \<Longrightarrow> fid < s_next s"
  using sys_okD(2) by (fastforce simp: linked_def fut_ok_def)

lemma pool_turn_linked:
  assumes "body_ok E T" "body_fair T" "sys_ok s" "linked s g"
  shows "linked (pool_turn E T s) g"
proof (cases "s_queue s")
  case Nil
  then show ?thesis
    using assms(4) by (simp add: pool_turn_def pool_dequeue_def)
next
  case (Cons fid rest)
  then show ?thesis
    using pool_turn_head(3)[OF assms(1-3) Cons assms(4)] linked_less[OF assms(3,4)] by blast
qed

lemma pool_worker_linked:
  "body_ok E T \<Longrightarrow> body_fair T \<Longrightarrow> sys_ok s \<Longrightarrow> linked s g \<Longrightarrow> linked (pool_worker E T n s) g"
proof (induction n arbitrary: s)
  case (Suc n)
  then have "sys_ok (pool_turn E T s)"
    using goodD[OF api_star_good[OF pool_turn_api]] by blast
  then show ?case
    using Suc pool_turn_linked by fastforce
qed simp


section \<open>A fulfillment on one thread\<close>

lemma finish_threads:
  "future_finish fid st val (s\<lparr>s_threads := ts\<rparr>) = (future_finish fid st val s)\<lparr>s_threads := ts\<rparr>"
  by (simp add: future_finish_def set_fut_def split: option.split)

lemma set_threads:
  "set_con i c (s\<lparr>s_threads := ts\<rparr>) = (set_con i c s)\<lparr>s_threads := ts\<rparr>"
  "set_fut fid f (s\<lparr>s_threads := ts\<rparr>) = (set_fut fid f s)\<lparr>s_threads := ts\<rparr>"
  "s_threads s = ts \<Longrightarrow> s\<lparr>s_threads := ts\<rparr> = s"
  by (simp_all add: set_con_def set_fut_def)

lemma prepare_threads:
  "prepare_step E fid name args refs s = (st, s') \<Longrightarrow>
     prepare_step E fid name args refs (s\<lparr>s_threads := ts\<rparr>) = (st, s'\<lparr>s_threads := ts\<rparr>)"
  unfolding prepare_step_def Let_def
  by (auto simp: finish_threads set_threads(1,2) split: prod.splits if_splits)

lemma enqueue_step_threads: "enqueue_step fid (s\<lparr>s_threads := ts\<rparr>) = (enqueue_step fid s)\<lparr>s_threads := ts\<rparr>"
  by (simp add: enqueue_step_def pool_enqueue_def set_fut_def split: option.split)

text \<open>The call is three of the steps; it leaves a receipt whose future is done or the last in the queue.\<close>

lemma fulfill_steps:
  assumes call: "geas_pledge_fulfill E i name args refs s = (Some fid, s')"
    and c: "s_con s i \<noteq> None" and ok: "sys_ok s"
  shows "(api E)\<^sup>*\<^sup>* s s'" and "linked s' fid" and "s_threads s' = s_threads s"
    and "s_queue s' = s_queue s @ [fid] \<or> (\<exists>f. s_fut s' fid = Some f \<and> f_done f)"
proof -
  obtain s1 st s2 where s1: "future_new E i s = (Some fid, s1)"
      and s2: "prepare_step E fid name args refs s1 = (st, s2)"
      and s': "s' = (if st \<noteq> GEAS_OK then s2 else enqueue_step fid s2)"
    using call by (auto simp: geas_pledge_fulfill_def split: prod.splits option.splits if_splits)
  let ?p = "TPrepare fid name args refs"
  let ?a = "s1\<lparr>s_threads := ?p # s_threads s1\<rparr>"
  let ?b = "s2\<lparr>s_threads := ?p # s_threads s1\<rparr>"
  have thr: "s_threads s1 = s_threads s" "s_queue s1 = s_queue s"
    using s1 unfolding future_new_def sys_alloc_def by (auto simp: Let_def split: prod.splits bool.splits)
  have stepa: "api E s ?a"
    by (rule api.new[OF c s1])
  have oka: "sys_ok ?a"
    by (rule sys_ok_new[OF ok s1 c])
  have prep: "prepare_step E fid name args refs ?a = (st, ?b)"
    by (rule prepare_threads[OF s2])
  let ?m = "swap_thread ?p (if st = GEAS_OK then [TEnqueue fid] else []) ?b"
  have stepb: "api E ?a ?m"
    by (rule api.prepare[OF _ prep]) simp
  have okm: "sys_ok ?m"
    by (rule sys_ok_prepare(1)[OF oka _ prep]) simp
  have q2: "s_queue s2 = s_queue s1" "s_threads s2 = s_threads s1"
    using s2 by (auto simp: prepare_step_def Let_def split: prod.splits if_splits)
  have la: "linked ?a fid"
    using sys_okD(3)[OF oka, of fid] by (simp add: place_ok_def preps_def)
  have l2: "linked s2 fid"
    using la s2 prepare_fields
    by (fastforce simp: linked_def prepare_step_def Let_def future_finish_def finish_def split: prod.splits if_splits option.splits)
  show "s_threads s' = s_threads s"
    using q2 thr by (simp add: s' enqueue_threads)
  show "(api E)\<^sup>*\<^sup>* s s'" "linked s' fid"
    "s_queue s' = s_queue s @ [fid] \<or> (\<exists>f. s_fut s' fid = Some f \<and> f_done f)"
  proof (atomize (full), cases "st = GEAS_OK")
    case True
    have m: "?m = s2\<lparr>s_threads := TEnqueue fid # s_threads s1\<rparr>"
      using True by (simp add: swap_thread_def)
    let ?e = "swap_thread (TEnqueue fid) [] (enqueue_step fid ?m)"
    have e: "?e = s'"
      unfolding m enqueue_step_threads s' using True q2 by (simp add: swap_thread_def set_threads(3) enqueue_threads)
    have stepc: "api E ?m ?e"
      by (rule api.enqueue) (simp add: m)
    obtain f where "s_fut s2 fid = Some f"
      using l2 by (auto simp: linked_def)
    then show "(api E)\<^sup>*\<^sup>* s s' \<and> linked s' fid \<and>
        (s_queue s' = s_queue s @ [fid] \<or> (\<exists>f. s_fut s' fid = Some f \<and> f_done f))"
      using stepa stepb stepc l2 q2 thr True unfolding e
      by (auto simp: s' enqueue_step_def pool_enqueue_def linked_def)
  next
    case False
    have m: "?m = s'"
      using False q2 by (simp add: swap_thread_def s')
    have "\<exists>f. s_fut s2 fid = Some f \<and> f_done f"
      using l2 s2 False by (auto simp: linked_def prepare_step_def Let_def future_finish_def finish_def
          split: prod.splits if_splits option.splits)
    then show "(api E)\<^sup>*\<^sup>* s s' \<and> linked s' fid \<and>
        (s_queue s' = s_queue s @ [fid] \<or> (\<exists>f. s_fut s' fid = Some f \<and> f_done f))"
      using stepa stepb l2 False unfolding m by (auto simp: s')
  qed
qed


section \<open>Waiting\<close>

lemma wait_done: "s_fut s fid = Some f \<Longrightarrow> f_done f \<Longrightarrow> geas_future_wait E fid s \<noteq> None"
  by (auto simp: geas_future_wait_def Let_def split: prod.splits)

lemma sync_served:
  assumes T: "body_ok E T" "body_fair T" and ok: "sys_ok s" and c: "s_con s i \<noteq> None"
    and call: "geas_pledge_fulfill E i name args refs s = (Some fid, s')" and n: "length (s_queue s) < n"
  shows "geas_future_wait E fid (pool_worker E T n s') \<noteq> None"
proof -
  note st = fulfill_steps[OF call c ok]
  have ok': "sys_ok s'"
    using goodD[OF api_star_good[OF st(1)] ok] by simp
  have "linked (pool_worker E T n s') fid"
    by (rule pool_worker_linked[OF T ok' st(2)])
  then obtain g where g: "s_fut (pool_worker E T n s') fid = Some g"
    by (auto simp: linked_def)
  from st(4) have "f_done g"
  proof
    assume "s_queue s' = s_queue s @ [fid]"
    then show ?thesis
      by (rule pool_serves[OF T ok' _ n g])
  next
    assume "\<exists>f. s_fut s' fid = Some f \<and> f_done f"
    then show ?thesis
      using done_stays[OF pool_worker_api[OF T(1)] ok' linked_less[OF ok' st(2)] _ g] by auto
  qed
  then show ?thesis
    by (rule wait_done[OF g])
qed

end
