(* ===== verification/Geas_System_Props.thy ===== *)
theory Geas_System_Props
  imports Geas_System_Live Geas_Iname_Props Geas_Store_Props
begin

text \<open>
  What the lifecycle promises: instances and futures move forward only, nothing dangles, a wait
  delivers once, a break is final, the pool serves every call, and sign is all or nothing.
\<close>

section \<open>A running system\<close>

definition demo_env :: "nat env" where
  "demo_env = \<lparr>e_malloc = \<lambda>_ _. True, e_alloc = \<lambda>_. True, e_sqlite = demo_sqlite,
     e_write_back = \<lambda>cb p v u H. H, e_time = \<lambda>n. 42\<rparr>"

definition demo_start :: "nat sys" where
  "demo_start = init_sys 4 9 (\<lambda>_. \<lparr>ho_bits = 0, ho_str = SNull 0\<rparr>) 0"

definition demo_reg :: registry where
  "demo_reg = snd (geas_register_contract (\<lambda>_. True) empty_registry demo_desc)"

definition demo_con :: GeasContract where
  "demo_con = \<lparr>c_desc = demo_desc, c_state = GEAS_SIGNED, c_heap = \<lparr>owned = [16], mcalls = 3\<rparr>,
     c_vow_vals = None, c_fns = Some [7], c_futures = [], c_shape_hash = 0xAB, c_signed_at = 42,
     c_pledge_state = Some [PLEDGE_PENDING], c_pledge_err = Some [gv_zero], c_sub_txn = None, c_store = None\<rparr>"

definition demo_sys :: "nat sys" where
  "demo_sys = snd (geas_contract_sign demo_env ''Bank'' [] 0 (demo_start\<lparr>s_reg := demo_reg\<rparr>))"

lemma demo_reg_descs: "descs demo_reg = [demo_desc]"
proof -
  have e: "empty_registry = registry_init"
    by (simp add: empty_registry_def registry_init_def)
  show ?thesis
    using register_contract_post(2)[OF reg_inv_init prod.collapse[symmetric], of "\<lambda>_. True" demo_desc] demo_registers
    by (simp add: demo_reg_def e)
qed

lemma demo_build:
  "sign_build demo_sqlite (\<lambda>_. True) 42 demo_desc [7] [] w = (GEAS_OK, demo_con, w)"
  by (simp add: sign_build_def sign_fns_def bind_vows_def sign_latches_def sign_txn_def store_sign_reconcile_def
      fresh_contract_def demo_desc_def demo_con_def geas_bytes_def Let_def numeral_2_eq_2)


lemma demo_signed:
  "geas_contract_sign demo_env ''Bank'' [] 0 (demo_start\<lparr>s_reg := demo_reg\<rparr>) =
     (Inr 0, set_con 0 demo_con (demo_start\<lparr>s_reg := demo_reg, s_calls := 12, s_next := 1, s_instances := [0]\<rparr>))"
  by (simp add: geas_contract_sign_def find_desc_def demo_reg_descs sys_alloc_def resolve_dispatch_def
      find_binding_def sign_publish_def publish_built_def demo_env_def demo_start_def init_sys_def demo_build[simplified]
      GEAS_MAX_INSTANCES_def Let_def set_con_def
      demo_desc_def[THEN arg_cong[where f = cd_name]] demo_desc_def[THEN arg_cong[where f = cd_pledges]])

lemma demo_sys_con [simp]: "s_con demo_sys = [0 \<mapsto> demo_con]" "s_fut demo_sys = (\<lambda>_. None)"
    "s_queue demo_sys = []" "s_threads demo_sys = []" "s_next demo_sys = 1"
  unfolding demo_sys_def demo_signed by (simp_all add: demo_start_def init_sys_def)

lemma demo_reachable: "reachable demo_env demo_sys"
  unfolding reachable_def
proof (intro exI conjI)
  show "geas_runtime_init demo_env None (\<lambda>_. \<lparr>ho_bits = 0, ho_str = SNull 0\<rparr>) 0 = Inr demo_start"
    by (simp add: geas_runtime_init_def demo_env_def demo_start_def GEAS_POOL_DEFAULT_THREADS_def
        GEAS_POOL_MAX_THREADS_def list_all_iff)
  have "registry_step (\<lambda>_. True) (s_reg demo_start) demo_reg"
    by (rule registry_step.register[of _ _ demo_desc "fst (geas_register_contract (\<lambda>_. True) empty_registry demo_desc)"])
      (simp add: demo_reg_def demo_start_def init_sys_def)
  then have "api demo_env demo_start (demo_start\<lparr>s_reg := demo_reg\<rparr>)"
    by (rule api.registry)
  moreover have "api demo_env (demo_start\<lparr>s_reg := demo_reg\<rparr>) demo_sys"
    unfolding demo_sys_def demo_signed snd_conv by (rule api.sign[OF demo_signed])
  ultimately show "(api demo_env)\<^sup>*\<^sup>* demo_start demo_sys"
    by auto
qed


section \<open>Helper facts\<close>

definition txn_of :: "GeasContract \<Rightarrow> nat \<Rightarrow> txn" where
  "txn_of c k = the (c_sub_txn c) ! k"

lemma reachable_steps: "reachable E s \<Longrightarrow> (api E)\<^sup>*\<^sup>* s s' \<Longrightarrow> reachable E s'"
  unfolding reachable_def using rtranclp_trans[of "api E"] by blast

lemma reachable_evolves: "reachable E s \<Longrightarrow> (api E)\<^sup>*\<^sup>* s s' \<Longrightarrow> evolves s s' \<and> sys_ok s'"
  using goodD[OF api_star_good reachable_ok] by blast

lemma slots_forward:
  assumes "rel_option (list_all2 R) a b" "array_ok a n" "k < n"
  shows "R (the a ! k) (the b ! k)"
proof (cases a)
  case None
  then show ?thesis
    using assms(2,3) by (simp add: array_ok_def)
next
  case (Some xs)
  then obtain ys where "b = Some ys" "list_all2 R xs ys"
    using assms(1) by (cases b) auto
  then show ?thesis
    using Some assms(2,3) by (simp add: array_ok_def list_all2_conv_all_nth)
qed

lemma con_forward:
  assumes "sys_ok s" "(api E)\<^sup>*\<^sup>* s s'" "s_con s i = Some c"
  obtains c' where "s_con s' i = Some c'" "con_evolves c c'" "con_ok c" "con_ok c'"
proof -
  have ev: "evolves s s'" "sys_ok s'"
    using goodD[OF api_star_good[OF assms(2)] assms(1)] by auto
  then obtain c' where c': "s_con s' i = Some c'" "con_evolves c c'"
    using evolves_con_D[OF ev(1) assms(3)] by blast
  moreover have "con_ok c"
    using sys_okD(1)[OF assms(1,3)] by (simp add: list_ok_def)
  moreover have "con_ok c'"
    using sys_okD(1)[OF ev(2) c'(1)] by (simp add: list_ok_def)
  ultimately show ?thesis
    using that by blast
qed

lemma latch_array: "con_ok c \<Longrightarrow> array_ok (c_pledge_state c) (length (cd_pledges (c_desc c)))"
  by (auto simp: con_ok_def latches_ok_def array_ok_def split: option.splits)

lemma latch_forward:
  assumes "con_evolves c c'" "con_ok c" "p < length (cd_pledges (c_desc c))" "latch_of c p \<noteq> PLEDGE_PENDING"
  shows "latch_of c' p = latch_of c p"
proof -
  have "latch_le (latch_of c p) (latch_of c' p)"
    using slots_forward[OF _ latch_array[OF assms(2)] assms(3)] assms(1)
    by (auto simp: con_evolves_def latch_of_def)
  then show ?thesis
    using assms(4) by (simp add: latch_le_def)
qed

lemma txn_forward:
  assumes "con_evolves c c'" "con_ok c" "k < length (cd_subs (c_desc c))" "txn_of c k = TXN_DONE"
  shows "txn_of c' k = TXN_DONE"
proof -
  have "txn_le (txn_of c k) (txn_of c' k)"
    using slots_forward[OF _ _ assms(3), of txn_le "c_sub_txn c" "c_sub_txn c'"] assms(1,2)
    by (simp add: con_evolves_def con_ok_def txn_of_def)
  then show ?thesis
    using assms(4) by (simp add: txn_le_def)
qed

section \<open>Instances\<close>

text \<open>C1.  The lifecycle moves forward only.  Whatever the host, the pledge bodies and the workers do
  after a state the runtime reached, an instance stays at its address with its descriptor, shape
  hash and signing time, is never Unsigned again, stays Broken once Broken, keeps every latched
  pledge outcome, and never reopens a transaction that was resolved.\<close>

theorem instance_lifecycle:
  assumes "reachable E s" "(api E)\<^sup>*\<^sup>* s s'" "s_con s i = Some c"
  shows "\<exists>c'. s_con s' i = Some c' \<and> c_desc c' = c_desc c \<and>
    geas_contract_hash c' = geas_contract_hash c \<and> geas_contract_signed_at c' = geas_contract_signed_at c \<and>
    geas_contract_state c' \<noteq> GEAS_UNSIGNED \<and>
    (geas_contract_state c = GEAS_BROKEN \<longrightarrow> geas_contract_state c' = GEAS_BROKEN) \<and>
    (\<forall>p<length (cd_pledges (c_desc c)). latch_of c p \<noteq> PLEDGE_PENDING \<longrightarrow> latch_of c' p = latch_of c p) \<and>
    (\<forall>k<length (cd_subs (c_desc c)). txn_of c k = TXN_DONE \<longrightarrow> txn_of c' k = TXN_DONE)"
proof -
  obtain c' where c': "s_con s' i = Some c'" "con_evolves c c'" "con_ok c" "con_ok c'"
    using con_forward[OF reachable_ok[OF assms(1)] assms(2,3)] .
  have "c_desc c' = c_desc c \<and> c_shape_hash c' = c_shape_hash c \<and> c_signed_at c' = c_signed_at c \<and>
      (c_state c = GEAS_BROKEN \<longrightarrow> c_state c' = GEAS_BROKEN) \<and> c_state c' \<noteq> GEAS_UNSIGNED"
    using c'(2,4) by (simp add: con_evolves_def con_ok_def)
  then show ?thesis
    using c'(1) latch_forward[OF c'(2,3)] txn_forward[OF c'(2,3)]
    by (simp add: geas_contract_hash_def geas_contract_signed_at_def geas_contract_state_def)
qed


section \<open>Futures\<close>

text \<open>C2.  No future dangles and none is stranded.  In every reachable state the queue, the workers and
  the instances refer to futures that exist, a future's instance exists, its reference count is
  exactly the number of those who hold it (its receipt, and the queue or one worker), hence one or
  two, and an outcome that does not exist yet is still to come: the future is being made, queued or
  running.\<close>

theorem futures_never_dangle:
  assumes "reachable E s"
  shows "(\<forall>fid\<in>set (s_queue s). s_fut s fid \<noteq> None) \<and>
    (\<forall>fid t. t \<in> set (s_threads s) \<longrightarrow> pool_thread fid t \<or> prep_thread fid t \<longrightarrow> s_fut s fid \<noteq> None) \<and>
    (\<forall>i c fid. s_con s i = Some c \<longrightarrow> fid \<in> set (c_futures c) \<longrightarrow> (\<exists>f. s_fut s fid = Some f \<and> f_c f = i)) \<and>
    (\<forall>fid f. s_fut s fid = Some f \<longrightarrow>
       s_con s (f_c f) \<noteq> None \<and> f_refcnt f = (if linked s fid then 1 else 0) + holds s fid \<and>
       f_refcnt f \<in> {1, 2} \<and> (f_done f \<or> busy s fid))"
proof -
  have ok: "sys_ok s"
    by (rule reachable_ok[OF assms])
  have "s_fut s fid \<noteq> None" if "fid \<in> set (s_queue s)" for fid
    using that sys_okD(3)[OF ok, of fid] by (auto simp: place_ok_def holds_def count_list_0_iff)
  moreover have "s_fut s fid \<noteq> None" if "t \<in> set (s_threads s)" "pool_thread fid t \<or> prep_thread fid t" for fid t
    using that sys_okD(3)[OF ok, of fid] by (auto simp: place_ok_def holds_def preps_def filter_empty_conv)
  moreover have "\<exists>f. s_fut s fid = Some f \<and> f_c f = i" if "s_con s i = Some c" "fid \<in> set (c_futures c)" for i c fid
    using sys_okD(1)[OF ok that(1)] that(2) by (auto simp: list_ok_def)
  moreover have "s_con s (f_c f) \<noteq> None \<and> f_refcnt f = (if linked s fid then 1 else 0) + holds s fid \<and>
       f_refcnt f \<in> {1, 2} \<and> (f_done f \<or> busy s fid)" if "s_fut s fid = Some f" for fid f
    using sys_okD(2)[OF ok that] sys_okD(3)[OF ok, of fid] by (auto simp: fut_ok_def place_ok_def)
  ultimately show ?thesis
    by blast
qed

text \<open>C34.  A wait delivers an outcome at most once: after a wait returned, every later wait on the same
  receipt, whatever happened in between, is \<^verbatim>\<open>GEAS_ERR_STATE\<close> and stores and writes back nothing.\<close>

theorem wait_delivers_once:
  assumes "reachable E s" "geas_future_wait E fid s = Some (st, out, s1)" "(api E)\<^sup>*\<^sup>* s1 s2" "s_fut s2 fid = Some g"
  shows "geas_future_wait E fid s2 = Some (GEAS_ERR_STATE, None, s2)"
proof -
  have ok: "sys_ok s"
    by (rule reachable_ok[OF assms(1)])
  have ok1: "sys_ok s1"
    by (rule sys_ok_wait[OF ok assms(2)])
  obtain f where f: "s_fut s1 fid = Some f" "f_waited f" "f_done f"
    using assms(2) by (auto simp: geas_future_wait_def Let_def split: option.splits if_splits prod.splits)
  have "evolves s1 s2"
    using goodD[OF api_star_good[OF assms(3)] ok1] by simp
  then have "fut_evolves f g"
    using evolves_fut_D[of s1 s2 fid g] f(1) assms(4) sys_okD(2)[OF ok1 f(1)] by (auto simp: fut_ok_def)
  then show ?thesis
    using f assms(4) by (simp add: fut_evolves_def geas_future_wait_def)
qed





text \<open>C3.  The pool serves every call.  A synchronous call from a host thread returns: once the workers
  have taken as many turns as calls were queued before it, and one more, its wait has an outcome.
  This holds for pledge bodies that do anything a sequence of API calls can do, as long as they
  leave the queue to the pool and the receipts of other callers alone.\<close>

theorem sync_call_returns:
  assumes "reachable E s" "s_con s i \<noteq> None" "body_ok E T" "body_fair T" "length (s_queue s) < n"
  shows "\<exists>st out s'. geas_pledge_fulfill_sync E T False n i name args refs s = Some (st, out, s')"
proof -
  obtain r s1 where call: "geas_pledge_fulfill E i name args refs s = (r, s1)"
    by force
  show ?thesis
  proof (cases r)
    case (Some fid)
    then have "geas_future_wait E fid (pool_worker E T n s1) \<noteq> None"
      using sync_served[OF assms(3,4) reachable_ok[OF assms(1)] assms(2) _ assms(5)] call by simp
    then show ?thesis
      using Some call by (auto simp: geas_pledge_fulfill_sync_def split: option.splits)
  qed (use call in \<open>simp add: geas_pledge_fulfill_sync_def\<close>)
qed

section \<open>Sign\<close>

text \<open>C36.  Sign is all or nothing.  A refused sign publishes nothing and leaves every instance and
  future as it was; a successful one publishes exactly one instance, at a fresh address, of the
  descriptor with that name and, when the caller pinned a shape hash, with that hash.  The instance
  is Signed, every pledge is pending, every transaction unopened, the host binding of each pledge
  beats its compiled body, and each vow has its last override, else its default.\<close>

theorem sign_all_or_nothing:
  assumes "reachable E s" "geas_contract_sign E name vows hash s = (r, s')"
  shows "case r of
      Inl st \<Rightarrow> s_con s' = s_con s \<and> s_fut s' = s_fut s \<and> s_instances s' = s_instances s \<and> s_queue s' = s_queue s
    | Inr i \<Rightarrow> s_con s i = None \<and> s_instances s' = s_instances s @ [i] \<and> s_fut s' = s_fut s \<and>
        (\<exists>d fns now c. find_desc (s_reg s) name = Some d \<and> (hash = 0 \<or> hash = geas_contract_hash c) \<and>
           s_con s' = (s_con s)(i \<mapsto> c) \<and> built d fns now c \<and>
           (\<forall>k<length (cd_pledges d). Some (fns ! k) =
              (case find_binding (s_bindings s) (cd_name d, k) of Some f \<Rightarrow> Some f | None \<Rightarrow> pd_fn (cd_pledges d ! k))) \<and>
           (vows_wf d vows \<longrightarrow> (\<forall>j<length (cd_vows d). \<exists>vals v. c_vow_vals c = Some vals \<and>
              vow_target d vows j = Some v \<and> same_value (vals ! j) v)))"
  using assms(2)
proof (cases rule: sign_cases)
  case (refused st n)
  then show ?thesis
    by simp
next
  case (publish d fns n)
  from publish(4) show ?thesis
  proof (cases rule: publish_cases)
    case (refused st w)
    then show ?thesis
      by simp
  next
    case (signed c w)
    have b: "built d fns (e_time E n) c"
      using sign_build_built signed(2) by simp
    then have "hash = 0 \<or> hash = geas_contract_hash c"
      using publish(2) by (auto simp: built_def geas_contract_hash_def)
    moreover have "s_con s (s_next s) = None"
      by (rule no_trace(2)[OF reachable_ok[OF assms(1)] order_refl])
    moreover have "\<forall>k<length (cd_pledges d). Some (fns ! k) =
        (case find_binding (s_bindings s) (cd_name d, k) of Some f \<Rightarrow> Some f | None \<Rightarrow> pd_fn (cd_pledges d ! k))"
      using resolve_fns_nth[OF publish(3)] by simp
    moreover have "vows_wf d vows \<longrightarrow> (\<forall>j<length (cd_vows d). \<exists>vals v. c_vow_vals c = Some vals \<and>
        vow_target d vows j = Some v \<and> same_value (vals ! j) v)"
      using sign_build_vows[OF signed(2)] by blast
    ultimately show ?thesis
      using publish(1) b signed(1,4) by auto
  qed
qed

text \<open>C38.  A commit the backend refuses.  When the last pledge of a transactional subcontract succeeds
  and its commit is refused, the caller gets \<^verbatim>\<open>GEAS_ERR_STORE\<close>, the episode is rolled back and closed,
  but the latches stay: the partial result goes on reporting the subcontract as Fulfilled.\<close>

theorem refused_commit_reports_fulfilled:
  assumes "s_con s i = Some c" "pledge_txn_sub (c_desc c) p = Some k" "c_sub_txn c = Some ts" "ts ! k = TXN_OPEN"
    and "c_store c = Some db" "T fn i fr s = (GEAS_OK, out, fr', s)" "\<not> is_err out" "k < length ts"
    and "sub_all (latch_pledge c p out) k PLEDGE_FULFILLED"
    and "geas_store_commit (e_sqlite E) db (s_world s) = (cs, w)" "cs \<noteq> GEAS_OK"
  shows "\<exists>s' c'. run_body E T i fn p fr s = (GEAS_ERR_STORE, Some out, fr', s') \<and> s_con s' i = Some c' \<and>
    s_world s' = snd (geas_store_rollback (e_sqlite E) db w) \<and> txn_of c' k = TXN_DONE \<and>
    sub_item_state c' k = GEAS_ITEM_FULFILLED"
proof -
  have "txn_before (e_sqlite E) c p (s_world s) = (GEAS_OK, c, s_world s)"
    using assms by (simp add: txn_before_def)
  moreover have same: "set_con i c (s\<lparr>s_world := s_world s\<rparr>) = s"
    using assms(1) by (simp add: set_con_def fun_upd_idem)
  let ?c = "latch_outcome GEAS_OK p out c"
  have f: "c_sub_txn ?c = c_sub_txn c" "c_store ?c = c_store c" "c_desc ?c = c_desc c"
      "c_pledge_state ?c = c_pledge_state (latch_pledge c p out)"
    by (simp_all add: latch_outcome_def)
  then have all: "sub_all ?c k PLEDGE_FULFILLED"
    using assms(9) latch_pledge_evolves[of c p out] by (auto simp: sub_all_def f con_evolves_def split: option.splits)
  have "txn_after (e_sqlite E) ?c p GEAS_OK out (s_world s) =
      (GEAS_ERR_STORE, ?c\<lparr>c_sub_txn := Some (ts[k := TXN_DONE])\<rparr>, snd (geas_store_rollback (e_sqlite E) db w))"
    using assms f all by (simp add: txn_after_def Let_def)
  ultimately have "run_body E T i fn p fr s = (GEAS_ERR_STORE, Some out, fr',
      set_con i (?c\<lparr>c_sub_txn := Some (ts[k := TXN_DONE])\<rparr>) (s\<lparr>s_world := snd (geas_store_rollback (e_sqlite E) db w)\<rparr>))"
    using assms(1,6) same by (simp add: run_body_def)
  moreover have "sub_all (?c\<lparr>c_sub_txn := Some (ts[k := TXN_DONE])\<rparr>) k PLEDGE_FULFILLED"
    using all by (auto simp: sub_all_def split: option.splits)
  ultimately show ?thesis
    using assms(8) by (simp add: txn_of_def sub_item_state_def)
qed


section \<open>Witnesses\<close>

definition demo_thunk :: "nat thunk" where
  "demo_thunk fn i fr s = (GEAS_OK, VUnit 0, fr, s)"

lemma demo_body: "body_ok demo_env demo_thunk" "body_fair demo_thunk"
  by (simp_all add: body_ok_def body_fair_def demo_thunk_def kept_def)

definition demo_broken :: "nat sys" where
  "demo_broken = snd (geas_contract_break demo_env 0 demo_sys)"

lemma demo_break: "geas_contract_break demo_env 0 demo_sys = (GEAS_OK, demo_broken)"
  by (simp add: demo_broken_def geas_contract_break_def demo_con_def Let_def split: prod.split)

lemma demo_break_step: "(api demo_env)\<^sup>*\<^sup>* demo_sys demo_broken"
  using api.brk[OF demo_break] by auto

theorem instance_lifecycle_witness:
  "\<exists>c'. s_con demo_broken 0 = Some c' \<and> geas_contract_state c' \<noteq> GEAS_UNSIGNED \<and> geas_contract_hash c' = 0xAB"
  using instance_lifecycle[OF demo_reachable demo_break_step, of 0 demo_con]
  by (auto simp: demo_con_def geas_contract_hash_def)


theorem sync_call_returns_witness:
  "\<exists>st out s'. geas_pledge_fulfill_sync demo_env demo_thunk False 1 0 ''open'' [VInt 0 1] [] demo_sys = Some (st, out, s')"
  using sync_call_returns[OF demo_reachable _ demo_body, of 0 1 "''open''" "[VInt 0 1]" "[]"] by simp

theorem sign_all_or_nothing_witness:
  "case geas_contract_sign demo_env ''None'' [] 0 demo_sys of (r, s') \<Rightarrow> r = Inl GEAS_ERR_NAME \<and> s_con s' = s_con demo_sys"
proof -
  have "s_reg demo_sys = demo_reg"
    unfolding demo_sys_def demo_signed by simp
  then have "geas_contract_sign demo_env ''None'' [] 0 demo_sys = (Inl GEAS_ERR_NAME, demo_sys)"
    by (simp add: geas_contract_sign_def find_desc_def demo_reg_descs demo_desc_def)
  from sign_all_or_nothing[OF demo_reachable this] show ?thesis
    using \<open>geas_contract_sign demo_env ''None'' [] 0 demo_sys = (Inl GEAS_ERR_NAME, demo_sys)\<close> by simp
qed

text \<open>A future that is done: a call on the broken instance, which is refused at once.\<close>

definition demo_refused :: "nat sys" where
  "demo_refused = snd (geas_pledge_fulfill demo_env 0 ''open'' [VInt 0 1] [] demo_broken)"

lemma demo_broken_con: "s_con demo_broken 0 \<noteq> None" "c_state (the (s_con demo_broken 0)) = GEAS_BROKEN"
    "s_next demo_broken = 1"
  by (auto simp: demo_broken_def geas_contract_break_def demo_con_def Let_def break_contract_def split: prod.split)

lemma demo_refused_call: "geas_pledge_fulfill demo_env 0 ''open'' [VInt 0 1] [] demo_broken = (Some 1, demo_refused)"
    "\<exists>f. s_fut demo_refused 1 = Some f \<and> f_done f \<and> \<not> f_waited f"
  using demo_broken_con
  by (auto simp: demo_refused_def geas_pledge_fulfill_def future_new_def sys_alloc_def demo_env_def Let_def
      fresh_future_def prepare_step_def fulfill_prepare_def fulfill_check_def runnable_def future_finish_def
      finish_def)

lemma demo_refused_reachable: "reachable demo_env demo_refused"
proof -
  have b: "reachable demo_env demo_broken"
    by (rule reachable_steps[OF demo_reachable demo_break_step])
  show ?thesis
    by (rule reachable_steps[OF b fulfill_steps(1)[OF demo_refused_call(1) demo_broken_con(1) reachable_ok[OF b]]])
qed

theorem futures_never_dangle_witness:
  "\<exists>f. s_fut demo_refused 1 = Some f \<and> s_con demo_refused (f_c f) \<noteq> None \<and> f_refcnt f \<in> {1, 2}"
  using futures_never_dangle[OF demo_refused_reachable] demo_refused_call(2) by blast

theorem wait_delivers_once_witness:
  "\<exists>st out s1. geas_future_wait demo_env 1 demo_refused = Some (st, out, s1) \<and>
     geas_future_wait demo_env 1 s1 = Some (GEAS_ERR_STATE, None, s1)"
proof -
  obtain f where f: "s_fut demo_refused 1 = Some f" "f_done f" "\<not> f_waited f"
    using demo_refused_call(2) by blast
  obtain st out s1 where w: "geas_future_wait demo_env 1 demo_refused = Some (st, out, s1)"
    using wait_done[OF f(1,2)] by (metis not_Some_eq prod_cases3)
  then obtain g where "s_fut s1 1 = Some g"
    using f by (auto simp: geas_future_wait_def Let_def split: if_splits prod.splits)
  from wait_delivers_once[OF demo_refused_reachable w rtranclp.rtrancl_refl this] show ?thesis
    using w by blast
qed

text \<open>An open episode on a backend that refuses every commit.\<close>

definition grudging_sqlite :: "nat sqlite" where
  "grudging_sqlite = demo_sqlite\<lparr>sq_exec := \<lambda>db sql w. (sql \<noteq> ''COMMIT'', Suc w)\<rparr>"

definition grudging_env :: "nat env" where
  "grudging_env = demo_env\<lparr>e_sqlite := grudging_sqlite\<rparr>"

definition txn_desc :: GeasContractDesc where
  "txn_desc = demo_policy_desc\<lparr>cd_sub_flags := Some [GEAS_SUB_TRANSACTIONAL]\<rparr>"

definition txn_con :: "txn \<Rightarrow> latch \<Rightarrow> GeasContract" where
  "txn_con q l = demo_instance\<lparr>c_desc := txn_desc, c_pledge_state := Some [PLEDGE_FULFILLED, l, PLEDGE_PENDING],
     c_sub_txn := Some [q], c_store := Some 3\<rparr>"

definition txn_sys :: "txn \<Rightarrow> latch \<Rightarrow> nat sys" where
  "txn_sys q l = demo_start\<lparr>s_con := [0 \<mapsto> txn_con q l], s_instances := [0], s_next := 1\<rparr>"

lemmas txn_demo = txn_sys_def txn_con_def txn_desc_def demo_instance_defs demo_start_def init_sys_def



theorem refused_commit_reports_fulfilled_witness:
  "\<exists>s' c'. run_body grudging_env demo_thunk 0 1 1 None (txn_sys TXN_OPEN PLEDGE_PENDING) =
       (GEAS_ERR_STORE, Some (VUnit 0), None, s') \<and> s_con s' 0 = Some c' \<and>
     txn_of c' 0 = TXN_DONE \<and> sub_item_state c' 0 = GEAS_ITEM_FULFILLED"
proof -
  have c: "s_con (txn_sys TXN_OPEN PLEDGE_PENDING) 0 = Some (txn_con TXN_OPEN PLEDGE_PENDING)"
    by (simp add: txn_sys_def)
  have "geas_store_commit (e_sqlite grudging_env) 3 0 = (GEAS_ERR_STORE, 1)"
    by (simp add: geas_store_commit_def geas_store_exec_def grudging_env_def grudging_sqlite_def demo_env_def demo_sqlite_def)
  moreover have "s_world (txn_sys TXN_OPEN PLEDGE_PENDING) = 0"
    by (simp add: txn_demo)
  moreover have "sub_all (latch_pledge (txn_con TXN_OPEN PLEDGE_PENDING) 1 (VUnit 0)) 0 PLEDGE_FULFILLED"
    by (simp add: txn_demo latch_pledge_def is_err_def sub_all_def)
  ultimately show ?thesis
    using refused_commit_reports_fulfilled[OF c, of 1 0 "[TXN_OPEN]" 3 demo_thunk 1 None "VUnit 0" None grudging_env GEAS_ERR_STORE 1]
    by (auto simp: txn_con_def txn_desc_def demo_instance_defs pledge_txn_sub_def GEAS_SUB_TRANSACTIONAL_def
        demo_thunk_def is_err_def)
qed

end
