(* ===== verification/Geas_Park_Props.thy ===== *)
theory Geas_Park_Props
  imports Geas_Park_Facts Geas_System_Props Geas_Wire_Props
begin

text \<open>
  The round trip of a parked instance: what park writes, resume reads back, and the refusals of park.
\<close>

section \<open>The blobs\<close>

lemma written_spec: "written v n = Inr (b, n') \<Longrightarrow> wf_value v \<Longrightarrow> b = encode_write v \<and> wire_ok 1 v"
  by (auto simp: written_def geas_wire_encode_value_def elim!: encode_size_cases split: if_splits sum.splits)

lemma park_write_spec:
  "park_write vs n = Inr bs \<Longrightarrow> \<forall>v\<in>set vs. wf_value v \<Longrightarrow>
     bs = concat (map encode_write vs) \<and> (\<forall>v\<in>set vs. wire_ok 1 v)"
  by (induction vs arbitrary: n bs) (auto dest: written_spec split: sum.splits prod.splits)

definition err_bytes :: "GeasValue \<Rightarrow> bytes" where
  "err_bytes e = (if park_err_present e then 1 # encode_write e else [0])"

lemma park_write_errs_spec:
  "park_write_errs es n = Inr bs \<Longrightarrow> \<forall>e\<in>set es. wf_value e \<Longrightarrow>
     bs = concat (map err_bytes es) \<and> (\<forall>e\<in>set es. park_err_present e \<longrightarrow> wire_ok 1 e)"
proof (induction es arbitrary: n bs)
  case (Cons e es)
  show ?case
  proof (cases "park_err_present e")
    case True
    then obtain b m r where "written e (n - 1) = Inr (b, m)" "park_write_errs es m = Inr r" "bs = 1 # b @ r"
      using Cons.prems(1) by (auto split: sum.splits)
    then show ?thesis
      using Cons.IH[of m r] Cons.prems(2) written_spec True by (auto simp: err_bytes_def)
  next
    case False
    then obtain r where "park_write_errs es (n - 1) = Inr r" "bs = 0 # r"
      using Cons.prems(1) by (auto split: sum.splits)
    then show ?thesis
      using Cons.IH[of "n - 1" r] Cons.prems(2) False by (simp add: err_bytes_def)
  qed
qed simp

lemma decode_back:
  assumes "\<forall>i. M i" "wire_ok 1 v" "wf_value v" "map_unique v"
  shows "\<exists>h'. geas_wire_decode_value M (Some (encode_write v @ r)) h = (Inr (wire_norm v, length (encode_write v)), h')"
proof -
  obtain h' where "decode_rec M 1 (encode_write v @ r) h = (Inr (wire_norm v, r), h')"
    using reads_back_all[OF assms] by (rule reads_backD)
  then show ?thesis
    by (simp add: geas_wire_decode_value_def)
qed

definition crosses :: "GeasValue \<Rightarrow> bool" where
  "crosses v \<longleftrightarrow> wire_ok 1 v \<and> wf_value v \<and> map_unique v"

lemma vow_loop_back:
  assumes "\<forall>i. M i" "\<forall>v\<in>set vs. crosses v" "map gv_ty vs = map vd_ty vds"
  shows "\<exists>h'. resume_vow_loop M vds (concat (map encode_write vs) @ rest) h = (Inr (map wire_norm vs, rest), h')"
  using assms(2,3)
proof (induction vs arbitrary: vds h)
  case (Cons v vs)
  then obtain vd vds' where vds: "vds = vd # vds'" "gv_ty v = vd_ty vd" "map gv_ty vs = map vd_ty vds'"
    by auto
  obtain h1 where d: "geas_wire_decode_value M (Some (encode_write v @ concat (map encode_write vs) @ rest)) h =
      (Inr (wire_norm v, length (encode_write v)), h1)"
    using decode_back[OF assms(1), of v] Cons.prems(1) by (force simp: crosses_def)
  moreover obtain h2 where "resume_vow_loop M vds' (concat (map encode_write vs) @ rest) h1 = (Inr (map wire_norm vs, rest), h2)"
    using Cons.IH[OF _ vds(3)] Cons.prems(1) by auto
  ultimately show ?case
    using vds by simp
qed simp

lemma err_loop_back:
  assumes "\<forall>i. M i" "\<forall>e\<in>set es. park_err_present e \<longrightarrow> crosses e"
  shows "\<exists>h'. resume_err_loop M (length es) (concat (map err_bytes es) @ rest) h = (Inr (map wire_norm es, rest), h')"
  using assms(2)
proof (induction es arbitrary: h)
  case (Cons e es)
  then have IH: "\<exists>h'. resume_err_loop M (length es) (concat (map err_bytes es) @ rest) h = (Inr (map wire_norm es, rest), h')" for h
    by simp
  show ?case
  proof (cases "park_err_present e")
    case True
    obtain h1 where "geas_wire_decode_value M (Some (encode_write e @ concat (map err_bytes es) @ rest)) h =
        (Inr (wire_norm e, length (encode_write e)), h1)"
      using decode_back[OF assms(1), of e] Cons.prems True by (force simp: crosses_def)
    moreover obtain h2 where "resume_err_loop M (length es) (concat (map err_bytes es) @ rest) h1 = (Inr (map wire_norm es, rest), h2)"
      using IH by blast
    ultimately show ?thesis
      using True by (simp add: err_bytes_def[of e])
  next
    case False
    then show ?thesis
      using IH[of h] by (auto simp: err_bytes_def[of "VUnit 0"] park_err_present_def gv_zero_def)
  qed
qed simp

lemma latches_back: "those (map byte_latch (map latch_byte ps)) = Some ps"
proof (induction ps)
  case (Cons p ps)
  then show ?case
    by (cases p) (simp_all add: byte_latch_def)
qed simp

lemma txns_back: "\<forall>t\<in>set ts. t \<noteq> TXN_OPEN \<Longrightarrow> those (map byte_txn (map txn_byte ts)) = Some ts"
proof (induction ts)
  case (Cons t ts)
  then show ?case
    by (cases t) (simp_all add: byte_txn_def)
qed simp

lemma state_back: "st \<noteq> GEAS_UNSIGNED \<Longrightarrow> num_state (state_num st) = Some st"
  by (cases st) (simp_all add: num_state_def)

lemma byte_of_char:
  "unat (of_nat (of_char c) :: u8) = of_char c" "(of_nat (of_char c) :: u8) = 0 \<longleftrightarrow> c = CHR 0x00"
proof -
  have "of_char c < (256 :: nat)"
    by simp
  then show u: "unat (of_nat (of_char c) :: u8) = of_char c"
    by (simp add: unat_of_nat take_bit_nat_eq_self_iff)
  have "(of_nat (of_char c) :: u8) = 0 \<longleftrightarrow> of_char c = (0 :: nat)"
    using u by (metis unat_eq_zero)
  also have "\<dots> \<longleftrightarrow> c = CHR 0x00"
    using char_of_char[where 'a = nat, of c] by (cases "of_char c = (0 :: nat)") (auto simp: char_of_def)
  finally show "(of_nat (of_char c) :: u8) = 0 \<longleftrightarrow> c = CHR 0x00" .
qed

lemma name_back:
  assumes "CHR 0x00 \<notin> set n"
  shows "cstr (string_bytes n) = n"
proof -
  have "takeWhile (\<lambda>b. b \<noteq> 0) (string_bytes n) = string_bytes n"
    using assms by (auto simp: string_bytes_def takeWhile_eq_all_conv byte_of_char(2) simp del: of_nat_eq_0_iff)
  then have "cstr (string_bytes n) = map (\<lambda>b. char_of (unat b)) (string_bytes n)"
    by (simp only: cstr_def)
  then show ?thesis
    by (simp add: string_bytes_def comp_def byte_of_char(1))
qed


section \<open>The rebuilt instance\<close>

text \<open>An instance whose values are fit to be written: the vows have their declared types and every value
  is well formed.  Sign and the pledge bodies keep values that way.\<close>

definition parkable :: "GeasContract \<Rightarrow> bool" where
  "parkable c \<longleftrightarrow> con_ok c \<and>
     map gv_ty (case c_vow_vals c of None \<Rightarrow> [] | Some vs \<Rightarrow> vs) = map vd_ty (cd_vows (c_desc c)) \<and>
     (\<forall>v\<in>set (case c_vow_vals c of None \<Rightarrow> [] | Some vs \<Rightarrow> vs). wf_value v \<and> map_unique v) \<and>
     (\<forall>e\<in>set (case c_pledge_err c of None \<Rightarrow> [] | Some es \<Rightarrow> es). wf_value e \<and> map_unique e)"

text \<open>What a resumed instance shares with the parked one: everything but the heap, the store connection
  and the dispatch table, with values rebuilt from their encoding.\<close>

definition resumed :: "GeasContract \<Rightarrow> GeasContract \<Rightarrow> bool" where
  "resumed c c' \<longleftrightarrow>
     c_desc c' = c_desc c \<and> c_state c' = c_state c \<and> c_signed_at c' = c_signed_at c \<and>
     c_shape_hash c' = cd_shape_hash (c_desc c) \<and> c_futures c' = [] \<and>
     (cd_pledges (c_desc c) \<noteq> [] \<longrightarrow> c_pledge_state c' = c_pledge_state c) \<and>
     (cd_subs (c_desc c) \<noteq> [] \<longrightarrow> c_sub_txn c' = c_sub_txn c) \<and>
     (cd_vows (c_desc c) \<noteq> [] \<longrightarrow> c_vow_vals c' = map_option (map wire_norm) (c_vow_vals c)) \<and>
     (cd_pledges (c_desc c) \<noteq> [] \<longrightarrow> c_pledge_err c' = map_option (map wire_norm) (c_pledge_err c))"

lemma blobs_spec:
  assumes "park_blobs E c s = (Inr (vb, eb), s')" "parkable c"
  shows "vb = concat (map encode_write (case c_vow_vals c of None \<Rightarrow> [] | Some vs \<Rightarrow> vs)) \<and>
    (\<forall>v\<in>set (case c_vow_vals c of None \<Rightarrow> [] | Some vs \<Rightarrow> vs). crosses v) \<and>
    (cd_pledges (c_desc c) \<noteq> [] \<longrightarrow>
       eb = concat (map err_bytes (the (c_pledge_err c))) \<and>
       (\<forall>e\<in>set (the (c_pledge_err c)). park_err_present e \<longrightarrow> crosses e))"
proof -
  let ?vs = "case c_vow_vals c of None \<Rightarrow> [] | Some vs \<Rightarrow> vs"
  have wf: "\<forall>v\<in>set ?vs. wf_value v \<and> map_unique v" "map gv_ty ?vs = map vd_ty (cd_vows (c_desc c))"
    using assms(2) by (auto simp: parkable_def)
  have "vb = concat (map encode_write ?vs) \<and> (\<forall>v\<in>set ?vs. crosses v)"
  proof (cases "cd_vows (c_desc c) = []")
    case True
    then show ?thesis
      using assms(1) wf(2) by (auto simp: park_blobs_def split: prod.splits sum.splits)
  next
    case False
    then obtain vs n where vs: "c_vow_vals c = Some vs" "park_write vs n = Inr vb"
      using assms(1)
      by (auto simp: park_blobs_def park_encode_values_def split: prod.splits sum.splits option.splits bool.splits if_splits)
    then show ?thesis
      using park_write_spec[OF vs(2)] wf(1) by (auto simp: crosses_def)
  qed
  moreover have "eb = concat (map err_bytes (the (c_pledge_err c))) \<and>
       (\<forall>e\<in>set (the (c_pledge_err c)). park_err_present e \<longrightarrow> crosses e)" if pl: "cd_pledges (c_desc c) \<noteq> []"
  proof -
    obtain es where es: "c_pledge_err c = Some es"
      using assms(2) pl unfolding parkable_def con_ok_def latches_ok_def by (auto split: option.splits)
    obtain n where n: "park_write_errs es n = Inr eb"
      using assms(1) pl es
      by (auto simp: park_blobs_def park_encode_errs_def split: prod.splits sum.splits option.splits bool.splits if_splits)
    have "\<forall>e\<in>set es. wf_value e \<and> map_unique e"
      using assms(2) es by (simp add: parkable_def)
    then show ?thesis
      using park_write_errs_spec[OF n] es by (auto simp: crosses_def)
  qed
  ultimately show ?thesis
    by blast
qed

lemma mallocs_true: "\<forall>i. M i \<Longrightarrow> \<exists>h. plain_mallocs M n c = (True, c\<lparr>c_heap := h\<rparr>)"
proof (induction n arbitrary: c)
  case (Suc n)
  obtain h where "plain_mallocs M n (c\<lparr>c_heap := (c_heap c)\<lparr>mcalls := Suc (mcalls (c_heap c))\<rparr>\<rparr>) = (True, c\<lparr>c_heap := h\<rparr>)"
    using Suc.IH[OF Suc.prems, of "c\<lparr>c_heap := (c_heap c)\<lparr>mcalls := Suc (mcalls (c_heap c))\<rparr>\<rparr>"] by auto
  then show ?case
    using Suc.prems[rule_format, of "mcalls (c_heap c)"] by (auto simp: Let_def)
next
  case 0
  show ?case
    by (rule exI[of _ "c_heap c"]) simp
qed

text \<open>The stages on what park wrote.\<close>

lemma vows_stage:
  assumes "\<forall>i. M i" "\<forall>v\<in>set vs. crosses v" "map gv_ty vs = map vd_ty (cd_vows (c_desc c))" "c_vow_vals c = None"
  shows "\<exists>h. resume_vows M (concat (map encode_write vs)) c =
    (GEAS_OK, c\<lparr>c_heap := h, c_vow_vals := (if cd_vows (c_desc c) = [] then None else Some (map wire_norm vs))\<rparr>)"
proof (cases "cd_vows (c_desc c) = []")
  case True
  then show ?thesis
    using assms(3,4) by (auto simp: resume_vows_def intro!: exI[of _ "c_heap c"])
next
  case False
  obtain h1 where h1: "geas_bytes M (of_nat (length (cd_vows (c_desc c))) * SIZEOF_VALUE) (c_heap c) = (True, h1)"
    using assms(1) by (simp add: geas_bytes_def)
  obtain h2 where "resume_vow_loop M (cd_vows (c_desc c)) (concat (map encode_write vs)) h1 = (Inr (map wire_norm vs, []), h2)"
    using vow_loop_back[OF assms(1-3), of "[]" h1] by auto
  then show ?thesis
    using False h1 by (auto simp: resume_vows_def Let_def)
qed

lemma latches_stage:
  assumes "\<forall>i. M i" "\<forall>e\<in>set es. park_err_present e \<longrightarrow> crosses e"
    and "length ps = length (cd_pledges (c_desc c))" "length es = length ps" "c_pledge_state c = None" "c_pledge_err c = None"
  shows "\<exists>h. resume_latches M (map latch_byte ps) (concat (map err_bytes es)) c =
    (GEAS_OK, c\<lparr>c_heap := h, c_pledge_state := (if cd_pledges (c_desc c) = [] then None else Some ps),
       c_pledge_err := (if cd_pledges (c_desc c) = [] then None else Some (map wire_norm es))\<rparr>)"
proof (cases "cd_pledges (c_desc c) = []")
  case True
  then show ?thesis
    using assms(5,6) by (auto simp: resume_latches_def intro!: exI[of _ "c_heap c"])
next
  case False
  obtain h1 where h1: "plain_mallocs M 2 c = (True, c\<lparr>c_heap := h1\<rparr>)"
    using mallocs_true[OF assms(1)] by blast
  obtain h2 where "resume_err_loop M (length es) (concat (map err_bytes es)) h1 = (Inr (map wire_norm es, []), h2)"
    using err_loop_back[OF assms(1,2), of "[]" h1] by auto
  then show ?thesis
    using False h1 assms(3,4) latches_back[of ps] by (auto simp: resume_latches_def Let_def)
qed

lemma txn_stage:
  assumes "\<forall>i. M i" "\<forall>t\<in>set ts. t \<noteq> TXN_OPEN" "length ts = length (cd_subs (c_desc c))" "c_sub_txn c = None"
  shows "\<exists>h. resume_txn M (map txn_byte ts) c =
    (GEAS_OK, c\<lparr>c_heap := h, c_sub_txn := (if cd_subs (c_desc c) = [] then None else Some ts)\<rparr>)"
proof (cases "cd_subs (c_desc c) = []")
  case True
  then show ?thesis
    using assms(4) by (auto simp: resume_txn_def intro!: exI[of _ "c_heap c"])
next
  case False
  obtain h1 where "plain_mallocs M 1 c = (True, c\<lparr>c_heap := h1\<rparr>)"
    using mallocs_true[OF assms(1)] by blast
  then show ?thesis
    using False assms(3) txns_back[OF assms(2)] by (auto simp: resume_txn_def Let_def)
qed


text \<open>The row of a park, as the columns give it back.\<close>

definition parked_row :: "GeasContract \<Rightarrow> bytes \<Rightarrow> bytes \<Rightarrow> park_row" where
  "parked_row c vb eb = \<lparr>pr_name = string_bytes (cd_name (c_desc c)), pr_version = ucast (cd_version (c_desc c)),
     pr_shape = cd_shape_hash (c_desc c), pr_state = state_num (c_state c), pr_signed = c_signed_at c,
     pr_vows = vb, pr_latches = (case c_pledge_state c of None \<Rightarrow> [] | Some ps \<Rightarrow> map latch_byte ps),
     pr_errs = eb, pr_subtxn = (case c_sub_txn c of None \<Rightarrow> [] | Some ts \<Rightarrow> map txn_byte ts)\<rparr>"

text \<open>The store side of a resumed contract, for the vows it has.\<close>

definition store_accepts :: "'w sqlite \<Rightarrow> malloc \<Rightarrow> GeasContract \<Rightarrow> 'w \<Rightarrow> bool" where
  "store_accepts S M c w \<longleftrightarrow>
     (\<forall>c0. c_desc c0 = c_desc c \<longrightarrow> (cd_vows (c_desc c) \<noteq> [] \<longrightarrow> c_vow_vals c0 = map_option (map wire_norm) (c_vow_vals c)) \<longrightarrow>
        fst (store_sign_reconcile S M c0 w) = GEAS_OK)"

lemma latches_none:
  "cd_pledges (c_desc c) = [] \<Longrightarrow> resume_latches M bl be c = (GEAS_OK, c)"
  by (simp add: resume_latches_def)

lemma build_back:
  assumes M: "\<forall>i. M i" and p: "parkable c" "park_ready s c" "park_blobs E c s = (Inr (vb, eb), s')"
    and acc: "store_accepts S M c w"
  shows "\<exists>c' w'. resume_build S M (c_desc c) fns (c_state c) (parked_row c vb eb) w = (GEAS_OK, c', w') \<and> resumed c c'"
proof -
  let ?d = "c_desc c"
  define vs ps es ts where "vs = (case c_vow_vals c of None \<Rightarrow> [] | Some vs \<Rightarrow> vs)"
    "ps = (case c_pledge_state c of None \<Rightarrow> [] | Some ps \<Rightarrow> ps)"
    "es = (if cd_pledges ?d = [] then [] else the (c_pledge_err c))"
    "ts = (case c_sub_txn c of None \<Rightarrow> [] | Some ts \<Rightarrow> ts)"
  note defs = this
  have ok: "con_ok c" "map gv_ty vs = map vd_ty (cd_vows ?d)"
    using p(1) by (auto simp: parkable_def defs)
  have bl: "vb = concat (map encode_write vs)" "\<forall>v\<in>set vs. crosses v"
      "cd_pledges ?d \<noteq> [] \<Longrightarrow> eb = concat (map err_bytes es)" "\<forall>e\<in>set es. park_err_present e \<longrightarrow> crosses e"
    using blobs_spec[OF p(3,1)] by (simp_all add: defs)
  have lens: "length ps = length (cd_pledges ?d)" "length es = length ps" "length ts = length (cd_subs ?d)"
    using ok(1) by (auto simp: con_ok_def latches_ok_def array_ok_def defs split: option.splits)
  have op: "\<forall>t\<in>set ts. t \<noteq> TXN_OPEN"
    using p(2) by (auto simp: park_ready_def list_all_iff defs split: option.splits)
  have row: "pr_vows (parked_row c vb eb) = vb" "pr_latches (parked_row c vb eb) = map latch_byte ps"
      "pr_errs (parked_row c vb eb) = eb" "pr_subtxn (parked_row c vb eb) = map txn_byte ts"
      "pr_signed (parked_row c vb eb) = c_signed_at c"
    by (auto simp: parked_row_def defs split: option.splits)
  obtain c1 where c1: "sign_fns M (fresh_contract ?d) fns = (GEAS_OK, c1)" "c_desc c1 = ?d" "c_futures c1 = []"
      "c_vow_vals c1 = None" "c_pledge_state c1 = None" "c_pledge_err c1 = None" "c_sub_txn c1 = None"
    using M by (cases "cd_pledges ?d = []") (auto simp: sign_fns_def fresh_contract_def geas_bytes_def)
  obtain c2 where c2: "resume_vows M vb c1 = (GEAS_OK, c2)" "c_desc c2 = ?d" "c_futures c2 = []"
      "c_vow_vals c2 = (if cd_vows ?d = [] then None else Some (map wire_norm vs))"
      "c_pledge_state c2 = None" "c_pledge_err c2 = None" "c_sub_txn c2 = None"
    using vows_stage[OF M bl(2), of c1] ok(2) c1 bl(1) by auto
  obtain c3 where c3: "resume_latches M (map latch_byte ps) eb c2 = (GEAS_OK, c3)" "c_desc c3 = ?d" "c_futures c3 = []"
      "c_vow_vals c3 = c_vow_vals c2" "c_pledge_state c3 = (if cd_pledges ?d = [] then None else Some ps)"
      "c_pledge_err c3 = (if cd_pledges ?d = [] then None else Some (map wire_norm es))" "c_sub_txn c3 = None"
  proof (cases "cd_pledges ?d = []")
    case True
    then show ?thesis
      using c2 latches_none[of c2] by (intro that[of c2]) simp_all
  next
    case False
    then show ?thesis
      using latches_stage[OF M bl(4), of ps c2] lens(1,2) c2 bl(3) that by auto
  qed
  obtain c4 where c4: "resume_txn M (map txn_byte ts) c3 = (GEAS_OK, c4)" "c_desc c4 = ?d" "c_futures c4 = []"
      "c_vow_vals c4 = c_vow_vals c2" "c_pledge_state c4 = c_pledge_state c3" "c_pledge_err c4 = c_pledge_err c3"
      "c_sub_txn c4 = (if cd_subs ?d = [] then None else Some ts)"
    using txn_stage[OF M op, of c3] lens(3) c3 by auto
  have vv: "c_vow_vals c4 = map_option (map wire_norm) (c_vow_vals c)" if "cd_vows ?d \<noteq> []"
    using that ok(2) c4(4) c2(4) by (auto simp: defs split: option.splits)
  obtain st c5 w' where c5: "store_sign_reconcile S M c4 w = (st, c5, w')"
    by (metis prod_cases3)
  have st: "st = GEAS_OK"
    using acc[unfolded store_accepts_def, rule_format, of c4] c4(2) vv c5 by simp
  have f5: "c5 = c4\<lparr>c_heap := c_heap c5, c_store := c_store c5\<rparr>"
    by (rule store_sign_frame[OF c5])
  define c' where "c' = c5\<lparr>c_state := c_state c, c_shape_hash := cd_shape_hash ?d, c_signed_at := c_signed_at c\<rparr>"
  have "c_desc c' = ?d" "c_futures c' = []" "c_vow_vals c' = c_vow_vals c4" "c_pledge_state c' = c_pledge_state c4"
      "c_pledge_err c' = c_pledge_err c4" "c_sub_txn c' = c_sub_txn c4"
    unfolding c'_def using c4(2,3) by (subst f5; simp)+
  moreover have "c_pledge_state c4 = c_pledge_state c" if "cd_pledges ?d \<noteq> []"
    using that lens(1) c4(5) c3(5) by (auto simp: defs split: option.splits)
  moreover have "c_sub_txn c4 = c_sub_txn c" if "cd_subs ?d \<noteq> []"
    using that lens(3) c4(7) by (auto simp: defs split: option.splits)
  moreover have "c_pledge_err c4 = map_option (map wire_norm) (c_pledge_err c)" if "cd_pledges ?d \<noteq> []"
    using that ok(1) c4(6) c3(6) by (auto simp: con_ok_def latches_ok_def defs split: option.splits)
  ultimately have "resumed c c'"
    using vv by (simp add: resumed_def c'_def)
  moreover have "resume_build S M ?d fns (c_state c) (parked_row c vb eb) w = (GEAS_OK, c', w')"
    by (simp add: resume_build_def row c1(1) c2(1) c3(1) c4(1) c5 st c'_def)
  ultimately show ?thesis
    by blast
qed


section \<open>Park, then resume\<close>

text \<open>The parameters park hands to the insert, and a result set whose first row has those columns.\<close>

definition park_sent :: "'w env \<Rightarrow> GeasContract \<Rightarrow> string \<Rightarrow> 'w sys \<Rightarrow> GeasValue list" where
  "park_sent E c key s =
     (case fst (park_blobs E c s) of Inl st \<Rightarrow> [] | Inr (vows, errs) \<Rightarrow> park_params c key vows errs)"

fun carries :: "GeasValue \<Rightarrow> GeasValue list \<Rightarrow> bool" where
  "carries (VArr KList g (LData (VArr KRecord g' (LData fs cap' e') # rs) cap e)) ps \<longleftrightarrow>
     map gv_ty fs = park_cols \<and> map str_field fs = map str_field ps \<and> map num_field fs = map num_field ps"
| "carries rows ps \<longleftrightarrow> False"

lemma carries_cases:
  assumes "carries rows ps"
  obtains g g' fs cap' e' rs cap e where "rows = VArr KList g (LData (VArr KRecord g' (LData fs cap' e') # rs) cap e)"
    "map gv_ty fs = park_cols" "map str_field fs = map str_field ps" "map num_field fs = map num_field ps"
  using assms by (rule carries.elims(2)) (blast intro: that)

lemma carries_row:
  assumes "map gv_ty fs = park_cols" "map str_field fs = map str_field (tl (park_params c key vb eb))"
    and "map num_field fs = map num_field (tl (park_params c key vb eb))"
  shows "row_of (VArr KRecord g (LData fs cap e)) = Some (parked_row c vb eb)"
proof -
  have "length fs = 9"
    using assms(1) by (metis length_map park_cols_def list.size(3,4) numeral_nat add_0 add_Suc)
  then obtain f0 f1 f2 f3 f4 f5 f6 f7 f8 where fs: "fs = [f0, f1, f2, f3, f4, f5, f6, f7, f8]"
    by (auto simp: length_Suc_conv numeral_eq_Suc)
  show ?thesis
    using assms unfolding fs
    by (simp add: row_of_def parked_row_def park_params_def park_str_param_def park_int_param_def numeral_eq_Suc)
qed

text \<open>A failing encoder never reports success.\<close>

lemma pass_errs [simp]:
  "sized v n \<noteq> Inl GEAS_OK" "written v n \<noteq> Inl GEAS_OK" "park_size vs n \<noteq> Inl GEAS_OK" "park_write vs n \<noteq> Inl GEAS_OK"
  "park_size_errs vs n \<noteq> Inl GEAS_OK" "park_write_errs vs n \<noteq> Inl GEAS_OK"
proof -
  show s: "sized v n \<noteq> Inl GEAS_OK" and w: "written v n \<noteq> Inl GEAS_OK" for v n
    by (auto simp: sized_def written_def split: prod.splits)
  show "park_size vs n \<noteq> Inl GEAS_OK" "park_write vs n \<noteq> Inl GEAS_OK"
    by (induction vs arbitrary: n) (auto simp: s w split: sum.splits)
  show "park_size_errs vs n \<noteq> Inl GEAS_OK" "park_write_errs vs n \<noteq> Inl GEAS_OK"
    by (induction vs arbitrary: n) (auto simp: s w split: sum.splits)
qed

lemma park_blobs_err: "park_blobs E c s \<noteq> (Inl GEAS_OK, t)"
  by (auto simp: park_blobs_def park_encode_values_def park_encode_errs_def geas_wire_encode_value_def
      dest: sym[of _ "Inl GEAS_OK"] split: prod.splits sum.splits option.splits if_splits bool.splits)

lemma park_okD:
  assumes "s_con s i = Some c" "geas_instance_park E i dsn key s = (GEAS_OK, s')"
  obtains vb eb s1 where "park_ready s c" "park_blobs E c s = (Inr (vb, eb), s1)"
  using assms that park_blobs_err[of E c s]
  by (auto simp: geas_instance_park_def split: if_splits prod.splits sum.splits)


lemma resume_row_back:
  assumes E: "\<forall>i. e_alloc E i" "\<forall>j i. e_malloc E j i"
    and d: "find_desc (s_reg s) (cd_name d) = Some d" "CHR 0x00 \<notin> set (cd_name d)"
      "expected = 0 \<or> expected = cd_shape_hash d"
      "cd_pledges d = [] \<or> resolve_fns (s_bindings s) (cd_name d) 0 (cd_pledges d) \<noteq> None"
    and slot: "length (s_instances s) \<noteq> GEAS_MAX_INSTANCES"
    and c: "c_desc c = d" "c_state c \<noteq> GEAS_UNSIGNED"
    and b: "\<And>fns. \<exists>c' w'. resume_build (e_sqlite E) (e_malloc E (s_next s)) d fns (c_state c) (parked_row c vb eb) (s_world s) =
        (GEAS_OK, c', w') \<and> resumed c c'"
  shows "\<exists>c' s'. resume_row E expected (parked_row c vb eb) s = (Inr (s_next s), s') \<and>
    s_con s' (s_next s) = Some c' \<and> resumed c c'"
proof -
  let ?row = "parked_row c vb eb"
  have row: "num_state (pr_state ?row) = Some (c_state c)" "find_desc (s_reg s) (cstr (pr_name ?row)) = Some d"
      "pr_version ?row = ucast (cd_version d)" "pr_shape ?row = cd_shape_hash d"
    using c d(1,2) by (simp_all add: parked_row_def state_back name_back)
  obtain fns where fns: "resolve_dispatch True (s_bindings s) d = Inr fns"
    using d(4) by (cases "cd_pledges d = []") (auto simp: resolve_dispatch_def)
  obtain c' w' where b': "resume_build (e_sqlite E) (e_malloc E (s_next s)) d fns (c_state c) ?row (s_world s) = (GEAS_OK, c', w')"
      "resumed c c'"
    using b by blast
  show ?thesis
    using row d(3) E(1) fns b' slot
    by (auto simp: resume_row_def sys_alloc_def publish_built_def Let_def)
qed

text \<open>C9.  Park, then resume.  When park of an instance succeeds and a later load of the key, possibly in
  another process, returns a first row with the columns park wrote, resume under the same registration,
  bindings for every pledge, memory and a free instance slot returns a new instance: the same contract,
  state, sign time, latches and episodes, with every vow and every pledge error rebuilt from its
  encoding, and no future.\<close>

theorem park_resume_round_trip:
  assumes park: "s_con s i = Some c" "parkable c" "geas_instance_park E i dsn key s = (GEAS_OK, s1)"
    and load: "park_load E2 dsn key s2 = (Inr rows, s3)" "carries rows (tl (park_sent E c key s))"
    and desc: "find_desc (s_reg s3) (cd_name (c_desc c)) = Some (c_desc c)" "CHR 0x00 \<notin> set (cd_name (c_desc c))"
      "expected = 0 \<or> expected = cd_shape_hash (c_desc c)"
    and bound: "cd_pledges (c_desc c) = [] \<or>
      resolve_fns (s_bindings s3) (cd_name (c_desc c)) 0 (cd_pledges (c_desc c)) \<noteq> None"
    and memory: "\<forall>i. e_alloc E2 i" "\<forall>j i. e_malloc E2 j i" "length (s_instances s3) \<noteq> GEAS_MAX_INSTANCES"
    and store: "store_accepts (e_sqlite E2) (e_malloc E2 (s_next s3)) c (s_world s3)"
  shows "\<exists>c' s4. geas_instance_resume E2 dsn key expected s2 = Some (Inr (s_next s3), s4) \<and>
    s_con s4 (s_next s3) = Some c' \<and> resumed c c'"
proof -
  obtain vb eb sb where p: "park_ready s c" "park_blobs E c s = (Inr (vb, eb), sb)"
    using park_okD[OF park(1,3)] by blast
  obtain g g' fs cap' e' rs cap e where r: "rows = VArr KList g (LData (VArr KRecord g' (LData fs cap' e') # rs) cap e)"
      "row_of (VArr KRecord g' (LData fs cap' e')) = Some (parked_row c vb eb)"
  proof -
    from load(2) have "carries rows (tl (park_params c key vb eb))"
      using p(2) by (simp add: park_sent_def)
    then show ?thesis
      by (rule carries_cases) (rule that, assumption, rule carries_row)
  qed
  have "\<exists>c' w'. resume_build (e_sqlite E2) (e_malloc E2 (s_next s3)) (c_desc c) fns (c_state c) (parked_row c vb eb) (s_world s3) =
      (GEAS_OK, c', w') \<and> resumed c c'" for fns
    using memory(2) by (intro build_back[OF _ park(2) p store]) simp
  from resume_row_back[OF memory(1,2) desc bound memory(3) refl _ this]
  obtain c' s4 where "resume_row E2 expected (parked_row c vb eb) s3 = (Inr (s_next s3), s4)"
      "s_con s4 (s_next s3) = Some c'" "resumed c c'"
    using p(1) by (auto simp: park_ready_def)
  then show ?thesis
    by (simp add: geas_instance_resume_def load(1) r)
qed


text \<open>A backend with one table of one row: the world is the cells of the last insert.\<close>

definition park_sqlite :: "cell list sqlite" where
  "park_sqlite = \<lparr>
     sq_malloc = \<lambda>n w. (True, w), sq_open = \<lambda>dsn w. (Some 0, w), sq_close = \<lambda>db w. w,
     sq_exec = \<lambda>db sql w. (True, w),
     sq_prepare = \<lambda>db sql w. Some (if sql = PARK_INSERT then (10, 0) else (1, 9)),
     sq_bind = \<lambda>db sql i x w. True,
     sq_run = \<lambda>db sql xs w. if sql = PARK_INSERT then ([], True, xs)
       else (if w \<noteq> [] \<and> hd w = hd xs then [tl w] else [], True, w),
     sq_reset = \<lambda>db sql w. True,
     sq_changes = \<lambda>db w. 1,
     sq_col_int = \<lambda>x. case x of CInt i \<Rightarrow> i | _ \<Rightarrow> 0,
     sq_col_double = \<lambda>x. case x of CReal f \<Rightarrow> f | _ \<Rightarrow> 0,
     sq_col_blob = \<lambda>x. case x of CBlob b \<Rightarrow> b | _ \<Rightarrow> [],
     sq_col_text = \<lambda>x. case x of CText t \<Rightarrow> Some t | _ \<Rightarrow> None\<rparr>"

definition park_env :: "cell list env" where
  "park_env = \<lparr>e_malloc = \<lambda>_ _. True, e_alloc = \<lambda>_. True, e_sqlite = park_sqlite,
     e_write_back = \<lambda>cb p v u H. H, e_time = \<lambda>n. 42\<rparr>"

definition park_start :: "cell list \<Rightarrow> cell list sys" where
  "park_start w = (init_sys 4 9 (\<lambda>_. \<lparr>ho_bits = 0, ho_str = SNull 0\<rparr>) w)\<lparr>s_reg := demo_reg\<rparr>"

definition park_cells :: "cell list" where
  "park_cells = map (the \<circ> bind_cell) (park_params demo_con ''k'' [] [0])"

lemma park_demo:
  "geas_instance_park park_env 0 ''db'' ''k'' (set_con 0 demo_con (park_start [])) =
     (GEAS_OK, (set_con 0 demo_con (park_start []))\<lparr>s_calls := Suc (s_calls (park_start [])), s_world := park_cells\<rparr>)"
  by (simp add: geas_instance_park_def demo_con_def park_ready_def park_blobs_def demo_desc_def park_encode_errs_def
      park_err_present_def sys_alloc_def park_store_def geas_store_open_def geas_store_exec_def park_env_def
      geas_store_exec_params_def park_sqlite_def bind_params_def park_params_def bind_one_def park_str_param_def park_int_param_def
      geas_store_close_def park_cells_def set_con_def)


definition park_rows :: GeasValue where
  "park_rows = VArr KList 0 (LData [VArr KRecord 0 (LData
     [VString 0 (SBytes (string_bytes ''Bank'')), VInt 0 1, VUInt 0 171, VInt 0 1, VInt 0 42, VString 0 (SNull 0),
      VString 0 (SBytes [0]), VString 0 (SBytes [0]), VString 0 (SNull 0)] 9 0)] 1 (ty_num GEAS_TY_RECORD))"

lemma park_cells_eq:
  "park_cells = [CBlob (string_bytes ''k''), CBlob (string_bytes ''Bank''), CInt 1, CInt 171, CInt 1, CInt 42,
     CBlob [], CBlob [0], CBlob [0], CBlob []]"
  by (simp add: park_cells_def park_params_def park_str_param_def park_int_param_def demo_con_def demo_desc_def
      blob_arg_def string_bytes_def)

lemma park_select_ne [simp]: "PARK_SELECT \<noteq> PARK_INSERT"
  by (simp add: PARK_SELECT_def PARK_INSERT_def)

lemma park_load_demo:
  "park_load park_env ''db'' ''k'' (park_start park_cells) = (Inr park_rows, (park_start park_cells)\<lparr>s_calls := s_calls (park_start park_cells) + 5\<rparr>)"
  by (simp add: park_load_def park_env_def park_sqlite_def geas_store_open_def geas_store_exec_def Let_def
      geas_store_query_def park_cols_def tag_scalar_def ty_cast_def tag_list_def bind_params_def bind_one_def park_str_param_def
      blob_arg_def string_bytes_def park_cells_eq query_fill_def park_arena_bytes_def park_arena_free_def read_row_def read_field_def
      record_of_def rows_of_def park_rows_def geas_store_close_def park_start_def init_sys_def)


theorem park_resume_round_trip_witness:
  "\<exists>c' s4. geas_instance_resume park_env ''db'' ''k'' 0xAB (park_start park_cells) = Some (Inr 0, s4) \<and>
     s_con s4 0 = Some c' \<and> resumed demo_con c' \<and> c_pledge_state c' = Some [PLEDGE_PENDING]"
proof -
  let ?s = "set_con 0 demo_con (park_start [])"
  have con: "s_con ?s 0 = Some demo_con" "parkable demo_con"
    by (auto simp: parkable_def demo_con_def demo_desc_def con_ok_def latches_ok_def array_ok_def gv_zero_def)
  have sent: "park_sent park_env demo_con ''k'' ?s = park_params demo_con ''k'' [] [0]"
    by (simp add: park_sent_def park_blobs_def demo_con_def demo_desc_def park_encode_errs_def park_err_present_def
        sys_alloc_def park_env_def)
  have carry: "carries park_rows (tl (park_sent park_env demo_con ''k'' ?s))"
    unfolding sent by (simp add: park_rows_def park_cols_def park_params_def park_str_param_def park_int_param_def
        demo_con_def demo_desc_def)
  have reg: "s_reg (park_start w) = demo_reg" "s_bindings (park_start w) = []" "s_instances (park_start w) = []"
      "s_next (park_start w) = 0" for w
    by (simp_all add: park_start_def init_sys_def)
  have "\<exists>c' s4. geas_instance_resume park_env ''db'' ''k'' 0xAB (park_start park_cells) = Some (Inr 0, s4) \<and>
     s_con s4 0 = Some c' \<and> resumed demo_con c'"
    using park_resume_round_trip[OF con park_demo park_load_demo carry, of "0xAB"]
    by (simp add: reg find_desc_def demo_reg_descs demo_con_def demo_desc_def find_binding_def park_env_def
        GEAS_MAX_INSTANCES_def store_accepts_def store_sign_reconcile_def)
  then show ?thesis
    by (auto simp: resumed_def demo_con_def demo_desc_def)
qed


section \<open>Park after an explicit break\<close>

text \<open>C39.  Park of an instance the caller has broken.  The header promises the state error, since the break
  freed the heap the vows and payloads live on.  With pledges that is what happens, and nothing is
  written.  Without pledges the guard is skipped: a contract with vows answers the type error of the
  codec, and one with neither is written to the store as a broken row.\<close>

theorem park_after_break:
  assumes "s_con s i = Some c" "geas_contract_break E i s = (GEAS_OK, s')"
  shows "\<exists>c'. s_con s' i = Some c' \<and> c_state c' = GEAS_BROKEN \<and>
    (if cd_pledges (c_desc c) \<noteq> [] then geas_instance_park E i dsn key s' = (GEAS_ERR_STATE, s')
     else fst (geas_instance_park E i dsn key s') =
       (if \<not> park_ready s' c' then GEAS_ERR_STATE
        else if cd_vows (c_desc c) \<noteq> [] then GEAS_ERR_TYPE
        else fst (park_store (e_sqlite E) dsn (park_params c' key [] []) (s_world s'))))"
proof -
  let ?s1 = "fold future_forfeit (c_futures c) s"
  obtain c' w where b: "break_contract (e_sqlite E) c (s_world ?s1) = (c', w)" "s' = set_con i c' (?s1\<lparr>s_world := w\<rparr>)"
    using assms by (auto simp: geas_contract_break_def Let_def split: if_splits prod.splits)
  have c': "c_state c' = GEAS_BROKEN" "c_desc c' = c_desc c" "owned (c_heap c') = []" "c_vow_vals c' = None"
    using b(1) by (auto simp: break_contract_def contract_free_owned_def Let_def)
  have con: "s_con s' i = Some c'"
    by (simp add: b(2))
  show ?thesis
  proof (intro exI[of _ c'] conjI con c'(1), cases "cd_pledges (c_desc c) = []")
    case True
    then show "if cd_pledges (c_desc c) \<noteq> [] then geas_instance_park E i dsn key s' = (GEAS_ERR_STATE, s')
      else fst (geas_instance_park E i dsn key s') =
        (if \<not> park_ready s' c' then GEAS_ERR_STATE
         else if cd_vows (c_desc c) \<noteq> [] then GEAS_ERR_TYPE
         else fst (park_store (e_sqlite E) dsn (park_params c' key [] []) (s_world s')))"
      using c' con by (simp add: geas_instance_park_def park_blobs_def geas_wire_encode_value_def split: prod.split)
  qed (use c' con in \<open>simp add: geas_instance_park_def park_ready_def\<close>)
qed

definition bare_con :: GeasContract where
  "bare_con = demo_con\<lparr>c_desc := demo_desc\<lparr>cd_pledges := []\<rparr>, c_fns := None, c_pledge_state := None, c_pledge_err := None\<rparr>"

definition bare_sys :: "cell list sys" where
  "bare_sys = set_con 0 (bare_con\<lparr>c_state := GEAS_BROKEN, c_heap := (c_heap bare_con)\<lparr>owned := []\<rparr>\<rparr>) (park_start [])"

theorem park_after_break_witness:
  "fst (geas_instance_park park_env 0 ''db'' ''k'' bare_sys) = GEAS_OK"
proof -
  have b: "geas_contract_break park_env 0 (set_con 0 bare_con (park_start [])) = (GEAS_OK, bare_sys)"
    by (simp add: geas_contract_break_def bare_con_def demo_con_def Let_def break_contract_def contract_free_owned_def
        bare_sys_def set_con_def)
  show ?thesis
    using park_after_break[OF _ b, of bare_con "''db''" "''k''"]
    by (simp add: park_ready_def bare_sys_def bare_con_def demo_con_def demo_desc_def park_store_def geas_store_open_def
      geas_store_exec_def park_env_def
      geas_store_exec_params_def park_sqlite_def bind_params_def park_params_def bind_one_def park_str_param_def park_int_param_def
      geas_store_close_def)
qed


section \<open>Any row\<close>

lemma vow_loop_types:
  "resume_vow_loop M vds bs h = (Inr (vs, rest), h') \<Longrightarrow> map gv_ty vs = map vd_ty vds"
  by (induction vds arbitrary: bs h vs rest) (auto split: prod.splits sum.splits if_splits)

text \<open>A failing decoder never reports success: a computation that never fails with \<open>GEAS_OK\<close>, and how such
  computations compose.\<close>

definition honest :: "(GeasStatus + 'a) \<times> 'h \<Rightarrow> bool" where
  "honest r \<longleftrightarrow> fst r \<noteq> Inl GEAS_OK"

named_theorems honest_intros \<open>composition of computations that report their failures\<close>

lemma honest_step [honest_intros]:
  "honest (Inr x, h)" "honest (Inl GEAS_ERR_TYPE, h)" "honest (Inl GEAS_ERR_OOM, h)"
  by (simp_all add: honest_def)

lemma honest_bind [honest_intros]:
  "honest r \<Longrightarrow> (\<And>y h. honest (f y h)) \<Longrightarrow>
     honest (case r of (x, h) \<Rightarrow> case x of Inl st \<Rightarrow> (Inl st, h) | Inr y \<Rightarrow> f y h)"
  by (cases r; cases "fst r") (auto simp: honest_def)

lemma honest_pair: "(\<And>a b. honest (f a b)) \<Longrightarrow> honest (case y of (a, b) \<Rightarrow> f a b)"
  by (cases y) simp

lemma honest_if [honest_intros]: "honest a \<Longrightarrow> honest b \<Longrightarrow> honest (if P then a else b)"
  by simp

lemma honest_take [honest_intros]: "(\<And>p c. honest (f p c)) \<Longrightarrow> honest (case w of None \<Rightarrow> (Inl GEAS_ERR_TYPE, h) | Some (p, c) \<Rightarrow> f p c)"
  by (cases w) (auto simp: honest_def)

lemma honest_alloc [honest_intros]:
  "(\<And>h. honest (f h)) \<Longrightarrow> honest (case a of (False, h) \<Rightarrow> (Inl GEAS_ERR_OOM, h) | (True, h) \<Rightarrow> f h)"
  by (cases a) (auto simp: honest_def split: bool.split)

lemma honest_scalar [honest_intros]: "honest (decode_scalar M T tag c h)"
  by (auto simp: honest_def decode_scalar_def split: GeasTypeTag.splits option.splits prod.splits)

lemma honest_new [honest_intros]: "honest (geas_list_new M e n h)" "honest (geas_tuple_new M n h)"
    "honest (slots_new M k tag n e h)" "honest (geas_list_push M v x h)"
  by (auto simp: honest_def geas_list_new_def geas_tuple_new_def slots_new_def geas_list_push_def Let_def
      split: prod.splits if_splits bool.splits GeasValue.splits ArrKind.splits)

lemma honest_loops:
  assumes "\<And>c h. honest (decode_rec M d c h)"
  shows "honest (decode_list M n e out d c h)" "honest (decode_slots M n d c h)" "honest (decode_map M n e xs d c h)"
proof -
  show "honest (decode_list M n e out d c h)"
    by (induction n arbitrary: out c h) (simp_all only: decode_list.simps decode_slots.simps, (rule honest_intros assms | rule honest_pair | assumption)+)
  show "honest (decode_slots M n d c h)"
    by (induction n arbitrary: c h) (simp_all only: decode_list.simps decode_slots.simps, (rule honest_intros assms | rule honest_pair | assumption)+)
  show "honest (decode_map M n e xs d c h)"
    by (induction n arbitrary: xs c h) (simp_all only: decode_map.simps, (rule honest_intros assms | rule honest_pair | assumption)+)
qed

lemma honest_decode: "honest (decode_rec M d c h)"
proof (induction "65 - d" arbitrary: d c h)
  case 0
  then have "GEAS_WIRE_MAX_DEPTH < d"
    by (simp add: GEAS_WIRE_MAX_DEPTH_def)
  then show ?case
    by (subst decode_rec.simps) (simp add: honest_def)
next
  case (Suc n)
  have IH: "honest (decode_rec M (Suc d) c h)" for c h
    using Suc.hyps by (intro Suc.hyps(1)) simp
  have tags: "honest (case T of None \<Rightarrow> (Inl GEAS_ERR_TYPE, h) | Some t \<Rightarrow> f t)" if "\<And>t. honest (f t)" for T h f
    using that by (cases T) (simp_all add: honest_def)
  show ?case
    unfolding decode_rec.simps[of M d c h] Let_def
    apply (intro honest_if honest_take honest_step tags)
    subgoal for p c t
      by (cases t; simp only: GeasTypeTag.case; (rule honest_intros honest_loops IH | rule honest_pair)+)
    done
qed

lemma honest_vow_loop: "resume_vow_loop M vds bs h \<noteq> (Inl GEAS_OK, h')"
proof -
  have d: "honest (geas_wire_decode_value M (Some bs) h)" for bs h
    unfolding geas_wire_decode_value_def option.case by (rule honest_intros honest_decode | rule honest_pair)+
  have "honest (resume_vow_loop M vds bs h)"
    by (induction vds arbitrary: bs h)
      (simp_all only: resume_vow_loop.simps, (rule honest_intros d | rule honest_pair | assumption)+)
  then show ?thesis
    by (auto simp: honest_def)
qed

lemma resume_vows_types:
  assumes "resume_vows M bs c = (GEAS_OK, c')" "c_vow_vals c = None"
  shows "map gv_ty (case c_vow_vals c' of None \<Rightarrow> [] | Some vs \<Rightarrow> vs) = map vd_ty (cd_vows (c_desc c))"
  using assms honest_vow_loop
  by (auto simp: resume_vows_def Let_def dest!: vow_loop_types split: if_splits prod.splits bool.splits sum.splits)

lemma those_txns: "those (map byte_txn bt) = Some ts \<Longrightarrow> TXN_OPEN \<notin> set ts"
  by (induction bt arbitrary: ts) (auto simp: byte_txn_def split: option.splits if_splits)

lemma resume_txn_closed:
  assumes "resume_txn M bt c = (GEAS_OK, c')" "c_sub_txn c = None"
  shows "c_sub_txn c' = Some ts \<Longrightarrow> TXN_OPEN \<notin> set ts"
  using assms by (auto simp: resume_txn_def Let_def dest: those_txns split: if_splits prod.splits bool.splits option.splits)

text \<open>What every resumed instance satisfies, whatever the row said.\<close>

definition well_typed :: "GeasContract \<Rightarrow> bool" where
  "well_typed c \<longleftrightarrow> con_ok c \<and> c_futures c = [] \<and> c_shape_hash c = cd_shape_hash (c_desc c) \<and>
     map gv_ty (case c_vow_vals c of None \<Rightarrow> [] | Some vs \<Rightarrow> vs) = map vd_ty (cd_vows (c_desc c)) \<and>
     (case c_sub_txn c of None \<Rightarrow> True | Some ts \<Rightarrow> TXN_OPEN \<notin> set ts)"

lemma resume_build_typed:
  assumes "resume_build S M d fns st0 row w = (GEAS_OK, c, w')" "st0 \<noteq> GEAS_UNSIGNED"
    and "length fns = length (cd_pledges d)"
  shows "well_typed c \<and> c_desc c = d \<and> c_state c = st0 \<and> c_signed_at c = pr_signed row"
  using assms(1)
proof (cases rule: resume_stages)
  case (1 c1 c2 c3 c4 c5)
  note b = resume_build_ok[OF assms]
  have c1: "c_desc c1 = d" "c_vow_vals c1 = None" "c_pledge_state c1 = None" "c_sub_txn c1 = None"
    by (subst sign_fns_ok[OF 1(1)], simp add: fresh_contract_def)+
  have c2: "c_desc c2 = d" "c_pledge_state c2 = None" "c_sub_txn c2 = None"
    using c1 by (subst resume_vows_ok[OF 1(2) c1(2), THEN conjunct1], simp)+
  have c3: "c_desc c3 = d" "c_vow_vals c3 = c_vow_vals c2" "c_sub_txn c3 = None"
    using c2 by (subst resume_latches_ok[OF 1(3) c2(2), THEN conjunct1], simp)+
  have c4: "c_vow_vals c4 = c_vow_vals c2"
    using c3 by (subst resume_txn_ok[OF 1(4) c3(3), THEN conjunct1], simp)
  have c5: "c_vow_vals c = c_vow_vals c2" "c_sub_txn c = c_sub_txn c4"
    unfolding 1(6) using c4 by (subst store_sign_frame[OF 1(5)]; simp)+
  have "c_state c = st0" "c_shape_hash c = cd_shape_hash d" "c_signed_at c = pr_signed row"
    by (simp_all add: 1(6))
  then show ?thesis
    using b resume_vows_types[OF 1(2) c1(2)] resume_txn_closed[OF 1(4) c3(3)] c1(1) c5
    by (auto simp: well_typed_def split: option.split)
qed


lemma resume_row_published:
  assumes "resume_row E hash row s = (Inr i, s')"
  obtains d fns st0 n where "num_state (pr_state row) = Some st0" "length fns = length (cd_pledges d)"
    "find_desc (s_reg s) (cstr (pr_name row)) = Some d" "pr_shape row = cd_shape_hash d" "hash = 0 \<or> hash = cd_shape_hash d"
    "publish_built (e_sqlite E) (resume_build (e_sqlite E) (e_malloc E (s_next s)) d fns st0 row (s_world s))
       (s\<lparr>s_calls := n\<rparr>) = (Inr i, s')"
proof -
  obtain st0 d where d: "num_state (pr_state row) = Some st0" "find_desc (s_reg s) (cstr (pr_name row)) = Some d"
      "pr_shape row = cd_shape_hash d" "hash = 0 \<or> hash = cd_shape_hash d"
    using assms by (auto simp: resume_row_def sys_alloc_def split: option.splits if_splits bool.splits)
  obtain fns n ok where f: "resolve_dispatch ok (s_bindings s) d = Inr fns"
      "publish_built (e_sqlite E) (resume_build (e_sqlite E) (e_malloc E (s_next s)) d fns st0 row (s_world s))
         (s\<lparr>s_calls := n\<rparr>) = (Inr i, s')"
    using assms d by (auto simp: resume_row_def sys_alloc_def split: if_splits sum.splits bool.splits)
  show ?thesis
    by (rule that[OF d(1) resolve_dispatch_length[OF f(1)] d(2-4) f(2)])
qed

lemma resume_published:
  assumes "geas_instance_resume E dsn key hash s = Some (Inr i, s')"
  obtains row s1 where "quiet s s1" "resume_row E hash row s1 = (Inr i, s')"
proof -
  obtain x s1 where load: "park_load E dsn key s = (x, s1)"
    by force
  obtain row where "resume_row E hash row s1 = (Inr i, s')"
    using assms load
    by (auto simp: geas_instance_resume_def split: sum.splits GeasValue.splits ArrKind.splits GeasList.splits list.splits)
  then show ?thesis
    by (rule that[OF load_quiet[OF load]])
qed

text \<open>C10. A resumed instance is well typed whatever the row said.  A row may be stale, truncated or written by
  something else: if resume returns an instance at all, it is of a registered contract with the
  recorded and the pinned shape, it is not unsigned, it has exactly one value per vow and of the declared type,
  one latch and one payload slot per pledge, one episode per subcontract with none left open, no future, and
  it is the only instance that was added.\<close>

theorem resume_well_typed:
  assumes "geas_instance_resume E dsn key hash s = Some (Inr i, s')"
  shows "\<exists>c. s_con s' = (s_con s)(i \<mapsto> c) \<and> s_instances s' = s_instances s @ [i] \<and> s_fut s' = s_fut s \<and> well_typed c \<and>
    c_desc c \<in> set (descs (s_reg s)) \<and> (hash = 0 \<or> hash = geas_contract_hash c) \<and> c_state c \<noteq> GEAS_UNSIGNED"
  using assms
proof (cases rule: resume_published)
  case (1 row s1)
  obtain k w1 where s1: "s1 = s\<lparr>s_calls := k, s_world := w1\<rparr>"
    using 1(1) unfolding quiet_def by blast
  from 1(2) show ?thesis
  proof (cases rule: resume_row_published)
    case (1 d fns st0 n)
    obtain st c w where b: "resume_build (e_sqlite E) (e_malloc E (s_next s1)) d fns st0 row (s_world s1) = (st, c, w)"
      by (metis prod_cases3)
    have p: "st = GEAS_OK" "s_con s' = (s_con s)(i \<mapsto> c)" "s_instances s' = s_instances s @ [i]" "s_fut s' = s_fut s"
      using 1(6) unfolding b by (cases rule: built_cases, simp_all add: s1 set_con_def)+
    have c: "well_typed c" "c_desc c = d"
      using resume_build_typed[of "e_sqlite E" _ d fns st0 row _ c w] b p(1) num_state_signed[OF 1(1)] 1(2) by blast+
    have "d \<in> set (descs (s_reg s))"
      using 1(3) by (auto simp: s1 find_desc_def find_Some_iff)
    then show ?thesis
      using p(2-4) c 1(5) by (auto simp: well_typed_def con_ok_def geas_contract_hash_def)
  qed
qed

lemma demo_resumes: "\<exists>s'. geas_instance_resume park_env ''db'' ''k'' 0xAB (park_start park_cells) = Some (Inr 0, s')"
proof -
  let ?row = "\<lparr>pr_name = string_bytes ''Bank'', pr_version = 1, pr_shape = 171, pr_state = 1, pr_signed = 42, pr_vows = [],
     pr_latches = [0], pr_errs = [0], pr_subtxn = []\<rparr>"
  have row: "row_of (VArr KRecord 0 (LData
     [VString 0 (SBytes (string_bytes ''Bank'')), VInt 0 1, VUInt 0 171, VInt 0 1, VInt 0 42, VString 0 (SNull 0),
      VString 0 (SBytes [0]), VString 0 (SBytes [0]), VString 0 (SNull 0)] 9 0)) = Some ?row"
    by (simp add: row_of_def park_cols_def numeral_eq_Suc)
  have "\<exists>c. resume_build park_sqlite (\<lambda>_. True) demo_desc [7] GEAS_SIGNED ?row w = (GEAS_OK, c, w)" for w
    by (simp add: resume_build_def sign_fns_def resume_vows_def resume_latches_def resume_txn_def store_sign_reconcile_def
        fresh_contract_def demo_desc_def geas_bytes_def Let_def numeral_2_eq_2 byte_latch_def)
  then obtain c where b: "resume_build park_sqlite (\<lambda>_. True) demo_desc [7] GEAS_SIGNED ?row park_cells = (GEAS_OK, c, park_cells)"
    by blast
  have "cstr (string_bytes ''Bank'') = ''Bank''"
    by (rule name_back) simp
  then have "\<exists>s'. resume_row park_env 0xAB ?row (park_start park_cells\<lparr>s_calls := n\<rparr>) = (Inr 0, s')" for n
    using b
    by (simp add: resume_row_def num_state_def park_env_def sys_alloc_def park_start_def init_sys_def find_desc_def demo_reg_descs
        resolve_dispatch_def find_binding_def publish_built_def GEAS_MAX_INSTANCES_def Let_def
        demo_desc_def[THEN arg_cong[where f = cd_name]] demo_desc_def[THEN arg_cong[where f = cd_pledges]]
        demo_desc_def[THEN arg_cong[where f = cd_version]] demo_desc_def[THEN arg_cong[where f = cd_shape_hash]])
  then show ?thesis
    by (simp add: geas_instance_resume_def park_load_demo park_rows_def row)
qed

theorem resume_well_typed_witness:
  "\<exists>c s'. geas_instance_resume park_env ''db'' ''k'' 0xAB (park_start park_cells) = Some (Inr 0, s') \<and>
     s_con s' 0 = Some c \<and> well_typed c \<and> c_desc c = demo_desc"
proof -
  obtain s' where r: "geas_instance_resume park_env ''db'' ''k'' 0xAB (park_start park_cells) = Some (Inr 0, s')"
    using demo_resumes by blast
  from resume_well_typed[OF r] show ?thesis
    using r by (auto simp: park_start_def init_sys_def demo_reg_descs)
qed

end
