(* ===== verification/Geas_Render.thy ===== *)
theory Geas_Render
  imports Geas_Float Geas_Report
begin

text \<open>
  The debug renderer of \<^verbatim>\<open>runtime.c\<close>: a counting sink over a caller's buffer, the spelling of every
  value, and the two passes of \<^verbatim>\<open>geas_value_render\<close>.  The printf formats it uses are written out;
  a string or list with a NULL pointer has no bytes or elements here, and a length field without
  memory behind it is excluded by the well formedness of the value.
\<close>

section \<open>Formats\<close>

definition fmt_lld :: "u64 \<Rightarrow> string" where
  "fmt_lld w = (if sint w < 0 then CHR ''-'' # dec_digits (nat (- sint w)) else dec_digits (nat (sint w)))"

definition fmt_llu :: "u64 \<Rightarrow> string" where
  "fmt_llu w = dec_digits (unat w)"

definition fmt_02x :: "u8 \<Rightarrow> string" where
  "fmt_02x b = hex_digits 2 (unat b)"

definition HEX_digit :: "nat \<Rightarrow> char" where
  "HEX_digit n = char_of (if n < 10 then 48 + n else 55 + n)"

fun HEX_digits :: "nat \<Rightarrow> string" where
  "HEX_digits n = (if n < 16 then [HEX_digit n] else HEX_digits (n div 16) @ [HEX_digit (n mod 16)])"

declare HEX_digits.simps [simp del]

definition fmt_04X :: "u32 \<Rightarrow> string" where
  "fmt_04X w = (let z = HEX_digits (unat w) in replicate (4 - length z) CHR ''0'' @ z)"

text \<open>\<^verbatim>\<open>%g\<close>: six significant digits of the exact value, ties to even, trailing zeros dropped, in scientific
  form when the exponent is below -4 or at least 6.\<close>

definition strip_zeros :: "string \<Rightarrow> string" where
  "strip_zeros z = rev (dropWhile (\<lambda>c. c = CHR ''0'') (rev z))"

definition with_point :: "string \<Rightarrow> string \<Rightarrow> string" where
  "with_point whole frac = (let f = strip_zeros frac in if f = [] then whole else whole @ CHR ''.'' # f)"

definition dec_exponent :: "nat \<Rightarrow> nat \<Rightarrow> int" where
  "dec_exponent p q =
     (if q \<le> p then int (length (dec_digits (p div q))) - 1
      else - int (length (dec_digits ((q + p - 1) div p - 1))))"

definition six_digits :: "nat \<Rightarrow> nat \<Rightarrow> nat \<times> int" where
  "six_digits p q =
     (let x = dec_exponent p q;
          n = (if x \<le> 5 then round_even (p * 10 ^ nat (5 - x)) q else round_even p (q * 10 ^ nat (x - 5)))
      in if n = 10 ^ 6 then (10 ^ 5, x + 1) else (n, x))"

definition fmt_exp :: "int \<Rightarrow> string" where
  "fmt_exp x =
     (let z = dec_digits (nat \<bar>x\<bar>)
      in CHR ''e'' # (if x < 0 then CHR ''-'' else CHR ''+'') # replicate (2 - length z) CHR ''0'' @ z)"

definition fmt_g_finite :: "nat \<Rightarrow> nat \<Rightarrow> string" where
  "fmt_g_finite p q =
     (if p = 0 then ''0''
      else case six_digits p q of (n, x) \<Rightarrow>
        let z = dec_digits n in
        if x < - 4 \<or> 6 \<le> x then with_point (take 1 z) (drop 1 z) @ fmt_exp x
        else if 0 \<le> x then with_point (take (nat x + 1) z) (drop (nat x + 1) z)
        else with_point ''0'' (replicate (nat (- x - 1)) CHR ''0'' @ z))"

definition fmt_g :: "u64 \<Rightarrow> string" where
  "fmt_g w =
     (if f64_neg w then ''-'' else '''') @
     (if f64_nan w then ''nan'' else if f64_is_inf w then ''inf'' else fmt_g_finite (f64_scaled w) (2 ^ 1074))"

section \<open>The sink\<close>

text \<open>The buffer is the list of its \<open>sk_cap\<close> bytes.\<close>

record RenderSink =
  sk_buf :: "bytes option"
  sk_cap :: u64
  sk_pos :: u64

definition overwrite :: "bytes \<Rightarrow> nat \<Rightarrow> bytes \<Rightarrow> bytes" where
  "overwrite b p xs = take p b @ xs @ drop (p + length xs) b"

definition sink_put :: "RenderSink \<Rightarrow> bytes \<Rightarrow> RenderSink" where
  "sink_put s xs =
     (let n = of_nat (length xs) :: u64;
          s1 = (case sk_buf s of
                  None \<Rightarrow> s
                | Some b \<Rightarrow>
                    if sk_pos s < sk_cap s then
                      let room = sk_cap s - sk_pos s
                      in s\<lparr>sk_buf := Some (overwrite b (unat (sk_pos s)) (take (unat (if n < room then n else room)) xs))\<rparr>
                    else s)
      in s1\<lparr>sk_pos := sk_pos s + n\<rparr>)"

definition sink_str :: "RenderSink \<Rightarrow> string \<Rightarrow> RenderSink" where
  "sink_str s z = sink_put s (string_bytes z)"

text \<open>The formatted text goes through a buffer of 64 bytes, which every text above fits.\<close>

definition sink_fmt :: "RenderSink \<Rightarrow> string \<Rightarrow> RenderSink" where
  "sink_fmt s z = (if 0 < length z then sink_put s (string_bytes z) else s)"

section \<open>Values\<close>

fun render_bytes :: "RenderSink \<Rightarrow> bytes \<Rightarrow> RenderSink" where
  "render_bytes s [] = s"
| "render_bytes s (b # bs) =
     render_bytes
       (if b = 0x22 then sink_put s [0x5C, 0x22]
        else if b = 0x5C then sink_put s [0x5C, 0x5C]
        else if b < 0x20 \<or> b = 0x7F then sink_fmt s (CHR 0x5C # CHR ''x'' # fmt_02x b)
        else sink_put s [b]) bs"

definition render_string :: "RenderSink \<Rightarrow> GeasString \<Rightarrow> RenderSink" where
  "render_string s str = sink_put (render_bytes (sink_put s [0x22]) (str_bytes str)) [0x22]"

definition GEAS_RENDER_DEPTH :: nat where
  "GEAS_RENDER_DEPTH = 8"

lemma elems_le: "2 * size_list size (list_elems l) < Suc (2 * size_GeasList size l)"
  using size_list_elems[of l] by simp

text \<open>\<open>render_list\<close> and \<open>render_pairs\<close> are the loops of \<^verbatim>\<open>render_elems\<close> and \<^verbatim>\<open>render_map\<close> from an index on;
  \<open>later\<close> says that it is not the first.\<close>

function (sequential) render_value :: "RenderSink \<Rightarrow> GeasValue \<Rightarrow> nat \<Rightarrow> RenderSink"
and render_elems :: "RenderSink \<Rightarrow> GeasValue GeasList \<Rightarrow> nat \<Rightarrow> string \<Rightarrow> string \<Rightarrow> RenderSink"
and render_list :: "RenderSink \<Rightarrow> bool \<Rightarrow> GeasValue list \<Rightarrow> nat \<Rightarrow> RenderSink"
and render_map :: "RenderSink \<Rightarrow> GeasValue GeasList \<Rightarrow> nat \<Rightarrow> RenderSink"
and render_pairs :: "RenderSink \<Rightarrow> bool \<Rightarrow> GeasValue list \<Rightarrow> nat \<Rightarrow> RenderSink"
and render_box :: "RenderSink \<Rightarrow> GeasValue option \<Rightarrow> nat \<Rightarrow> string \<Rightarrow> RenderSink"
where
  "render_value s v depth =
     (if GEAS_RENDER_DEPTH < depth then sink_str s ''...''
      else case v of
        VUnit g \<Rightarrow> sink_str s ''()''
      | VInt g i \<Rightarrow> sink_fmt s (fmt_lld i)
      | VUInt g u \<Rightarrow> sink_fmt s (fmt_llu u)
      | VFloat g f \<Rightarrow> sink_fmt s (fmt_g f)
      | VBool g b \<Rightarrow> sink_str s (if b \<noteq> 0 then ''true'' else ''false'')
      | VByte g b \<Rightarrow> sink_fmt s (fmt_u (ucast b))
      | VChar g c \<Rightarrow> sink_fmt s (''U+'' @ fmt_04X c)
      | VString g str \<Rightarrow> render_string s str
      | VArr k g l \<Rightarrow>
          (case k of
             KList \<Rightarrow> render_elems s l depth ''['' '']''
           | KTuple \<Rightarrow> render_elems s l depth ''('' '')''
           | KRecord \<Rightarrow> render_elems s l depth ''{'' ''}''
           | KSum \<Rightarrow>
               (let s = sink_fmt s (CHR 0x23 # fmt_u g)
                in if list_len l \<noteq> 0 then render_elems s l depth ''('' '')'' else s)
           | KMap \<Rightarrow> render_map s l depth)
      | VBox k g b \<Rightarrow>
          (case k of
             KOption \<Rightarrow> if g = 0 then sink_str s ''None'' else render_box s b depth ''Some''
           | KResult \<Rightarrow> render_box s b depth (if g = 0 then ''Ok'' else ''Err''))
      | VPledgeRef g p \<Rightarrow> sink_str s ''<pledge>''
      | VInstance g i \<Rightarrow> sink_str s ''<instance>''
      | VOther t g \<Rightarrow> sink_str s ''<?>'')"
| "render_elems s l depth opn cls = sink_str (render_list (sink_str s opn) False (list_elems l) depth) cls"
| "render_list s later [] depth = s"
| "render_list s later (v # vs) depth =
     render_list (render_value (if later then sink_str s '', '' else s) v (depth + 1)) True vs depth"
| "render_map s l depth = sink_put (render_pairs (sink_put s [0x7B]) False (list_elems l) depth) [0x7D]"
| "render_pairs s later (k # v # kvs) depth =
     render_pairs
       (render_value (sink_str (render_value (if later then sink_str s '', '' else s) k (depth + 1)) '': '') v (depth + 1))
       True kvs depth"
| "render_pairs s later kvs depth = s"
| "render_box s b depth name =
     sink_put
       (case b of
          Some v \<Rightarrow> render_value (sink_put (sink_str s name) [0x28]) v (depth + 1)
        | None \<Rightarrow> sink_put (sink_put (sink_str s name) [0x28]) [0x3F]) [0x29]"
  by pat_completeness auto
termination
  by (relation "measure (\<lambda>p. case p of
      Inl (Inl (s, v, d)) \<Rightarrow> 2 * size v
    | Inl (Inr (Inl (s, l, d, _))) \<Rightarrow> 2 * size_GeasList size l + 1
    | Inl (Inr (Inr (s, b, xs, d))) \<Rightarrow> 2 * size_list size xs
    | Inr (Inl (s, l, d)) \<Rightarrow> 2 * size_GeasList size l + 1
    | Inr (Inr (Inl (s, b, xs, d))) \<Rightarrow> 2 * size_list size xs
    | Inr (Inr (Inr (s, b, d, _))) \<Rightarrow> 2 * size_option size b + 1)")
    (simp_all add: elems_le)

declare render_value.simps [simp del]

text \<open>The status, \<^verbatim>\<open>*need\<close> when it is set, and the buffer afterwards.\<close>

definition geas_value_render ::
    "GeasValue option \<Rightarrow> bytes option \<Rightarrow> u64 \<Rightarrow> GeasStatus \<times> u64 option \<times> bytes option" where
  "geas_value_render v buf cap =
     (case v of
        None \<Rightarrow> (GEAS_ERR_TYPE, None, buf)
      | Some v \<Rightarrow>
          (let cap = (if buf = None then 0 else cap);
               size_pass = render_value \<lparr>sk_buf = None, sk_cap = 0, sk_pos = 0\<rparr> v 0;
               need = sk_pos size_pass + 1
           in if cap < need then (GEAS_ERR_OOM, Some need, buf)
              else
                let write_pass = render_value \<lparr>sk_buf = buf, sk_cap = cap, sk_pos = 0\<rparr> v 0
                in (GEAS_OK, Some need, map_option (\<lambda>b. overwrite b (unat (sk_pos write_pass)) [0]) (sk_buf write_pass))))"

end
