(* ===== verification/Geas_Render_Props.thy ===== *)
theory Geas_Render_Props
  imports Geas_Render Geas_Sql Geas_Value_Facts
begin

text \<open>
  The renderer: the two passes over the sink write one text, a pure function of the value; the text is
  printable, so the buffer is a C string, and every formatted piece fits the sink's own buffer.
\<close>

section \<open>The text of a value\<close>

fun join :: "bytes \<Rightarrow> bytes list \<Rightarrow> bytes" where
  "join sep [] = []"
| "join sep [x] = x"
| "join sep (x # y # xs) = x @ sep @ join sep (y # xs)"

fun pair_up :: "bytes list \<Rightarrow> bytes list" where
  "pair_up (k # v # xs) = (k @ string_bytes '': '' @ v) # pair_up xs"
| "pair_up xs = []"

definition byte_text :: "u8 \<Rightarrow> bytes" where
  "byte_text b =
     (if b = 0x22 then [0x5C, 0x22] else if b = 0x5C then [0x5C, 0x5C]
      else if b < 0x20 \<or> b = 0x7F then string_bytes (CHR 0x5C # CHR ''x'' # fmt_02x b) else [b])"

abbreviation commas :: "bytes list \<Rightarrow> bytes" where
  "commas \<equiv> join (string_bytes '', '')"

fun value_text :: "nat \<Rightarrow> GeasValue \<Rightarrow> bytes" where
  "value_text d v =
     (if GEAS_RENDER_DEPTH < d then string_bytes ''...''
      else case v of
        VUnit g \<Rightarrow> string_bytes ''()''
      | VInt g i \<Rightarrow> string_bytes (fmt_lld i)
      | VUInt g u \<Rightarrow> string_bytes (fmt_llu u)
      | VFloat g f \<Rightarrow> string_bytes (fmt_g f)
      | VBool g b \<Rightarrow> string_bytes (if b \<noteq> 0 then ''true'' else ''false'')
      | VByte g b \<Rightarrow> string_bytes (fmt_u (ucast b))
      | VChar g c \<Rightarrow> string_bytes (''U+'' @ fmt_04X c)
      | VString g str \<Rightarrow> [0x22] @ concat (map byte_text (str_bytes str)) @ [0x22]
      | VArr k g l \<Rightarrow>
          (let ts = map (value_text (d + 1)) (list_elems l) in
           case k of
             KList \<Rightarrow> string_bytes ''['' @ commas ts @ string_bytes '']''
           | KTuple \<Rightarrow> string_bytes ''('' @ commas ts @ string_bytes '')''
           | KRecord \<Rightarrow> string_bytes ''{'' @ commas ts @ string_bytes ''}''
           | KSum \<Rightarrow> string_bytes (CHR 0x23 # fmt_u g) @
               (if list_len l \<noteq> 0 then string_bytes ''('' @ commas ts @ string_bytes '')'' else [])
           | KMap \<Rightarrow> [0x7B] @ commas (pair_up ts) @ [0x7D])
      | VBox k g b \<Rightarrow>
          (if k = KOption \<and> g = 0 then string_bytes ''None''
           else string_bytes (case k of KOption \<Rightarrow> ''Some'' | KResult \<Rightarrow> if g = 0 then ''Ok'' else ''Err'') @ [0x28] @
             (case b of Some v \<Rightarrow> value_text (d + 1) v | None \<Rightarrow> [0x3F]) @ [0x29])
      | VPledgeRef g p \<Rightarrow> string_bytes ''<pledge>''
      | VInstance g i \<Rightarrow> string_bytes ''<instance>''
      | VOther t g \<Rightarrow> string_bytes ''<?>'')"

declare value_text.simps [simp del]

section \<open>The sink\<close>

definition sink_ok :: "RenderSink \<Rightarrow> bool" where
  "sink_ok s \<longleftrightarrow> (case sk_buf s of None \<Rightarrow> True | Some b \<Rightarrow> length b = unat (sk_cap s))"

definition room_for :: "RenderSink \<Rightarrow> nat \<Rightarrow> bool" where
  "room_for s n \<longleftrightarrow> unat (sk_pos s) + n < 2 ^ 64"

lemma string_bytes_length [simp]: "length (string_bytes z) = length z"
  by (simp add: string_bytes_def)

lemma put_pos:
  assumes "room_for s (length xs)"
  shows "unat (sk_pos (sink_put s xs)) = unat (sk_pos s) + length xs"
  using assms by (auto simp: sink_put_def room_for_def Let_def unat_word_ariths unat_of_nat split: option.split)

lemma put_room: "room_for s (length xs + n) \<Longrightarrow> room_for (sink_put s xs) n"
  using put_pos[of s xs] by (simp add: room_for_def)

lemma overwrite_length: "p + length xs \<le> length b \<Longrightarrow> length (overwrite b p xs) = length b"
  by (simp add: overwrite_def)

text \<open>What a put does to the buffer: the bytes that still fit.\<close>

lemma put_buf:
  assumes "sink_ok s" "room_for s (length xs)"
  shows "sk_buf (sink_put s xs) =
      map_option (\<lambda>b. overwrite b (unat (sk_pos s)) (take (length b - unat (sk_pos s)) xs)) (sk_buf s)"
    and "sk_cap (sink_put s xs) = sk_cap s"
proof -
  show "sk_cap (sink_put s xs) = sk_cap s"
    by (auto simp: sink_put_def Let_def split: option.split)
  show "sk_buf (sink_put s xs) =
      map_option (\<lambda>b. overwrite b (unat (sk_pos s)) (take (length b - unat (sk_pos s)) xs)) (sk_buf s)"
  proof (cases "sk_buf s")
    case (Some b)
    have n: "unat (of_nat (length xs) :: u64) = length xs"
      using assms(2) by (simp add: room_for_def unat_of_nat)
    have l: "length b = unat (sk_cap s)"
      using assms(1) Some by (simp add: sink_ok_def)
    show ?thesis
    proof (cases "sk_pos s < sk_cap s")
      case True
      then have r: "unat (sk_cap s - sk_pos s) = length b - unat (sk_pos s)"
        using l by (simp add: unat_sub)
      show ?thesis
        using Some True n r
        by (auto simp: sink_put_def Let_def word_less_nat_alt min_def not_less)
    next
      case False
      then show ?thesis
        using Some l by (simp add: sink_put_def Let_def overwrite_def word_less_nat_alt)
    qed
  qed (simp add: sink_put_def)
qed

lemma put_ok: "sink_ok s \<Longrightarrow> room_for s (length xs) \<Longrightarrow> sink_ok (sink_put s xs)"
  using put_buf[of s xs]
  by (auto simp: sink_ok_def overwrite_def split: option.splits)

lemma sink_eqI:
  assumes "sk_buf s = sk_buf t" "sk_cap s = sk_cap t" "unat (sk_pos s) = unat (sk_pos t)"
  shows "s = (t :: RenderSink)"
  using assms by (cases s, cases t) (simp add: word_unat_eq_iff)

lemma overwrite_twice:
  "overwrite (overwrite b p (take (length b - p) xs)) (p + length xs)
     (take (length (overwrite b p (take (length b - p) xs)) - (p + length xs)) ys) =
   overwrite b p (take (length b - p) (xs @ ys))"
proof -
  consider "p + length xs \<le> length b" | "length b < p + length xs" "p < length b" | "length b \<le> p"
    by linarith
  then show ?thesis
  proof cases
    case 1
    then have "min (length b) p = p"
      by simp
    then show ?thesis
      using 1 by (simp add: overwrite_def ac_simps)
  next
    case 2
    then have "length (overwrite b p (take (length b - p) xs)) = length b"
      by (simp add: overwrite_def)
    then show ?thesis
      using 2 by (simp add: overwrite_def[of "overwrite b p (take (length b - p) xs)"])
  qed (simp add: overwrite_def)
qed

lemma put_put:
  assumes "sink_ok s" "room_for s (length xs + length ys)"
  shows "sink_put (sink_put s xs) ys = sink_put s (xs @ ys)"
proof (rule sink_eqI)
  have rx: "room_for s (length xs)" "room_for s (length (xs @ ys))" "room_for (sink_put s xs) (length ys)"
    using assms(2) put_room[of s xs "length ys"] by (auto simp: room_for_def)
  note ok = put_ok[OF assms(1) rx(1)]
  show "sk_cap (sink_put (sink_put s xs) ys) = sk_cap (sink_put s (xs @ ys))"
    by (simp add: put_buf(2)[OF ok rx(3)] put_buf(2)[OF assms(1) rx(1)] put_buf(2)[OF assms(1) rx(2)])
  show "unat (sk_pos (sink_put (sink_put s xs) ys)) = unat (sk_pos (sink_put s (xs @ ys)))"
    by (simp add: put_pos[OF rx(1)] put_pos[OF rx(2)] put_pos[OF rx(3)])
  show "sk_buf (sink_put (sink_put s xs) ys) = sk_buf (sink_put s (xs @ ys))"
    unfolding put_buf(1)[OF ok rx(3)] put_buf(1)[OF assms(1) rx(1)] put_buf(1)[OF assms(1) rx(2)] put_pos[OF rx(1)]
    by (cases "sk_buf s") (simp_all only: option.map overwrite_twice)
qed


section \<open>One pass\<close>

text \<open>An operation on sinks that appends a text, as long as the position does not wrap.\<close>

definition puts :: "(RenderSink \<Rightarrow> RenderSink) \<Rightarrow> bytes \<Rightarrow> bool" where
  "puts f t \<longleftrightarrow> (\<forall>s. sink_ok s \<longrightarrow> room_for s (length t) \<longrightarrow> f s = sink_put s t)"

lemma puts_put: "puts (\<lambda>s. sink_put s t) t"
  by (simp add: puts_def)

lemma puts_str: "puts (\<lambda>s. sink_str s z) (string_bytes z)"
  by (simp add: puts_def sink_str_def)

lemma puts_id: "puts (\<lambda>s. s) []"
  by (auto simp: puts_def room_for_def sink_ok_def put_buf put_pos overwrite_def
      intro!: sink_eqI split: option.split)

lemma puts_fmt: "puts (\<lambda>s. sink_fmt s z) (string_bytes z)"
  using puts_id by (cases "z = []") (simp_all add: puts_def sink_fmt_def string_bytes_def)

lemma puts_comp:
  assumes "puts f a" "puts g b"
  shows "puts (\<lambda>s. g (f s)) (a @ b)"
  unfolding puts_def
proof (intro allI impI)
  fix s
  assume s: "sink_ok s" "room_for s (length (a @ b))"
  then have r: "room_for s (length a)" "room_for (sink_put s a) (length b)"
    using put_room[of s a "length b"] by (auto simp: room_for_def)
  then show "g (f s) = sink_put s (a @ b)"
    using assms s put_ok[OF s(1) r(1)] put_put[OF s(1)] by (simp add: puts_def)
qed

lemma puts_bytes: "puts (\<lambda>s. render_bytes s bs) (concat (map byte_text bs))"
proof (induction bs)
  case (Cons b bs)
  have "puts (\<lambda>s. if b = 0x22 then sink_put s [0x5C, 0x22] else if b = 0x5C then sink_put s [0x5C, 0x5C]
        else if b < 0x20 \<or> b = 0x7F then sink_fmt s (CHR 0x5C # CHR ''x'' # fmt_02x b) else sink_put s [b]) (byte_text b)"
    using puts_put puts_fmt by (simp add: byte_text_def)
  from puts_comp[OF this Cons] show ?case
    by simp
qed (simp add: puts_id)

lemma puts_string: "puts (\<lambda>s. render_string s str) ([0x22] @ concat (map byte_text (str_bytes str)) @ [0x22])"
  unfolding render_string_def
  using puts_comp[OF puts_put[of "[0x22]"] puts_comp[OF puts_bytes[of "str_bytes str"] puts_put[of "[0x22]"]]] by simp

lemma puts_later: "puts (\<lambda>s. if later then sink_str s '', '' else s) (if later then string_bytes '', '' else [])"
  using puts_str puts_id by simp

lemma join_Cons: "join sep (x # xs) = x @ (if xs = [] then [] else sep @ join sep xs)"
  by (cases xs) simp_all

lemma puts_list:
  assumes "\<forall>v\<in>set vs. puts (\<lambda>s. render_value s v (d + 1)) (value_text (d + 1) v)"
  shows "puts (\<lambda>s. render_list s later vs d)
    ((if later \<and> vs \<noteq> [] then string_bytes '', '' else []) @ commas (map (value_text (d + 1)) vs))"
  using assms
proof (induction vs arbitrary: later)
  case (Cons v vs)
  then have v: "puts (\<lambda>s. render_value s v (d + 1)) (value_text (d + 1) v)"
    by simp
  have "puts (\<lambda>s. render_list s True vs d)
      ((if True \<and> vs \<noteq> [] then string_bytes '', '' else []) @ commas (map (value_text (d + 1)) vs))"
    using Cons.prems by (intro Cons.IH) simp
  from puts_comp[OF puts_comp[OF puts_later v] this, of later] show ?case
    by (cases vs) (simp_all add: join_Cons)
qed (simp add: puts_id)

lemma puts_pairs:
  assumes "\<forall>v\<in>set vs. puts (\<lambda>s. render_value s v (d + 1)) (value_text (d + 1) v)"
  shows "puts (\<lambda>s. render_pairs s later vs d)
    ((if later \<and> pair_up (map (value_text (d + 1)) vs) \<noteq> [] then string_bytes '', '' else []) @
     commas (pair_up (map (value_text (d + 1)) vs)))"
  using assms
proof (induction "map (value_text (d + 1)) vs" arbitrary: later vs rule: pair_up.induct)
  case (1 k v xs)
  then obtain a b cs where vs: "vs = a # b # cs"
    by auto
  have ab: "puts (\<lambda>s. render_value s a (d + 1)) (value_text (d + 1) a)" "puts (\<lambda>s. render_value s b (d + 1)) (value_text (d + 1) b)"
    using "1.prems" vs by simp_all
  have IH: "puts (\<lambda>s. render_pairs s True cs d)
    ((if True \<and> pair_up (map (value_text (d + 1)) cs) \<noteq> [] then string_bytes '', '' else []) @
     commas (pair_up (map (value_text (d + 1)) cs)))"
    using "1.hyps"(2) "1.prems" vs by (intro "1.hyps"(1)) auto
  from puts_comp[OF puts_comp[OF puts_comp[OF puts_comp[OF puts_later ab(1)] puts_str] ab(2)] IH, of later "'': ''"]
  show ?case
    by (cases "pair_up (map (value_text (Suc d)) cs) = []"; cases later) (simp_all add: vs join_Cons)
qed (auto simp: puts_id Cons_eq_map_conv)

lemma puts_box:
  assumes "\<And>w. b = Some w \<Longrightarrow> puts (\<lambda>s. render_value s w (d + 1)) (value_text (d + 1) w)"
  shows "puts (\<lambda>s. render_box s b d name)
      (string_bytes name @ [0x28] @ (case b of Some v \<Rightarrow> value_text (d + 1) v | None \<Rightarrow> [0x3F]) @ [0x29])"
  using puts_comp[OF puts_comp[OF puts_str puts_put[of "[0x28]"]] puts_comp[OF assms puts_put[of "[0x29]"]], of _ name]
    puts_comp[OF puts_comp[OF puts_comp[OF puts_str puts_put[of "[0x28]"]] puts_put[of "[0x3F]"]] puts_put[of "[0x29]"], of name]
  by (cases b) simp_all

lemma puts_elems:
  assumes "\<And>x. x \<in> set (list_elems l) \<Longrightarrow> puts (\<lambda>s. render_value s x (d + 1)) (value_text (d + 1) x)"
  shows "puts (\<lambda>s. render_elems s l d opn cls)
      (string_bytes opn @ commas (map (value_text (d + 1)) (list_elems l)) @ string_bytes cls)"
    and "puts (\<lambda>s. render_map s l d) ([0x7B] @ commas (pair_up (map (value_text (d + 1)) (list_elems l))) @ [0x7D])"
  using assms puts_comp[OF puts_str puts_comp[OF puts_list[of "list_elems l" d False] puts_str], of opn cls]
    puts_comp[OF puts_put[of "[0x7B]"] puts_comp[OF puts_pairs[of "list_elems l" d False] puts_put[of "[0x7D]"]]]
  by simp_all

lemma render_puts: "puts (\<lambda>s. render_value s v d) (value_text d v)"
proof (induction d v rule: value_text.induct)
  case (1 d v)
  show ?case
  proof (cases "GEAS_RENDER_DEPTH < d")
    case True
    then show ?thesis
      using puts_str by (simp add: render_value.simps value_text.simps)
  next
    case False
    note IH = 1[OF False]
    have a: "puts (\<lambda>s. render_value s x (d + 1)) (value_text (d + 1) x)" if "v = VArr k g l" "x \<in> set (list_elems l)" for k g l x
      using IH that by blast
    have w: "puts (\<lambda>s. render_value s x (d + 1)) (value_text (d + 1) x)" if "v = VBox k g (Some x)" "\<not> (k = KOption \<and> g = 0)" for k g x
      using IH that by blast
    note eqs = render_value.simps[of _ v d] value_text.simps[of d v]
    show ?thesis
    proof (cases v)
      case (VArr k g l)
      note l = puts_elems[of l, OF a[OF VArr], simplified]
      show ?thesis
        unfolding eqs unfolding VArr
        using l puts_fmt[of "CHR 0x23 # fmt_u g"] puts_comp[OF puts_fmt[of "CHR 0x23 # fmt_u g"] l(1), of "''(''" "'')''"]
        by (cases k) (simp_all add: False Let_def)
    next
      case (VBox k g x)
      show ?thesis
      proof (cases "k = KOption \<and> g = 0")
        case True
        then show ?thesis
          unfolding eqs unfolding VBox using puts_str by (simp add: False)
      next
        case nn: False
        have "puts (\<lambda>s. render_box s x d name)
            (string_bytes name @ [0x28] @ (case x of Some v \<Rightarrow> value_text (d + 1) v | None \<Rightarrow> [0x3F]) @ [0x29])" for name
          using VBox nn by (intro puts_box w) simp_all
        then show ?thesis
          unfolding eqs unfolding VBox using nn by (cases k) (simp_all add: False del: render_box.simps)
      qed
    qed (use puts_str puts_fmt puts_string in \<open>simp_all add: render_value.simps value_text.simps False\<close>)
  qed
qed


section \<open>The formats\<close>

definition printable :: "bytes \<Rightarrow> bool" where
  "printable xs \<longleftrightarrow> (\<forall>b\<in>set xs. 0x20 \<le> b \<and> b \<noteq> 0x7F)"

text \<open>The characters every format is made of.\<close>

definition graphic :: "string \<Rightarrow> bool" where
  "graphic z \<longleftrightarrow> (\<forall>c\<in>set z. 0x20 \<le> (of_char c :: nat) \<and> of_char c < (0x7F :: nat))"

lemma graphic_simps [simp]:
  "graphic []" "graphic (c # z) \<longleftrightarrow> (0x20 \<le> (of_char c :: nat) \<and> of_char c < (0x7F :: nat)) \<and> graphic z"
  "graphic (y @ z) \<longleftrightarrow> graphic y \<and> graphic z"
  by (auto simp: graphic_def)

lemma graphic_sub: "set y \<subseteq> set z \<Longrightarrow> graphic z \<Longrightarrow> graphic y"
  by (auto simp: graphic_def)

lemma graphic_replicate [simp]: "graphic (replicate n CHR ''0'')"
  by (simp add: graphic_def)

lemma printable_simps [simp]:
  "printable []" "printable (b # xs) \<longleftrightarrow> (0x20 \<le> b \<and> b \<noteq> 0x7F) \<and> printable xs"
  "printable (xs @ ys) \<longleftrightarrow> printable xs \<and> printable ys"
  by (auto simp: printable_def)

lemma graphic_printable: "graphic z \<Longrightarrow> printable (string_bytes z)"
proof -
  have "0x20 \<le> (of_nat n :: u8) \<and> (of_nat n :: u8) \<noteq> 0x7F" if "0x20 \<le> n" "n < 0x7F" for n :: nat
    using that by (simp add: word_le_nat_alt unat_of_nat word_unat_eq_iff)
  then show "graphic z \<Longrightarrow> printable (string_bytes z)"
    by (auto simp: printable_def graphic_def string_bytes_def simp del: of_nat_of_char)
qed

lemma mod_below: "n mod 10 < (79 :: nat)" "n mod 16 < (40 :: nat)" "n mod 16 < (72 :: nat)" for n :: nat
  using mod_less_divisor[of 10 n] mod_less_divisor[of 16 n] by linarith+

lemma graphic_dec [simp]: "graphic (dec_digits n)"
  by (induction n rule: dec_digits.induct) (subst dec_digits.simps, simp add: mod_below)

lemma graphic_hex [simp]: "graphic (hex_digits k n)"
  by (induction k arbitrary: n) (simp_all add: hex_digit_def mod_below)

lemma graphic_HEX [simp]: "graphic (HEX_digits n)"
  by (induction n rule: HEX_digits.induct) (subst HEX_digits.simps, simp add: HEX_digit_def mod_below)

lemma graphic_strip [simp]: "graphic z \<Longrightarrow> graphic (strip_zeros z)"
  by (rule graphic_sub[of _ z]) (auto simp: strip_zeros_def dest: set_dropWhileD)

lemma graphic_point [simp]: "graphic a \<Longrightarrow> graphic b \<Longrightarrow> graphic (with_point a b)"
  by (simp add: with_point_def Let_def)

lemma graphic_take [simp]: "graphic z \<Longrightarrow> graphic (take n z)" "graphic z \<Longrightarrow> graphic (drop n z)"
  by (auto simp: graphic_def dest: in_set_takeD in_set_dropD)

lemma graphic_formats [simp]:
  "graphic (fmt_lld i)" "graphic (fmt_llu i)" "graphic (fmt_02x b)" "graphic (fmt_04X c)" "graphic (fmt_u g)" "graphic (fmt_g f)"
  by (simp_all add: fmt_lld_def fmt_llu_def fmt_02x_def fmt_04X_def fmt_u_def fmt_g_def fmt_g_finite_def fmt_exp_def Let_def
      split: prod.split)


lemma dec_digits_upper: "n < 10 ^ length (dec_digits n)"
proof (induction n rule: dec_digits.induct)
  case (1 n)
  show ?case
  proof (cases "n < 10")
    case False
    then have "n div 10 < 10 ^ length (dec_digits (n div 10))"
      using 1 by simp
    then have "n < 10 ^ length (dec_digits (n div 10)) * 10"
      by (simp add: div_less_iff_less_mult)
    then show ?thesis
      using False by (subst dec_digits.simps) simp
  qed (simp add: dec_digits.simps)
qed

lemma dec_digits_lower: "0 < n \<Longrightarrow> 10 ^ (length (dec_digits n) - 1) \<le> n"
proof (induction n rule: dec_digits.induct)
  case (1 n)
  show ?case
  proof (cases "n < 10")
    case False
    then have "10 ^ (length (dec_digits (n div 10)) - 1) \<le> n div 10" "0 < length (dec_digits (n div 10))"
      using 1 by (simp_all add: dec_digits.simps[of "n div 10"])
    then have "10 * 10 ^ (length (dec_digits (n div 10)) - 1) \<le> n"
      by linarith
    then show ?thesis
      using False \<open>0 < length (dec_digits (n div 10))\<close>
      by (subst dec_digits.simps) (simp flip: power_Suc)
  qed (use "1.prems" in \<open>simp add: dec_digits.simps\<close>)
qed

text \<open>The exponent of a positive fraction, and so at most six digits.\<close>

lemma dec_digits_pos: "0 < length (dec_digits n)"
  by (subst dec_digits.simps) simp

lemma exponent_upper:
  assumes "0 < p" "0 < q"
  shows "dec_exponent p q \<le> 5 \<Longrightarrow> p * 10 ^ nat (5 - dec_exponent p q) < q * 10 ^ 6"
    and "5 < dec_exponent p q \<Longrightarrow> p < q * 10 ^ nat (dec_exponent p q - 5) * 10 ^ 6"
proof -
  have "(dec_exponent p q \<le> 5 \<longrightarrow> p * 10 ^ nat (5 - dec_exponent p q) < q * 10 ^ 6) \<and>
    (5 < dec_exponent p q \<longrightarrow> p < q * 10 ^ nat (dec_exponent p q - 5) * 10 ^ 6)"
  proof (cases "q \<le> p")
    case True
    define L where "L = length (dec_digits (p div q))"
    have x: "dec_exponent p q = int L - 1"
      using True by (simp add: dec_exponent_def L_def)
    have p: "p < 10 ^ L * q"
      using dec_digits_upper[of "p div q"] assms(2) by (simp add: L_def div_less_iff_less_mult)
    have "p * 10 ^ (6 - L) < q * 10 ^ 6" if "L \<le> 6"
    proof -
      have "p * 10 ^ (6 - L) < 10 ^ L * q * 10 ^ (6 - L)"
        using p by simp
      also have "\<dots> = q * 10 ^ (L + (6 - L))"
        by (simp add: power_add)
      finally show ?thesis
        using that by simp
    qed
    moreover have "p < q * 10 ^ (L - 6) * 10 ^ 6" if "6 < L"
    proof -
      have "10 ^ L = 10 ^ (L - 6) * (10 ^ 6 :: nat)"
        using that power_add[of "10 :: nat" "L - 6" 6] by simp
      then show ?thesis
        using p by (simp add: mult.commute mult.left_commute)
    qed
    moreover have "nat (5 - (int L - 1)) = 6 - L" "nat (int L - 1 - 5) = L - 6"
      by simp_all
    ultimately show ?thesis
      unfolding x by auto
  next
    case False
    define c where "c = (q + p - 1) div p"
    define k where "k = length (dec_digits (c - 1))"
    have x: "dec_exponent p q = - int k"
      using False by (simp add: dec_exponent_def c_def k_def)
    have "2 * p \<le> q + p - 1"
      using False by simp
    then have "2 \<le> c"
      using assms(1) by (simp add: c_def less_eq_div_iff_mult_less_eq)
    moreover have "c * p \<le> q + p - 1"
      by (simp add: c_def)
    ultimately have "(c - 1) * p < q"
      using assms(1) by (cases c) simp_all
    moreover have "10 ^ (k - 1) \<le> c - 1"
      using dec_digits_lower[of "c - 1"] \<open>2 \<le> c\<close> by (simp add: k_def)
    ultimately have "10 ^ (k - 1) * p < q"
      by (meson le_less_trans mult_le_mono1)
    then have "10 ^ (k - 1) * p * 10 ^ 6 < q * 10 ^ 6"
      by simp
    also have "10 ^ (k - 1) * p * 10 ^ 6 = p * 10 ^ (k + 5)"
      using dec_digits_pos[of "c - 1"] by (cases k) (simp_all add: k_def power_add)
    finally have "p * 10 ^ (k + 5) < q * 10 ^ 6" .
    moreover have "nat (5 + int k) = k + 5"
      by simp
    ultimately show ?thesis
      unfolding x by simp
  qed
  then show "dec_exponent p q \<le> 5 \<Longrightarrow> p * 10 ^ nat (5 - dec_exponent p q) < q * 10 ^ 6"
    and "5 < dec_exponent p q \<Longrightarrow> p < q * 10 ^ nat (dec_exponent p q - 5) * 10 ^ 6"
    by blast+
qed

lemma round_even_le: "0 < q \<Longrightarrow> p < q * n \<Longrightarrow> round_even p q \<le> n"
  using less_mult_imp_div_less[of p n q] by (simp add: round_even_def Let_def mult.commute)

lemma six_digits_len:
  assumes "0 < p" "0 < q"
  shows "length (dec_digits (fst (six_digits p q))) \<le> 7" and "\<bar>snd (six_digits p q)\<bar> \<le> \<bar>dec_exponent p q\<bar> + 1"
proof -
  have "fst (six_digits p q) \<le> 10 ^ 6"
    using exponent_upper[OF assms] round_even_le[of q "p * 10 ^ nat (5 - dec_exponent p q)" "10 ^ 6"]
      round_even_le[of "q * 10 ^ nat (dec_exponent p q - 5)" p "10 ^ 6"] assms
    by (simp add: six_digits_def Let_def)
  then show "length (dec_digits (fst (six_digits p q))) \<le> 7"
    using dec_digits_len[of "fst (six_digits p q)" 6] by simp
  show "\<bar>snd (six_digits p q)\<bar> \<le> \<bar>dec_exponent p q\<bar> + 1"
    by (auto simp: six_digits_def Let_def abs_if)
qed


lemma point_len: "length (with_point a b) \<le> length a + length b + 1"
proof -
  have "length (strip_zeros b) \<le> length b"
    using length_dropWhile_le[of _ "rev b"] by (simp add: strip_zeros_def)
  then show ?thesis
    by (simp add: with_point_def Let_def)
qed

lemma exponent_small:
  assumes "0 < p" "p < 10 ^ Suc m" "0 < q" "q \<le> 10 ^ Suc m"
  shows "\<bar>dec_exponent p q\<bar> \<le> int (Suc m)"
proof -
  have "p div q < 10 ^ Suc m"
    using div_le_dividend[of p q] assms(2) by linarith
  moreover have "q + p - 1 \<le> q * p"
    using assms(1,3) by (cases p; cases q) simp_all
  then have "(q + p - 1) div p \<le> q"
    using div_le_mono[of "q + p - 1" "q * p" p] assms(1) by simp
  then have "(q + p - 1) div p - 1 < 10 ^ Suc m"
    using assms(3,4) by linarith
  ultimately show ?thesis
    using dec_digits_len[of "p div q" m] dec_digits_len[of "(q + p - 1) div p - 1" m] dec_digits_pos[of "p div q"]
    by (simp add: dec_exponent_def)
qed

lemma fmt_g_finite_len:
  assumes "p < 10 ^ Suc m" "0 < q" "q \<le> 10 ^ Suc m" "m \<le> 640"
  shows "length (fmt_g_finite p q) \<le> 30"
proof (cases "p = 0")
  case False
  obtain n x where nx: "six_digits p q = (n, x)"
    by force
  have z: "length (dec_digits n) \<le> 7" "\<bar>x\<bar> \<le> 642"
    using six_digits_len[of p q] exponent_small[of p m q] False assms nx by simp_all
  have "length (dec_digits (nat \<bar>x\<bar>)) \<le> 3"
    using dec_digits_len[of "nat \<bar>x\<bar>" 2] z(2) by simp
  then have e: "length (fmt_exp x) \<le> 5"
    by (simp add: fmt_exp_def Let_def)
  have k: "length (with_point (take k (dec_digits n)) (drop k (dec_digits n))) \<le> 8" for k
    using point_len[of "take k (dec_digits n)" "drop k (dec_digits n)"] z(1) by simp
  have f: "length (with_point ''0'' (replicate (nat (- x - 1)) CHR ''0'' @ dec_digits n)) \<le> 13" if "- 4 \<le> x"
    using point_len[of "''0''" "replicate (nat (- x - 1)) CHR ''0'' @ dec_digits n"] z(1) that by simp
  show ?thesis
    using False nx e f k[of 1] k[of "nat x + 1"]
    by (cases "x < - 4 \<or> 6 \<le> x"; cases "0 \<le> x") (auto simp: fmt_g_finite_def Let_def)
qed (simp add: fmt_g_finite_def)


lemma f64_scaled_less: "f64_scaled w < 2 ^ 53 * 2 ^ 2046"
proof -
  have "f64_frac_field w < 2 ^ 52" "f64_exp_field w < 2048"
    by (simp_all add: f64_frac_field_def f64_exp_field_def)
  then have f: "2 ^ 52 + f64_frac_field w < 2 ^ 53" "f64_exp_field w - 1 \<le> 2046"
    by simp_all
  have "(2 :: nat) ^ (f64_exp_field w - 1) \<le> 2 ^ 2046"
    by (rule power_increasing[OF f(2)]) simp
  then have "(2 ^ 52 + f64_frac_field w) * 2 ^ (f64_exp_field w - 1) < 2 ^ 53 * 2 ^ 2046"
    by (rule mult_less_le_imp_less[OF f(1)]) simp_all
  moreover have "f64_frac_field w < 2 ^ 53 * 2 ^ 2046"
    using f(1) by (rule less_le_trans[OF le_less_trans[OF le_add2]]) simp
  ultimately show ?thesis
    by (simp add: f64_scaled_def)
qed

lemma fmt_g_len: "length (fmt_g w) \<le> 31"
proof -
  have b: "(2 :: nat) ^ 53 * 2 ^ 2046 \<le> 10 ^ Suc 640" "(2 :: nat) ^ 1074 \<le> 10 ^ Suc 640"
    by simp_all
  have "length (fmt_g_finite (f64_scaled w) (2 ^ 1074)) \<le> 30"
    by (rule fmt_g_finite_len[OF less_le_trans[OF f64_scaled_less b(1)] _ b(2)]) simp_all
  then have "length (if f64_nan w then ''nan'' else if f64_is_inf w then ''inf'' else fmt_g_finite (f64_scaled w) (2 ^ 1074)) \<le> 30"
    by (simp del: power_numeral split: if_split)
  moreover have "length t \<le> 30 \<Longrightarrow> length ((if a then ''-'' else '''') @ t) \<le> 31" for a t
    by simp
  ultimately show ?thesis
    unfolding fmt_g_def by blast
qed


lemma dec_u64_len: "n \<le> 2 ^ 64 \<Longrightarrow> length (dec_digits n) \<le> 20"
  using dec_digits_len[of n 19] by simp

lemma HEX_digits_len: "n < 16 ^ Suc k \<Longrightarrow> length (HEX_digits n) \<le> Suc k"
proof (induction k arbitrary: n)
  case (Suc k)
  show ?case
  proof (cases "n < 16")
    case False
    have "n div 16 < 16 ^ Suc k"
      using Suc.prems by (simp add: div_less_iff_less_mult)
    from Suc.IH[OF this] False show ?thesis
      by (subst HEX_digits.simps) simp
  qed (simp add: HEX_digits.simps)
qed (simp add: HEX_digits.simps)

text \<open>Every text that passes through the sink's buffer of 64 bytes leaves room for its terminator.\<close>

lemma formats_fit:
  "length (fmt_lld i) < 64" "length (fmt_llu i) < 64" "length (fmt_g f) < 64"
  "length (fmt_u (ucast b)) < 64" "length (''U+'' @ fmt_04X c) < 64"
  "length (CHR 0x23 # fmt_u g) < 64" "length (CHR 0x5C # CHR ''x'' # fmt_02x b) < 64"
proof -
  have "- (2 ^ 63) \<le> sint i" "sint i < 2 ^ 63"
    using sint_range_size[of i] by (simp_all add: word_size)
  then have "nat (- sint i) \<le> 2 ^ 64" "nat (sint i) \<le> 2 ^ 64"
    by simp_all
  from this[THEN dec_u64_len] show "length (fmt_lld i) < 64"
    by (simp add: fmt_lld_def)
  have "unat i < 2 ^ 64"
    using unsigned_less[of i] by simp
  then have "unat i \<le> 2 ^ 64"
    by simp
  from dec_u64_len[OF this] show "length (fmt_llu i) < 64"
    by (simp add: fmt_llu_def)
  show "length (fmt_g f) < 64"
    using fmt_g_len[of f] by simp
  show "length (fmt_u (ucast b)) < 64" "length (CHR 0x23 # fmt_u g) < 64"
    using fmt_u_len[of "ucast b"] fmt_u_len[of g] by simp_all
  have "unat c < 2 ^ 32"
    using unsigned_less[of c] by simp
  then have "unat c < 16 ^ Suc 7"
    by simp
  from HEX_digits_len[OF this] show "length (''U+'' @ fmt_04X c) < 64"
    by (simp add: fmt_04X_def Let_def)
  show "length (CHR 0x5C # CHR ''x'' # fmt_02x b) < 64"
    by (simp add: fmt_02x_def)
qed

lemma join_printable: "printable sep \<Longrightarrow> \<forall>x\<in>set xs. printable x \<Longrightarrow> printable (join sep xs)"
  by (induction sep xs rule: join.induct) simp_all

lemma pair_up_printable: "\<forall>x\<in>set xs. printable x \<Longrightarrow> \<forall>x\<in>set (pair_up xs). printable x"
  by (induction xs rule: pair_up.induct) (simp_all add: graphic_printable)

lemma byte_text_printable: "printable (byte_text b)"
  by (auto simp: byte_text_def graphic_printable not_less)

lemma text_printable: "printable (value_text d v)"
proof (induction d v rule: value_text.induct)
  case (1 d v)
  have s: "printable (concat (map byte_text bs))" for bs
    by (induction bs) (simp_all add: byte_text_printable)
  show ?case
    using 1 unfolding value_text.simps[of d v]
    by (auto simp: graphic_printable s Let_def intro!: join_printable pair_up_printable
        split: GeasValue.split ArrKind.split BoxKind.split option.split)
qed


section \<open>Both passes\<close>

lemma render_both:
  assumes "length (value_text 0 v) + 1 < 2 ^ 64" "case buf of None \<Rightarrow> True | Some b \<Rightarrow> length b = unat cap"
    and t_def: "t = value_text 0 v"
  shows "geas_value_render (Some v) buf cap =
      (case buf of
         Some b \<Rightarrow>
           if length t < length b then (GEAS_OK, Some (of_nat (length t + 1)), Some (t @ [0] @ drop (length t + 1) b))
           else (GEAS_ERR_OOM, Some (of_nat (length t + 1)), Some b)
       | None \<Rightarrow> (GEAS_ERR_OOM, Some (of_nat (length t + 1)), None))"
proof -
  let ?n = "of_nat (length t) :: u64" and ?s0 = "\<lparr>sk_buf = None, sk_cap = 0, sk_pos = 0\<rparr>"
  have n: "unat ?n = length t" "unat (?n + 1) = length t + 1" "of_nat (length t + 1) = ?n + 1"
    using assms(1) by (simp_all add: t_def unat_of_nat unat_word_ariths)
  have r: "room_for \<lparr>sk_buf = x, sk_cap = y, sk_pos = 0\<rparr> (length t)" for x y
    using assms(1) by (simp add: room_for_def t_def)
  have "render_value ?s0 v 0 = sink_put ?s0 t"
    using render_puts[of v 0] r by (simp add: puts_def sink_ok_def t_def)
  then have size: "sk_pos (render_value ?s0 v 0) = ?n"
    by (simp add: sink_put_def)
  show "geas_value_render (Some v) buf cap =
      (case buf of
         Some b \<Rightarrow>
           if length t < length b then (GEAS_OK, Some (of_nat (length t + 1)), Some (t @ [0] @ drop (length t + 1) b))
           else (GEAS_ERR_OOM, Some (of_nat (length t + 1)), Some b)
       | None \<Rightarrow> (GEAS_ERR_OOM, Some (of_nat (length t + 1)), None))"
  proof (cases buf)
    case None
    have "0 < ?n + 1"
      using n(2) by (simp add: word_less_nat_alt)
    then show ?thesis
      by (simp add: geas_value_render_def None Let_def size n(3))
  next
    case (Some b)
    let ?s = "\<lparr>sk_buf = Some b, sk_cap = cap, sk_pos = 0\<rparr>"
    have lb: "length b = unat cap" and ok: "sink_ok ?s"
      using assms(2) Some by (simp_all add: sink_ok_def)
    have "render_value ?s v 0 = sink_put ?s t"
      using render_puts[of v 0] r ok by (simp add: puts_def t_def)
    moreover have "sk_buf (sink_put ?s t) = Some (overwrite b 0 (take (length b) t))" "unat (sk_pos (sink_put ?s t)) = length t"
      using put_buf(1)[OF ok r] put_pos[OF r] by simp_all
    moreover have "cap < ?n + 1 \<longleftrightarrow> \<not> length t < length b"
      using n(2) lb by (simp add: word_less_nat_alt not_less less_Suc_eq_le)
    ultimately show ?thesis
      by (simp add: geas_value_render_def Some Let_def size n(3) overwrite_def)
  qed
qed

lemma text_is_cstring: "takeWhile (\<lambda>b. b \<noteq> 0) (value_text d v @ [0] @ rest) = value_text d v"
proof -
  have "\<forall>b\<in>set (value_text d v). b \<noteq> 0"
    using text_printable[of d v] by (auto simp: printable_def)
  then show ?thesis
    by (subst takeWhile_append2) auto
qed

text \<open>C40. The renderer.  For a well formed value whose text is shorter than the address space, the sizing
  pass counts exactly the text and its terminator; a missing or smaller buffer reports that size and
  is left as it was; otherwise the buffer holds the text, the terminator and, behind it, what it held.
  The text has no control byte, so the buffer read as a C string is the whole text, and every piece
  formatted into the sink's 64 byte buffer fits there with its terminator.\<close>

theorem value_render_exact:
  assumes "wf_value v" "length (value_text 0 v) + 1 < 2 ^ 64"
    and "case buf of None \<Rightarrow> True | Some b \<Rightarrow> length b = unat cap"
  shows "let t = value_text 0 v; need = Some (of_nat (length t + 1)) in
    geas_value_render (Some v) buf cap =
      (case buf of
         Some b \<Rightarrow>
           if length t < length b then (GEAS_OK, need, Some (t @ [0] @ drop (length t + 1) b))
           else (GEAS_ERR_OOM, need, Some b)
       | None \<Rightarrow> (GEAS_ERR_OOM, need, None)) \<and>
    takeWhile (\<lambda>b. b \<noteq> 0) (t @ [0] @ rest) = t \<and>
    length (fmt_lld i) < 64 \<and> length (fmt_llu i) < 64 \<and> length (fmt_g f) < 64 \<and> length (''U+'' @ fmt_04X c) < 64 \<and>
    length (CHR 0x23 # fmt_u g) < 64"
  unfolding Let_def using render_both[OF assms(2,3) refl] text_is_cstring formats_fit(1,2,3,5,6) by blast

definition render_demo :: GeasValue where
  "render_demo = VArr KTuple 0 (LData [VBool 0 1, VString 0 (SBytes [0x61, 0x0A]), VBox KOption 0 None] 3 0)"

theorem value_render_exact_witness:
  "fst (geas_value_render (Some render_demo) (Some (replicate 32 7)) 32) = GEAS_OK \<and>
   fst (snd (geas_value_render (Some render_demo) (Some (replicate 32 7)) 32)) = Some 22"
proof -
  have t: "length (value_text 0 render_demo) = 21"
    by (simp add: render_demo_def value_text.simps GEAS_RENDER_DEPTH_def byte_text_def fmt_02x_def)
  show ?thesis
    using value_render_exact[where v = render_demo and buf = "Some (replicate 32 7)" and cap = 32] t
    by (simp add: render_demo_def Let_def)
qed

end
