(* ===== verification/Spec2Isabelle.thy ===== *)
theory Spec2Isabelle
  imports Geas_Wire_Props Geas_Value_Props Geas_Iname_Props Geas_Sql_Props Geas_Policy_Props Geas_Store_Props Geas_Report
    Geas_System_Props Geas_Park_Props Geas_Render_Props
begin

text \<open>
  Verification of the Geas runtime, \<^verbatim>\<open>src/runtime\<close>.

  \<^bold>\<open>The program.\<close>  The runtime executes contracts compiled from the Geas language.  A module registers
  contract descriptors; a host signs a contract, which makes an instance with its vows bound; it fulfills
  pledges of the instance, synchronously or through a pool of worker threads that return futures; latches
  record the first outcome of every pledge and a requirements policy turns latches into the state of the
  contract; a contract with schemas keeps rows in SQLite through the store driver, with transactional
  subcontracts around its pledges; values cross the network and the park table in the wire codec's
  canonical bytes; an instance can be parked in one row of a database and resumed from it.

  \<^bold>\<open>Modelling conventions.\<close>  C integers are words of their width (\<open>u8\<close>, \<open>u32\<close>, \<open>u64\<close>); a sum or product
  that can wrap in C wraps here.  A struct is a record, an enumeration a datatype, a fallible call returns
  \<open>GeasStatus + 'a\<close>.  Memory is the list of the blocks an owner holds together with a count of allocation
  calls, and a function from that count to success decides which allocation fails, so every theorem holds for
  every pattern of failures.  A value is a datatype whose constructors are the type tags; a pointer that may
  be NULL is a separate constructor (\<open>SNull\<close>, \<open>LNull\<close>, \<open>None\<close>).  SQLite is third party code: it is the
  record \<open>sqlite\<close> of functions over a world, a parameter of every definition that reaches it; what is relied
  on (\<open>reads_cells\<close>, \<open>store_accepts\<close>, \<open>carries\<close>) is a named hypothesis.  A pledge body is a
  parameter too, a function on the whole system that must only act through the runtime's own calls
  (\<open>body_ok\<close>).  Time is a parameter of the environment.

  \<^bold>\<open>Concurrency.\<close>  Every critical section of \<^verbatim>\<open>runtime.c\<close> is one step on the system record \<open>sys\<close>; the place
  where a thread stands between two sections is a token in \<open>s_threads\<close>.  The inductive relation \<open>api\<close> takes
  the steps in any order, the steps of the pledge bodies nested inside a running task.  \<open>reachable\<close> is the
  closure from a successful \<^verbatim>\<open>geas_runtime_init\<close>.  Waiting for a lock or a condition variable is the order of
  the steps: a wait that would block forever is the result \<open>None\<close> of \<open>geas_future_wait\<close>, and the pool's progress is
  the iteration of \<open>pool_turn\<close>.

  \<^bold>\<open>The theories\<close>, with the source each one models.
  \<^item> \<open>Geas_Prelude\<close>: word and list facts, type names, rewrite collections.
  \<^item> \<open>Geas_Abi\<close>, \<open>Geas_Desc\<close>: \<^verbatim>\<open>geas_abi.h\<close>; tags, values, statuses, descriptors, C strings.
  \<^item> \<open>Geas_Values\<close>, \<open>Geas_Maps\<close>, with \<open>Geas_Value_Facts\<close> and \<open>Geas_Value_Props\<close>: the instance heap,
    strings, lists, tuples, maps, \<^verbatim>\<open>geas_value_eq\<close>, \<^verbatim>\<open>geas_value_deep_copy\<close>.  The locale \<open>dictionary\<close> states what a
    map owes its clients; it is interpreted on \<^verbatim>\<open>geas_map_get\<close> and \<^verbatim>\<open>geas_map_set\<close>.
  \<^item> \<open>Geas_Wire\<close> with \<open>Geas_Wire_Facts\<close>, \<open>Geas_Wire_Decode\<close>, \<open>Geas_Wire_Roundtrip\<close>, \<open>Geas_Wire_Bounds\<close>,
    \<open>Geas_Wire_Props\<close>: \<^verbatim>\<open>wire.c\<close>; fields, frames, both encoder passes, the decoder.
  \<^item> \<open>Geas_Iname\<close> with \<open>Geas_Iname_Facts\<close>, \<open>Geas_Iname_Props\<close>: registration, the sorted iname table, modules,
    lookup and dump.  \<open>registry_step\<close> is the step relation of the registry.
  \<^item> \<open>Geas_Sql\<close>, \<open>Geas_Sql_Props\<close>: the statement builders \<^verbatim>\<open>store_sql_*\<close>.
  \<^item> \<open>Geas_Store\<close>, \<open>Geas_Store_Ops\<close>, \<open>Geas_Float\<close> with \<open>Geas_Store_Facts\<close>, \<open>Geas_Store_Props\<close>: \<^verbatim>\<open>store.c\<close>, the
    store operations a body calls, and the double arithmetic of the averages.  The locale \<open>store_alloc\<close> is the
    allocation hook of the driver, interpreted on the instance heap, the scratch arena and the arena of the
    resume query.
  \<^item> \<open>Geas_Policy\<close>, \<open>Geas_Report\<close>, \<open>Geas_Policy_Props\<close>: latches, the requirements evaluator, the partial result
    and its record value.
  \<^item> \<open>Geas_Sign\<close>, \<open>Geas_Sign_Facts\<close>: bindings, dispatch, vows, building an instance, breaking it, argument
    frames, references and their write back, the transactions around a pledge.
  \<^item> \<open>Geas_System\<close> with \<open>Geas_System_Facts\<close>, \<open>Geas_System_Inv\<close>, \<open>Geas_System_Live\<close>, \<open>Geas_System_Props\<close>: futures and
    their reference counts, the queue, the workers, queued and inline fulfillment, waiting, sign and break on the
    system, start and shutdown; \<open>sys_ok\<close> is the invariant, \<open>evolves\<close> the order every step follows.
  \<^item> \<open>Geas_Park\<close> with \<open>Geas_Park_Facts\<close>, \<open>Geas_Park_Props\<close>: \<^verbatim>\<open>geas_instance_park\<close> and \<^verbatim>\<open>geas_instance_resume\<close>.
  \<^item> \<open>Geas_Render\<close>, \<open>Geas_Render_Props\<close>: \<^verbatim>\<open>geas_value_render\<close> with its sink and formats.

  \<^bold>\<open>What is shown.\<close>
  \<^item> Lifecycle: instances and futures only move forward; reference counts are exact and nothing dangles; a wait
    delivers once; a break is final; sign is all or nothing; a resolved transaction never runs again; a
    synchronous call returns once the pool has served the calls before it.
  \<^item> Wire: round trip in both directions, an exact size protocol, and the cost of a hostile payload.
  \<^item> Park: an instance that parked comes back; an instance that comes back is well typed whatever the row says.
  \<^item> Registration: all or nothing, lookup by binary search, a dump that does not depend on the order.
  \<^item> Values: equality is an equivalence, the deep copy preserves content, maps are dictionaries.
  \<^item> Store: every statement fits its buffer and contains no compared value; rows round trip; results are owned
    by the right heap; a reconciled table has the declared shape; store operations touch only the heap.
  \<^item> Policy: a line means the expression it spells in postfix form; the default as a function of the latches; the first
    outcome latches; the partial result partitions the items.
  \<^item> Rendering: the two passes agree, the buffer is never overrun and is a C string.
  \<^item> Deviations of the code from its documentation are theorems as well: the wrapped size of a huge list, the
    truncated bind of a huge string, descriptors left behind by a failed module load, a refused commit that is
    reported as fulfilled, and a park after a break that is not refused.

  \<^bold>\<open>Bounds.\<close>  The decoder recurses on the nesting depth, at most 64, which is its termination measure; its cost
  theorem assumes a buffer below \<open>2 ^ 55\<close> bytes so that no size sum wraps.  Values are well formed when every
  length is the number of elements behind it and fits the address space (\<open>wf_value\<close>).  The renderer cuts at
  depth 8 and its theorem assumes a text below \<open>2 ^ 64\<close> bytes.  \<open>pool_worker\<close> takes a number of turns; as many as there are
  queued calls before the one that is waited for, and one more, are enough.

  \<^bold>\<open>Not modelled.\<close>  \<^verbatim>\<open>src/skeleton/host.c\<close> is a demonstration program that only calls the public functions and
  prints.  The SQLite amalgamation is a parameter.  Of \<^verbatim>\<open>runtime.c\<close> only \<^verbatim>\<open>geas_instance_runtime\<close> (it returns a
  field) and \<^verbatim>\<open>mutex_init_recursive\<close> (an attribute of a lock) are left out; locks are implicit in the steps, and a NULL
  argument that a C caller could pass to an out parameter has no counterpart where the model returns a value.
  The compiler and its tools, in other languages, are outside this development.
\<close>

end
